(* ===== verification/Prelude.thy ===== *)
theory Prelude
  imports Main "HOL-Library.Char_ord" "HOL-Library.List_Lexorder" "HOL-Library.Product_Lexorder"
    "HOL-Library.Multiset" "HOL-Library.Code_Target_Numeral"
begin

text \<open>
  What every theory of the development shares: the shape of a Go call that may fail, the
  collections of facts that carry the component proofs, and the list lemmas the table and
  string models need.

  A Go function that returns \<open>(T, error)\<close> is a HOL function into \<open>('e, 'a) result\<close>, with
  \<open>Inl\<close> for a non-nil error; one that returns only \<open>error\<close> is a function into an option,
  with \<open>None\<close> for nil. A call that reads or writes a state of type \<open>'s\<close> is an
  \<open>('s, 'e, 'a) action\<close>: it is given the state and returns the result with the next state.
\<close>

type_synonym ('e, 'a) result = "'e + 'a"
type_synonym ('s, 'e, 'a) action = "'s \<Rightarrow> ('e, 'a) result \<times> 's"

text \<open>
  \<open>action_defs\<close> collects the definitions of the ways Go code sequences calls that can fail, for the
  proofs that follow a run; \<open>wp_rules\<close> the rules that follow a method of the reconciler call by call.
\<close>

named_theorems action_defs
named_theorems wp_rules

section \<open>Fixed-width integers\<close>

text \<open>
  Go's \<open>int64\<close> and \<open>int32\<close> are integers in a range; an addition that leaves the range wraps
  around. A PostgreSQL \<open>bigint\<close> has the same range, but an addition that leaves it is an error.
\<close>

definition in_int64 :: "int \<Rightarrow> bool" where
  "in_int64 x \<longleftrightarrow> - (2 ^ 63) \<le> x \<and> x < 2 ^ 63"

definition in_int32 :: "int \<Rightarrow> bool" where
  "in_int32 x \<longleftrightarrow> - (2 ^ 31) \<le> x \<and> x < 2 ^ 31"

definition wrap64 :: "int \<Rightarrow> int" where
  "wrap64 x = (x + 2 ^ 63) mod 2 ^ 64 - 2 ^ 63"

lemma wrap64_in_range: "in_int64 (wrap64 x)"
  by (simp add: in_int64_def wrap64_def)

lemma wrap64_id [simp]: "in_int64 x \<Longrightarrow> wrap64 x = x"
  by (simp add: in_int64_def wrap64_def)

section \<open>Rows of a table\<close>

text \<open>A table is the list of its rows. A row is found by its key and updated in place.\<close>

lemma find_Some_mem: "find p xs = Some x \<Longrightarrow> x \<in> set xs \<and> p x"
  by (induction xs) (auto split: if_splits)

lemma find_None_iff_set: "find p xs = None \<longleftrightarrow> (\<forall>x \<in> set xs. \<not> p x)"
  by (induction xs) auto

lemma find_append: "find p (xs @ ys) = (case find p xs of None \<Rightarrow> find p ys | Some x \<Rightarrow> Some x)"
  by (induction xs) auto

lemma find_unique:
  assumes "distinct (map k xs)" and "x \<in> set xs"
  shows "find (\<lambda>y. k y = k x) xs = Some x"
  using assms by (induction xs) (auto simp: rev_image_eqI)

lemma find_map_same_key:
  assumes "\<And>x. p (f x) = p x"
  shows "find p (map f xs) = map_option f (find p xs)"
  using assms by (induction xs) auto

lemma map_key_update:
  assumes "\<And>x. k (f x) = k x"
  shows "map k (map (\<lambda>x. if p x then f x else x) xs) = map k xs"
  using assms by simp

section \<open>Actions\<close>

text \<open>
  The shape of a Go handler: a call whose error ends the handler, with the error wrapped on the
  way out, and the next call otherwise.
\<close>

definition returns :: "'a \<Rightarrow> ('s, 'e, 'a) action" where
  "returns a s = (Inr a, s)"

definition throws :: "'e \<Rightarrow> ('s, 'e, 'a) action" where
  "throws e s = (Inl e, s)"

definition guards :: "bool \<Rightarrow> 'e \<Rightarrow> ('s, 'e, unit) action" where
  "guards b e = (if b then returns () else throws e)"

definition check_none :: "('r \<Rightarrow> 'e) \<Rightarrow> 'r option \<Rightarrow> ('s, 'e, unit) action" where
  "check_none f r = (case r of None \<Rightarrow> returns () | Some x \<Rightarrow> throws (f x))"

definition and_then :: "('s, 'e, 'a) action \<Rightarrow> ('a \<Rightarrow> ('s, 'e, 'b) action) \<Rightarrow> ('s, 'e, 'b) action" where
  "and_then m k s = (case m s of (Inl e, s') \<Rightarrow> (Inl e, s') | (Inr a, s') \<Rightarrow> k a s')"

definition wrap_err :: "('d \<Rightarrow> 'e) \<Rightarrow> ('s, 'd, 'a) action \<Rightarrow> ('s, 'e, 'a) action" where
  "wrap_err f m s = (case m s of (Inl e, s') \<Rightarrow> (Inl (f e), s') | (Inr a, s') \<Rightarrow> (Inr a, s'))"

lemmas [action_defs] = returns_def throws_def and_then_def wrap_err_def

lemma returns_iff [simp]: "returns a s = (r, s') \<longleftrightarrow> r = Inr a \<and> s' = s"
  by (auto simp: returns_def)

lemma throws_iff [simp]: "throws e s = (r, s') \<longleftrightarrow> r = Inl e \<and> s' = s"
  by (auto simp: throws_def)

lemma and_then_Inr [simp]:
  "and_then m k s = (Inr b, s'') \<longleftrightarrow> (\<exists>a s'. m s = (Inr a, s') \<and> k a s' = (Inr b, s''))"
  by (auto simp: and_then_def split: prod.splits sum.splits)

lemma and_then_Inl:
  "and_then m k s = (Inl e, s'') \<longleftrightarrow>
     m s = (Inl e, s'') \<or> (\<exists>a s'. m s = (Inr a, s') \<and> k a s' = (Inl e, s''))"
  by (auto simp: and_then_def split: prod.splits sum.splits)

lemma wrap_err_Inr [simp]: "wrap_err f m s = (Inr a, s') \<longleftrightarrow> m s = (Inr a, s')"
  by (auto simp: wrap_err_def split: prod.splits sum.splits)

lemma wrap_err_Inl: "wrap_err f m s = (Inl e, s') \<longleftrightarrow> (\<exists>d. m s = (Inl d, s') \<and> e = f d)"
  by (auto simp: wrap_err_def split: prod.splits sum.splits)

lemma guards_Inr [simp]: "guards b e s = (Inr x, s') \<longleftrightarrow> b \<and> s' = s"
  by (auto simp: guards_def)

lemma guards_Inl: "guards b e s = (Inl d, s') \<longleftrightarrow> \<not> b \<and> d = e \<and> s' = s"
  by (auto simp: guards_def)

lemma check_none_Inr [simp]: "check_none f r s = (Inr x, s') \<longleftrightarrow> r = None \<and> s' = s"
  by (auto simp: check_none_def split: option.splits)

lemma check_none_Inl: "check_none f r s = (Inl d, s') \<longleftrightarrow> (\<exists>x. r = Some x \<and> d = f x) \<and> s' = s"
  by (auto simp: check_none_def split: option.splits)

lemmas action_Inl = and_then_Inl wrap_err_Inl guards_Inl check_none_Inl

text \<open>The state after an action, when only that matters.\<close>

lemma and_then_state:
  "(\<And>a s'. m s = (Inr a, s') \<Longrightarrow> P (snd (k a s'))) \<Longrightarrow> (\<And>e s'. m s = (Inl e, s') \<Longrightarrow> P s')
     \<Longrightarrow> P (snd (and_then m k s))"
  by (auto simp: and_then_def split: prod.splits sum.splits)

lemma wrap_err_state [simp]: "snd (wrap_err f m s) = snd (m s)"
  by (auto simp: wrap_err_def split: prod.splits sum.splits)

lemma simple_state [simp]:
  "snd (returns a s) = s" "snd (throws e s) = s" "snd (guards b d s) = s" "snd (check_none f r s) = s"
  by (auto simp: returns_def throws_def guards_def check_none_def split: option.splits)

text \<open>
  A call whose error the caller looks at: the error goes to one continuation, the value to the
  other.
\<close>

definition on_result ::
    "('s, 'd, 'a) action \<Rightarrow> ('d \<Rightarrow> ('s, 'e, 'b) action) \<Rightarrow> ('a \<Rightarrow> ('s, 'e, 'b) action) \<Rightarrow> ('s, 'e, 'b) action" where
  "on_result m fail ok s = (case m s of (Inl e, s') \<Rightarrow> fail e s' | (Inr a, s') \<Rightarrow> ok a s')"

lemma on_result_run:
  "m s = (Inl e, s') \<Longrightarrow> on_result m fail ok s = fail e s'"
  "m s = (Inr a, s') \<Longrightarrow> on_result m fail ok s = ok a s'"
  by (simp_all add: on_result_def)

lemma find_unique_key:
  "distinct (map k xs) \<Longrightarrow> x \<in> set xs \<Longrightarrow> y \<in> set xs \<Longrightarrow> k x = k y \<Longrightarrow> x = y"
  by (metis distinct_map inj_on_def)

end
