(* ===== verification/GoUnicode.thy ===== *)
theory GoUnicode
  imports GoStrings
begin

text \<open>
  Runes: \<open>unicode/utf8\<close> decoding and encoding, \<open>unicode.IsControl\<close>, \<open>unicode.IsSpace\<close> and
  \<open>unicode.ToLower\<close>, and the functions of \<open>strings\<close> built on them (\<open>TrimSpace\<close>, \<open>ToLower\<close>,
  \<open>EqualFold\<close>, \<open>IndexFunc\<close>); then the anchored \<open>regexp\<close> patterns of the program, which are
  all sequences of bounded repetitions of byte classes.
\<close>

section \<open>UTF-8\<close>

definition rune_error :: nat where
  "rune_error = 65533"

definition cont :: "nat \<Rightarrow> nat \<Rightarrow> char \<Rightarrow> bool" where
  "cont lo hi c \<longleftrightarrow> lo \<le> byte c \<and> byte c \<le> hi"

text \<open>
  The second byte's range depends on the first: this excludes overlong forms, surrogates and
  values past the last code point. Everything else decodes to U+FFFD with width one.
\<close>

definition second_range :: "nat \<Rightarrow> nat \<times> nat" where
  "second_range b0 = (if b0 = 224 then (160, 191) else if b0 = 237 then (128, 159)
     else if b0 = 240 then (144, 191) else if b0 = 244 then (128, 143) else (128, 191))"

text \<open>The rune at the head of a non-empty string and the number of bytes after the first.\<close>

definition decode_rune :: "char \<Rightarrow> string \<Rightarrow> nat \<times> nat" where
  "decode_rune c cs =
     (let b0 = byte c; (lo, hi) = second_range b0 in
      if b0 < 128 then (b0, 0)
      else if 194 \<le> b0 \<and> b0 \<le> 223 then
        (case cs of c1 # _ \<Rightarrow> if cont lo hi c1 then ((b0 - 192) * 64 + (byte c1 - 128), 1)
                             else (rune_error, 0)
         | [] \<Rightarrow> (rune_error, 0))
      else if 224 \<le> b0 \<and> b0 \<le> 239 then
        (case cs of c1 # c2 # _ \<Rightarrow>
           if cont lo hi c1 \<and> cont 128 191 c2
           then (((b0 - 224) * 64 + (byte c1 - 128)) * 64 + (byte c2 - 128), 2)
           else (rune_error, 0)
         | _ \<Rightarrow> (rune_error, 0))
      else if 240 \<le> b0 \<and> b0 \<le> 244 then
        (case cs of c1 # c2 # c3 # _ \<Rightarrow>
           if cont lo hi c1 \<and> cont 128 191 c2 \<and> cont 128 191 c3
           then ((((b0 - 240) * 64 + (byte c1 - 128)) * 64 + (byte c2 - 128)) * 64
                 + (byte c3 - 128), 3)
           else (rune_error, 0)
         | _ \<Rightarrow> (rune_error, 0))
      else (rune_error, 0))"

text \<open>A string as the list of its runes, each with the bytes it was decoded from.\<close>

function segs :: "string \<Rightarrow> (nat \<times> string) list" where
  "segs [] = []"
| "segs (c # cs) = (case decode_rune c cs of (r, n) \<Rightarrow> (r, c # take n cs) # segs (drop n cs))"
  by pat_completeness auto
termination
  by (relation "measure length") auto

definition runes :: "string \<Rightarrow> nat list" where
  "runes s = map fst (segs s)"

text \<open>\<open>utf8.AppendRune\<close>: surrogates and values out of range are written as U+FFFD.\<close>

definition encode_rune :: "nat \<Rightarrow> string" where
  "encode_rune r =
     (if r < 128 then [char_of r]
      else if r < 2048 then [char_of (192 + r div 64), char_of (128 + r mod 64)]
      else if 55296 \<le> r \<and> r \<le> 57343 \<or> 1114111 < r
      then [char_of (239::nat), char_of (191::nat), char_of (189::nat)]
      else if r < 65536 then
        [char_of (224 + r div 4096), char_of (128 + r div 64 mod 64), char_of (128 + r mod 64)]
      else [char_of (240 + r div 262144), char_of (128 + r div 4096 mod 64),
            char_of (128 + r div 64 mod 64), char_of (128 + r mod 64)])"

lemma segs_join: "concat (map snd (segs s)) = s"
  by (induction s rule: segs.induct) (auto split: prod.splits)

lemma decode_rune_ascii: "byte c < 128 \<Longrightarrow> decode_rune c cs = (byte c, 0)"
  by (simp add: decode_rune_def Let_def split: prod.splits)

lemma segs_ascii: "is_ascii s \<Longrightarrow> segs s = map (\<lambda>c. (byte c, [c])) s"
  by (induction s) (auto simp: is_ascii_def decode_rune_ascii)

lemma runes_ascii: "is_ascii s \<Longrightarrow> runes s = map byte s"
  by (simp add: runes_def segs_ascii)

lemma is_ascii_simps [simp]:
  "is_ascii []"
  "is_ascii (c # s) \<longleftrightarrow> byte c < 128 \<and> is_ascii s"
  "is_ascii (s @ t) \<longleftrightarrow> is_ascii s \<and> is_ascii t"
  by (auto simp: is_ascii_def)

text \<open>
  What decoding one rune gives: an ASCII byte, an invalid byte, or a sequence of bytes past ASCII
  that encodes the rune and is decoded the same way whatever follows it.
\<close>

lemma low6:
  fixes x e :: nat
  assumes "e < 64"
  shows "(x * 64 + e) mod 64 = e" and "(x * 64 + e) div 64 = x"
  using assms by auto

lemma encode_two:
  fixes a b :: nat
  assumes "2 \<le> a" "a < 32" "b < 64"
  shows "encode_rune (a * 64 + b) = [char_of (192 + a), char_of (128 + b)]"
proof -
  have "(a * 64 + b) div 64 = a" "(a * 64 + b) mod 64 = b" using assms by auto
  with assms show ?thesis by (simp add: encode_rune_def)
qed

lemma encode_three:
  fixes a b d :: nat
  assumes "a < 16" "b < 64" "d < 64" "a = 0 \<Longrightarrow> 32 \<le> b" "a = 13 \<Longrightarrow> b < 32"
  shows "encode_rune ((a * 64 + b) * 64 + d) = [char_of (224 + a), char_of (128 + b), char_of (128 + d)]"
proof -
  let ?r = "(a * 64 + b) * 64 + d"
  have "?r div 64 = a * 64 + b" "?r mod 64 = d" by (rule low6[OF assms(3)])+
  moreover have "(a * 64 + b) mod 64 = b" "(a * 64 + b) div 64 = a" using assms(2) by auto
  moreover have "?r div 4096 = ?r div 64 div 64" by (simp add: div_mult2_eq[symmetric])
  moreover have "2048 \<le> ?r" "?r < 65536" using assms(1-4) by (cases "a = 0"; simp; fail)+
  moreover have "\<not> (55296 \<le> ?r \<and> ?r \<le> 57343)"
  proof (cases "a = 13")
    case True
    with assms(3,5) show ?thesis by simp
  next
    case False
    then have "a \<le> 12 \<or> 14 \<le> a" by linarith
    moreover have "?r = 4096 * a + 64 * b + d" by simp
    ultimately show ?thesis using assms(2,3) by linarith
  qed
  ultimately show ?thesis by (simp add: encode_rune_def)
qed

lemma encode_four:
  fixes a b d e :: nat
  assumes "a < 5" "b < 64" "d < 64" "e < 64" "a = 0 \<Longrightarrow> 16 \<le> b" "a = 4 \<Longrightarrow> b < 16"
  shows "encode_rune (((a * 64 + b) * 64 + d) * 64 + e) =
    [char_of (240 + a), char_of (128 + b), char_of (128 + d), char_of (128 + e)]"
proof -
  let ?r = "((a * 64 + b) * 64 + d) * 64 + e"
  have "?r div 64 = (a * 64 + b) * 64 + d" "?r mod 64 = e"
    by (rule low6[OF assms(4)])+
  moreover have "((a * 64 + b) * 64 + d) mod 64 = d" "((a * 64 + b) * 64 + d) div 64 = a * 64 + b"
    by (rule low6[OF assms(3)])+
  moreover have "(a * 64 + b) mod 64 = b" "(a * 64 + b) div 64 = a" using assms(2) by auto
  moreover have "?r div 4096 = ?r div 64 div 64" "?r div 262144 = ?r div 64 div 64 div 64"
    by (simp_all add: div_mult2_eq[symmetric])
  moreover have "65536 \<le> ?r" using assms(5) by (cases "a = 0"; simp)
  moreover have "?r \<le> 1114111"
  proof (cases "a = 4")
    case True
    with assms(3,4,6) show ?thesis by simp
  next
    case False
    with assms(1) have "a \<le> 3" by linarith
    moreover have "?r = 262144 * a + 4096 * b + 64 * d + e" by simp
    ultimately show ?thesis using assms(2-4) by linarith
  qed
  ultimately show ?thesis by (simp add: encode_rune_def)
qed

lemma second_range_bounds:
  "second_range b = (lo, hi) \<Longrightarrow> 128 \<le> lo \<and> hi \<le> 191
     \<and> (b = 224 \<longrightarrow> 160 \<le> lo) \<and> (b = 237 \<longrightarrow> hi \<le> 159) \<and> (b = 240 \<longrightarrow> 144 \<le> lo) \<and> (b = 244 \<longrightarrow> hi \<le> 143)"
  by (auto simp: second_range_def split: if_splits)

definition multibyte :: "char \<Rightarrow> string \<Rightarrow> nat \<Rightarrow> nat \<Rightarrow> bool" where
  "multibyte c cs r n \<longleftrightarrow> 0 < n \<and> 128 \<le> byte c \<and> n \<le> length cs
     \<and> (\<forall>x \<in> set (take n cs). 128 \<le> byte x) \<and> 128 \<le> r \<and> encode_rune r = c # take n cs
     \<and> (\<forall>rest. decode_rune c (take n cs @ rest) = (r, n))"

lemma decode_rune_cases:
  assumes "decode_rune c cs = (r, n)"
  shows "byte c < 128 \<and> r = byte c \<and> n = 0 \<or> 128 \<le> byte c \<and> r = rune_error \<and> n = 0
    \<or> multibyte c cs r n"
proof -
  obtain lo hi where sr: "second_range (byte c) = (lo, hi)" by (cases "second_range (byte c)")
  note b = second_range_bounds[OF sr]
  consider "byte c < 128" | "128 \<le> byte c" "r = rune_error" "n = 0"
    | c1 t where "194 \<le> byte c" "byte c \<le> 223" "cs = c1 # t" "cont lo hi c1"
        "r = (byte c - 192) * 64 + (byte c1 - 128)" "n = 1"
    | c1 c2 t where "224 \<le> byte c" "byte c \<le> 239" "cs = c1 # c2 # t" "cont lo hi c1" "cont 128 191 c2"
        "r = ((byte c - 224) * 64 + (byte c1 - 128)) * 64 + (byte c2 - 128)" "n = 2"
    | c1 c2 c3 t where "240 \<le> byte c" "byte c \<le> 244" "cs = c1 # c2 # c3 # t" "cont lo hi c1"
        "cont 128 191 c2" "cont 128 191 c3"
        "r = (((byte c - 240) * 64 + (byte c1 - 128)) * 64 + (byte c2 - 128)) * 64 + (byte c3 - 128)"
        "n = 3"
    using assms by (auto simp: decode_rune_def Let_def sr split: if_splits list.splits)
  then show ?thesis
  proof cases
    case 1
    with assms show ?thesis by (simp add: decode_rune_ascii)
  next
    case 2
    then show ?thesis by simp
  next
    case 3
    define a where "a = byte c - 192"
    define d where "d = byte c1 - 128"
    from 3 b have "2 \<le> a" "a < 32" "d < 64" and c: "byte c = 192 + a" "byte c1 = 128 + d"
      by (auto simp: a_def d_def cont_def)
    from encode_two[OF this(1-3)] 3 c have "encode_rune r = [c, c1]"
      by (metis a_def char_of_byte d_def)
    moreover have "second_range (192 + a) = (lo, hi)" using sr c by simp
    ultimately show ?thesis
      using 3 \<open>2 \<le> a\<close> c by (auto simp: multibyte_def decode_rune_def Let_def)
  next
    case 4
    define a where "a = byte c - 224"
    define d where "d = byte c1 - 128"
    define e where "e = byte c2 - 128"
    from 4 b have r: "a < 16" "d < 64" "e < 64" "a = 0 \<Longrightarrow> 32 \<le> d" "a = 13 \<Longrightarrow> d < 32"
      and c: "byte c = 224 + a" "byte c1 = 128 + d" "byte c2 = 128 + e"
      by (auto simp: a_def d_def e_def cont_def)
    from encode_three[OF r] 4 c have "encode_rune r = [c, c1, c2]"
      by (metis a_def char_of_byte d_def e_def)
    moreover from r(4) 4(6) have "128 \<le> r" unfolding a_def[symmetric] d_def[symmetric] e_def[symmetric]
      by (cases "a = 0") auto
    moreover have "second_range (224 + a) = (lo, hi)" using sr c by simp
    ultimately show ?thesis using 4 c by (auto simp: multibyte_def decode_rune_def Let_def)
  next
    case 5
    define a where "a = byte c - 240"
    define d where "d = byte c1 - 128"
    define e where "e = byte c2 - 128"
    define f where "f = byte c3 - 128"
    from 5 b have r: "a < 5" "d < 64" "e < 64" "f < 64" "a = 0 \<Longrightarrow> 16 \<le> d" "a = 4 \<Longrightarrow> d < 16"
      and c: "byte c = 240 + a" "byte c1 = 128 + d" "byte c2 = 128 + e" "byte c3 = 128 + f"
      by (auto simp: a_def d_def e_def f_def cont_def)
    from encode_four[OF r] 5 c have "encode_rune r = [c, c1, c2, c3]"
      by (metis a_def char_of_byte d_def e_def f_def)
    moreover from r(5) 5(7) have "128 \<le> r"
      unfolding a_def[symmetric] d_def[symmetric] e_def[symmetric] f_def[symmetric]
      by (cases "a = 0") auto
    moreover have "second_range (240 + a) = (lo, hi)" using sr c by simp
    ultimately show ?thesis using 5 c by (auto simp: multibyte_def decode_rune_def Let_def)
  qed
qed

section \<open>Classes of runes\<close>

definition IsControl :: "nat \<Rightarrow> bool" where
  "IsControl r \<longleftrightarrow> r \<le> 31 \<or> 127 \<le> r \<and> r \<le> 159"

definition IsSpace :: "nat \<Rightarrow> bool" where
  "IsSpace r \<longleftrightarrow> r \<in> {9, 10, 11, 12, 13, 32, 133, 160, 5760, 8232, 8233, 8239, 8287, 12288}
     \<or> 8192 \<le> r \<and> r \<le> 8202"

text \<open>\<open>strings.IndexFunc(s, unicode.IsControl) >= 0\<close>.\<close>

definition has_control :: "string \<Rightarrow> bool" where
  "has_control s \<longleftrightarrow> list_ex IsControl (runes s)"

definition TrimSpace :: "string \<Rightarrow> string" where
  "TrimSpace s = (let sp = (\<lambda>(r, _). IsSpace r)
     in concat (map snd (rev (dropWhile sp (rev (dropWhile sp (segs s)))))))"

text \<open>
  The lower-case mapping of the code points past ASCII: rows \<open>(first, last, stride, delta)\<close> of
  the Unicode 15 simple case mapping, the table behind \<open>unicode.ToLower\<close>.
\<close>

definition lower_table :: "(nat \<times> nat \<times> nat \<times> int) list" where
  "lower_table = [
    (192, 214, 1, 32), (216, 222, 1, 32), (256, 302, 2, 1), (304, 304, 1, -199),
     (306, 310, 2, 1), (313, 327, 2, 1), (330, 374, 2, 1), (376, 376, 1, -121), (377, 381, 2, 1),
     (385, 385, 1, 210), (386, 388, 2, 1), (390, 390, 1, 206), (391, 391, 1, 1),
     (393, 394, 1, 205), (395, 395, 1, 1), (398, 398, 1, 79), (399, 399, 1, 202),
     (400, 400, 1, 203), (401, 401, 1, 1), (403, 403, 1, 205), (404, 404, 1, 207),
     (406, 406, 1, 211), (407, 407, 1, 209), (408, 408, 1, 1), (412, 412, 1, 211),
     (413, 413, 1, 213), (415, 415, 1, 214), (416, 420, 2, 1), (422, 422, 1, 218),
     (423, 423, 1, 1), (425, 425, 1, 218), (428, 428, 1, 1), (430, 430, 1, 218),
     (431, 431, 1, 1), (433, 434, 1, 217), (435, 437, 2, 1), (439, 439, 1, 219),
     (440, 440, 1, 1), (444, 444, 1, 1), (452, 452, 1, 2), (453, 453, 1, 1), (455, 455, 1, 2),
     (456, 456, 1, 1), (458, 458, 1, 2), (459, 475, 2, 1), (478, 494, 2, 1), (497, 497, 1, 2),
     (498, 500, 2, 1), (502, 502, 1, -97), (503, 503, 1, -56), (504, 542, 2, 1),
     (544, 544, 1, -130), (546, 562, 2, 1), (570, 570, 1, 10795), (571, 571, 1, 1),
     (573, 573, 1, -163), (574, 574, 1, 10792), (577, 577, 1, 1), (579, 579, 1, -195),
     (580, 580, 1, 69), (581, 581, 1, 71), (582, 590, 2, 1), (880, 882, 2, 1), (886, 886, 1, 1),
     (895, 895, 1, 116), (902, 902, 1, 38), (904, 906, 1, 37), (908, 908, 1, 64),
     (910, 911, 1, 63), (913, 929, 1, 32), (931, 939, 1, 32), (975, 975, 1, 8),
     (984, 1006, 2, 1), (1012, 1012, 1, -60), (1015, 1015, 1, 1), (1017, 1017, 1, -7),
     (1018, 1018, 1, 1), (1021, 1023, 1, -130), (1024, 1039, 1, 80), (1040, 1071, 1, 32),
     (1120, 1152, 2, 1), (1162, 1214, 2, 1), (1216, 1216, 1, 15), (1217, 1229, 2, 1),
     (1232, 1326, 2, 1), (1329, 1366, 1, 48), (4256, 4293, 1, 7264), (4295, 4295, 1, 7264),
     (4301, 4301, 1, 7264), (5024, 5103, 1, 38864), (5104, 5109, 1, 8), (7312, 7354, 1, -3008),
     (7357, 7359, 1, -3008), (7680, 7828, 2, 1), (7838, 7838, 1, -7615), (7840, 7934, 2, 1),
     (7944, 7951, 1, -8), (7960, 7965, 1, -8), (7976, 7983, 1, -8), (7992, 7999, 1, -8),
     (8008, 8013, 1, -8), (8025, 8031, 2, -8), (8040, 8047, 1, -8), (8072, 8079, 1, -8),
     (8088, 8095, 1, -8), (8104, 8111, 1, -8), (8120, 8121, 1, -8), (8122, 8123, 1, -74),
     (8124, 8124, 1, -9), (8136, 8139, 1, -86), (8140, 8140, 1, -9), (8152, 8153, 1, -8),
     (8154, 8155, 1, -100), (8168, 8169, 1, -8), (8170, 8171, 1, -112), (8172, 8172, 1, -7),
     (8184, 8185, 1, -128), (8186, 8187, 1, -126), (8188, 8188, 1, -9), (8486, 8486, 1, -7517),
     (8490, 8490, 1, -8383), (8491, 8491, 1, -8262), (8498, 8498, 1, 28), (8544, 8559, 1, 16),
     (8579, 8579, 1, 1), (9398, 9423, 1, 26), (11264, 11311, 1, 48), (11360, 11360, 1, 1),
     (11362, 11362, 1, -10743), (11363, 11363, 1, -3814), (11364, 11364, 1, -10727),
     (11367, 11371, 2, 1), (11373, 11373, 1, -10780), (11374, 11374, 1, -10749),
     (11375, 11375, 1, -10783), (11376, 11376, 1, -10782), (11378, 11378, 1, 1),
     (11381, 11381, 1, 1), (11390, 11391, 1, -10815), (11392, 11490, 2, 1), (11499, 11501, 2, 1),
     (11506, 11506, 1, 1), (42560, 42604, 2, 1), (42624, 42650, 2, 1), (42786, 42798, 2, 1),
     (42802, 42862, 2, 1), (42873, 42875, 2, 1), (42877, 42877, 1, -35332), (42878, 42886, 2, 1),
     (42891, 42891, 1, 1), (42893, 42893, 1, -42280), (42896, 42898, 2, 1), (42902, 42920, 2, 1),
     (42922, 42922, 1, -42308), (42923, 42923, 1, -42319), (42924, 42924, 1, -42315),
     (42925, 42925, 1, -42305), (42926, 42926, 1, -42308), (42928, 42928, 1, -42258),
     (42929, 42929, 1, -42282), (42930, 42930, 1, -42261), (42931, 42931, 1, 928),
     (42932, 42946, 2, 1), (42948, 42948, 1, -48), (42949, 42949, 1, -42307),
     (42950, 42950, 1, -35384), (42951, 42953, 2, 1), (42960, 42960, 1, 1), (42966, 42968, 2, 1),
     (42997, 42997, 1, 1), (65313, 65338, 1, 32), (66560, 66599, 1, 40), (66736, 66771, 1, 40),
     (66928, 66938, 1, 39), (66940, 66954, 1, 39), (66956, 66962, 1, 39), (66964, 66965, 1, 39),
     (68736, 68786, 1, 64), (71840, 71871, 1, 32), (93760, 93791, 1, 32),
     (125184, 125217, 1, 34)]"

definition lower_row :: "nat \<Rightarrow> nat \<times> nat \<times> nat \<times> int \<Rightarrow> bool" where
  "lower_row r = (\<lambda>(lo, hi, st, d). lo \<le> r \<and> r \<le> hi \<and> (r - lo) mod st = 0)"

definition lower_rune :: "nat \<Rightarrow> nat" where
  "lower_rune r = (if r < 128 then (if 65 \<le> r \<and> r \<le> 90 then r + 32 else r)
     else case find (lower_row r) lower_table of
       None \<Rightarrow> r | Some (lo, hi, st, d) \<Rightarrow> nat (int r + d))"

text \<open>
  \<open>strings.ToLower\<close>: byte by byte on ASCII, otherwise rune by rune; a byte that is not valid
  UTF-8 becomes the encoding of U+FFFD.
\<close>

definition ToLower :: "string \<Rightarrow> string" where
  "ToLower s = (if is_ascii s then map ascii_lower s
     else concat (map (\<lambda>r. encode_rune (lower_rune r)) (runes s)))"

text \<open>
  \<open>strings.EqualFold\<close> against an ASCII string: the only runes past ASCII that fold to an ASCII
  letter are U+212A (to k) and U+017F (to s).
\<close>

definition fold_rune :: "nat \<Rightarrow> nat" where
  "fold_rune r = (if 65 \<le> r \<and> r \<le> 90 then r + 32
     else if r = 8490 then 107 else if r = 383 then 115 else r)"

definition EqualFold :: "string \<Rightarrow> string \<Rightarrow> bool" where
  "EqualFold s t \<longleftrightarrow> map fold_rune (runes s) = map fold_rune (runes t)"

lemma ascii_lower_idem [simp]: "ascii_lower (ascii_lower c) = ascii_lower c"
  by (auto simp: ascii_lower_def is_upper_def byte_in_def)

lemma byte_ascii_lower: "byte c < 128 \<Longrightarrow> byte (ascii_lower c) < 128"
  by (auto simp: ascii_lower_def is_upper_def byte_in_def)

lemma is_ascii_map_lower: "is_ascii s \<Longrightarrow> is_ascii (map ascii_lower s)"
  by (induction s) (auto simp: byte_ascii_lower)

lemma ToLower_ascii: "is_ascii s \<Longrightarrow> ToLower s = map ascii_lower s"
  by (simp add: ToLower_def)

lemma has_control_ascii: "is_ascii s \<Longrightarrow> has_control s \<longleftrightarrow> (\<exists>c \<in> set s. byte c \<le> 31 \<or> byte c = 127)"
proof (induction s)
  case Nil
  then show ?case by (simp add: has_control_def runes_def)
next
  case (Cons c s)
  then have c: "byte c < 128" and s: "is_ascii s" by auto
  with Cons.IH show ?case
    by (auto simp: has_control_def runes_ascii IsControl_def)
qed

section \<open>Anchored patterns\<close>

text \<open>
  The program's regular expressions have the form \<open>^c1{l1,h1}...cn{ln,hn}$\<close> with byte classes
  \<open>ci\<close>. All classes are ASCII, so matching runes is matching bytes; without the \<open>m\<close> flag
  \<open>$\<close> is the end of the text.
\<close>

type_synonym pattern = "((char \<Rightarrow> bool) \<times> nat \<times> nat) list"

fun MatchString :: "pattern \<Rightarrow> string \<Rightarrow> bool" where
  "MatchString [] s = (s = [])"
| "MatchString ((p, lo, hi) # ps) s =
     list_ex (\<lambda>n. n \<le> length s \<and> list_all p (take n s) \<and> MatchString ps (drop n s)) [lo..<Suc hi]"

lemma MatchString_exact:
  "MatchString ((p, n, n) # ps) s \<longleftrightarrow>
     n \<le> length s \<and> list_all p (take n s) \<and> MatchString ps (drop n s)"
  by simp

lemma MatchString_bytes:
  "MatchString ps s \<Longrightarrow> c \<in> set s \<Longrightarrow> \<exists>(p, lo, hi) \<in> set ps. p c"
proof (induction ps s rule: MatchString.induct)
  case (1 s)
  then show ?case by simp
next
  case (2 p lo hi ps s)
  then obtain n where n: "n \<in> set [lo..<Suc hi]" "list_all p (take n s)" "MatchString ps (drop n s)"
    by (auto simp: list_ex_iff)
  have "c \<in> set (take n s) \<or> c \<in> set (drop n s)"
    using "2.prems"(2) by (metis Un_iff append_take_drop_id set_append)
  then show ?case
    using 2(1)[OF n(1)] n by (auto simp: list_all_iff)
qed

lemma MatchString_length:
  "MatchString ps s \<Longrightarrow>
     sum_list (map (\<lambda>(p, lo, hi). lo) ps) \<le> length s \<and> length s \<le> sum_list (map (\<lambda>(p, lo, hi). hi) ps)"
proof (induction ps s rule: MatchString.induct)
  case (1 s)
  then show ?case by simp
next
  case (2 p lo hi ps s)
  then obtain n where n: "n \<in> set [lo..<Suc hi]" "n \<le> length s" "MatchString ps (drop n s)"
    by (auto simp: list_ex_iff)
  have "sum_list (map (\<lambda>(p, lo, hi). lo) ps) \<le> length s - n
      \<and> length s - n \<le> sum_list (map (\<lambda>(p, lo, hi). hi) ps)"
    using 2(1)[OF n(1)] n by simp
  with n show ?case by auto
qed

lemma MatchString_ascii:
  assumes "MatchString ps s" and "\<forall>(p, lo, hi) \<in> set ps. \<forall>c. p c \<longrightarrow> byte c < 128"
  shows "is_ascii s"
  using MatchString_bytes[OF assms(1)] assms(2) by (fastforce simp: is_ascii_def list_all_iff)

text \<open>The UUID pattern, which three packages of the program declare with the same text.\<close>

definition is_byte :: "char \<Rightarrow> char \<Rightarrow> bool" where
  "is_byte d c \<longleftrightarrow> c = d"

definition uuid_items :: pattern where
  "uuid_items = [(is_hex, 8, 8), (is_byte CHR ''-'', 1, 1), (is_hex, 4, 4), (is_byte CHR ''-'', 1, 1),
     (byte_in 49 53, 1, 1), (is_hex, 3, 3), (is_byte CHR ''-'', 1, 1),
     (\<lambda>c. c \<in> set ''89abAB'', 1, 1), (is_hex, 3, 3), (is_byte CHR ''-'', 1, 1), (is_hex, 12, 12)]"

end
