(* ===== verification/GoNet.thy ===== *)
theory GoNet
  imports GoUnicode
begin

text \<open>
  Go's \<open>net/netip.ParseAddr\<close>, \<open>net.ParseIP\<close> with \<open>IP.IsLoopback\<close>, and \<open>net.SplitHostPort\<close>.
  An address is the list of its bytes. The program only tests whether these calls fail, so an
  error is \<^const>\<open>None\<close>.
\<close>

datatype addr = Addr4 "nat list" | Addr6 "nat list" string

section \<open>IPv4\<close>

definition decimal :: "string \<Rightarrow> nat" where
  "decimal s = foldl (\<lambda>v c. v * 10 + (byte c - 48)) 0 s"

definition parse_octet :: "string \<Rightarrow> nat option" where
  "parse_octet s =
     (if s = [] \<or> \<not> list_all is_digit s then None
      else if 1 < length s \<and> hd s = CHR ''0'' then None
      else if 3 < length s \<or> 255 < decimal s then None
      else Some (decimal s))"

definition parseIPv4Fields :: "string \<Rightarrow> nat list option" where
  "parseIPv4Fields s =
     (case Split s CHR ''.'' of
        [a, b, c, d] \<Rightarrow>
          (case (parse_octet a, parse_octet b, parse_octet c, parse_octet d) of
             (Some x, Some y, Some z, Some w) \<Rightarrow> Some [x, y, z, w]
           | _ \<Rightarrow> None)
      | _ \<Rightarrow> None)"

section \<open>IPv6\<close>

definition hex_value :: "string \<Rightarrow> nat" where
  "hex_value s = foldl (\<lambda>v c. v * 16 + unhex c) 0 s"

text \<open>
  The loop of \<open>parseIPv6\<close>: \<open>acc\<close> holds the bytes read so far, \<open>ell\<close> the position of an
  ellipsis, \<open>s\<close> what is left. One pass of the loop body fails, leaves the loop with the text
  used up, or goes on with the next field.
\<close>

datatype v6_pass = V6_Fail | V6_Done "nat list" "nat option" | V6_More "nat list" "nat option" string

definition v6_field :: "nat list \<Rightarrow> nat option \<Rightarrow> string \<Rightarrow> v6_pass" where
  "v6_field acc ell s =
     (let hex = takeWhile is_hex s; rest = drop (length hex) s;
          acc' = acc @ [hex_value hex div 256, hex_value hex mod 256] in
      if hex = [] \<or> 4 < length hex then V6_Fail
      else if rest \<noteq> [] \<and> hd rest = CHR ''.'' then
        (if ell = None \<and> length acc \<noteq> 12 \<or> 16 < length acc + 4 then V6_Fail
         else (case parseIPv4Fields s of None \<Rightarrow> V6_Fail | Some ip \<Rightarrow> V6_Done (acc @ ip) ell))
      else (case rest of
          [] \<Rightarrow> V6_Done acc' ell
        | [_] \<Rightarrow> V6_Fail
        | c # d # r \<Rightarrow>
            if c \<noteq> CHR '':'' then V6_Fail
            else if d = CHR '':'' then
              (if ell \<noteq> None then V6_Fail
               else if r = [] then V6_Done acc' (Some (length acc'))
               else V6_More acc' (Some (length acc')) r)
            else V6_More acc' ell (d # r)))"

lemma v6_field_More: "v6_field acc ell s = V6_More acc' ell' s' \<Longrightarrow>
    length acc' = length acc + 2 \<and> (ell' = ell \<or> ell' = Some (length acc'))"
  by (auto simp: v6_field_def Let_def split: if_splits option.splits list.splits)

function v6_loop :: "nat list \<Rightarrow> nat option \<Rightarrow> string \<Rightarrow> (nat list \<times> nat option \<times> string) option" where
  "v6_loop acc ell s =
     (if 16 \<le> length acc then Some (acc, ell, s)
      else case v6_field acc ell s of
          V6_Fail \<Rightarrow> None
        | V6_Done acc' ell' \<Rightarrow> Some (acc', ell', [])
        | V6_More acc' ell' s' \<Rightarrow> v6_loop acc' ell' s')"
  by pat_completeness auto
termination
  by (relation "measure (\<lambda>(acc, ell, s). 16 - length acc)") (auto dest: v6_field_More)

declare v6_loop.simps [simp del]

definition v6_finish :: "nat list \<times> nat option \<times> string \<Rightarrow> nat list option" where
  "v6_finish = (\<lambda>(acc, ell, s).
     if s \<noteq> [] then None
     else if length acc < 16 then
       (case ell of None \<Rightarrow> None
        | Some e \<Rightarrow> Some (take e acc @ replicate (16 - length acc) 0 @ drop e acc))
     else if ell \<noteq> None then None else Some acc)"

definition parseIPv6 :: "string \<Rightarrow> addr option" where
  "parseIPv6 text =
     (let (s, zone, has_zone) = Cut text CHR ''%'' in
      if has_zone \<and> zone = [] then None
      else if s = ''::'' then Some (Addr6 (replicate 16 0) zone)
      else let start = (if HasPrefix s ''::'' then v6_loop [] (Some 0) (drop 2 s)
                        else v6_loop [] None s)
        in map_option (\<lambda>ip. Addr6 ip zone) (Option.bind start v6_finish))"

text \<open>The first of the bytes \<open>.\<close>, \<open>:\<close> and \<open>%\<close> decides which kind of address it is.\<close>

fun ParseAddr_scan :: "string \<Rightarrow> string \<Rightarrow> addr option" where
  "ParseAddr_scan text [] = None"
| "ParseAddr_scan text (c # cs) =
     (if c = CHR ''.'' then map_option Addr4 (parseIPv4Fields text)
      else if c = CHR '':'' then parseIPv6 text
      else if c = CHR ''%'' then None
      else ParseAddr_scan text cs)"

definition ParseAddr :: "string \<Rightarrow> addr option" where
  "ParseAddr s = ParseAddr_scan s s"

section \<open>net.IP\<close>

text \<open>\<open>net.ParseIP\<close> refuses zones and gives the 16-byte form, IPv4 as IPv4-mapped.\<close>

definition v4_prefix :: "nat list" where
  "v4_prefix = replicate 10 0 @ [255, 255]"

definition ParseIP :: "string \<Rightarrow> nat list option" where
  "ParseIP s =
     (case ParseAddr s of
        None \<Rightarrow> None
      | Some (Addr4 ip) \<Rightarrow> Some (v4_prefix @ ip)
      | Some (Addr6 ip zone) \<Rightarrow> if zone \<noteq> [] then None else Some ip)"

definition To4 :: "nat list \<Rightarrow> nat list option" where
  "To4 ip = (if take 12 ip = v4_prefix then Some (drop 12 ip) else None)"

definition ip_v6loopback :: "nat list" where
  "ip_v6loopback = replicate 15 0 @ [1]"

definition IsLoopback :: "nat list \<Rightarrow> bool" where
  "IsLoopback ip = (case To4 ip of Some ip4 \<Rightarrow> ip4 \<noteq> [] \<and> hd ip4 = 127 | None \<Rightarrow> ip = ip_v6loopback)"

section \<open>net.SplitHostPort\<close>

definition SplitHostPort :: "string \<Rightarrow> (string \<times> string) option" where
  "SplitHostPort hostport =
     (case CutLast hostport CHR '':'' of
        None \<Rightarrow> None
      | Some (pre, port) \<Rightarrow>
          if hd hostport = CHR ''['' then
            (case Cut hostport CHR '']'' of
               (bracketed, after, found) \<Rightarrow>
                 if \<not> found \<or> bracketed @ '']'' \<noteq> pre then None
                 else if CHR ''['' \<in> set (tl hostport) \<or> CHR '']'' \<in> set after then None
                 else Some (tl bracketed, port))
          else if CHR '':'' \<in> set pre then None
          else if CHR ''['' \<in> set hostport \<or> CHR '']'' \<in> set hostport then None
          else Some (pre, port))"

section \<open>Every parsed address has sixteen bytes\<close>

lemma parse_octet_bound: "parse_octet s = Some x \<Longrightarrow> x < 256"
  by (auto simp: parse_octet_def split: if_splits)

lemma parseIPv4Fields_length: "parseIPv4Fields s = Some ip \<Longrightarrow> length ip = 4"
  by (auto simp: parseIPv4Fields_def split: list.splits option.splits)

lemma v6_field_Done: "v6_field acc ell s = V6_Done acc' ell' \<Longrightarrow> even (length acc) \<Longrightarrow>
    length acc < 16 \<Longrightarrow> length acc' \<le> 16 \<and> length acc < length acc'
    \<and> (ell' = ell \<or> ell' = Some (length acc'))"
  by (auto simp: v6_field_def Let_def parseIPv4Fields_length
      split: if_splits option.splits list.splits)

lemma v6_loop_bound:
  "v6_loop acc ell s = Some (acc', ell', s') \<Longrightarrow> even (length acc) \<Longrightarrow> length acc \<le> 16
     \<Longrightarrow> (\<forall>e. ell = Some e \<longrightarrow> e \<le> length acc)
     \<Longrightarrow> length acc' \<le> 16 \<and> (\<forall>e. ell' = Some e \<longrightarrow> e \<le> length acc')"
proof (induction acc ell s rule: v6_loop.induct)
  case (1 acc ell s)
  show ?case
  proof (cases "16 \<le> length acc")
    case True
    with "1.prems" show ?thesis by (simp add: v6_loop.simps[of acc])
  next
    case False
    show ?thesis
    proof (cases "v6_field acc ell s")
      case V6_Fail
      with "1.prems" False show ?thesis by (simp add: v6_loop.simps[of acc])
    next
      case (V6_Done a e)
      with "1.prems" False show ?thesis
        using v6_field_Done[OF V6_Done] by (auto simp: v6_loop.simps[of acc])
    next
      case (V6_More a e r)
      have "length a = length acc + 2" "e = ell \<or> e = Some (length a)"
        using v6_field_More[OF V6_More] by auto
      moreover from False "1.prems"(2) have "length acc + 2 \<le> 16" by presburger
      moreover from "1.prems"(1) V6_More False have "v6_loop a e r = Some (acc', ell', s')"
        by (simp add: v6_loop.simps[of acc])
      ultimately show ?thesis
        using "1.IH"[OF False V6_More] "1.prems"(2,4) by fastforce
    qed
  qed
qed

lemma v6_finish_length:
  "v6_finish (acc, ell, s) = Some ip \<Longrightarrow> length acc \<le> 16
     \<Longrightarrow> (\<forall>e. ell = Some e \<longrightarrow> e \<le> length acc) \<Longrightarrow> length ip = 16"
  by (auto simp: v6_finish_def split: if_splits option.splits)

lemma parseIPv6_length:
  assumes "parseIPv6 s = Some (Addr6 ip zone)"
  shows "length ip = 16"
proof -
  have start: "length ip = 16"
    if "Option.bind (v6_loop [] ell r) v6_finish = Some ip" "ell \<in> {None, Some 0}" for ell r
  proof -
    from that(1) obtain acc' ell' s' where l: "v6_loop [] ell r = Some (acc', ell', s')"
      and f: "v6_finish (acc', ell', s') = Some ip"
      by (auto split: Option.bind_splits)
    from v6_loop_bound[OF l] that(2) have "length acc' \<le> 16 \<and> (\<forall>e. ell' = Some e \<longrightarrow> e \<le> length acc')"
      by auto
    with v6_finish_length[OF f] show ?thesis by blast
  qed
  from assms show ?thesis
    by (auto simp: parseIPv6_def Let_def split: prod.splits if_splits dest: start)
qed

lemma ParseAddr_scan_length:
  "ParseAddr_scan whole s = Some a \<Longrightarrow>
     (case a of Addr4 ip \<Rightarrow> length ip = 4 | Addr6 ip _ \<Rightarrow> length ip = 16)"
proof (induction whole s rule: ParseAddr_scan.induct)
  case (1 whole)
  then show ?case by simp
next
  case (2 whole c cs)
  have "\<exists>ip zone. b = Addr6 ip zone" if "parseIPv6 whole = Some b" for b
    using that by (auto simp: parseIPv6_def Let_def split: prod.splits if_splits)
  with 2 show ?case
    by (fastforce split: if_splits dest: parseIPv4Fields_length parseIPv6_length)
qed

lemma ParseIP_length: "ParseIP s = Some ip \<Longrightarrow> length ip = 16"
  by (auto simp: ParseIP_def ParseAddr_def v4_prefix_def dest!: ParseAddr_scan_length
      split: option.splits addr.splits if_splits)

text \<open>The loopback addresses are \<open>127.0.0.0/8\<close>, also IPv4-mapped, and \<open>::1\<close>.\<close>

lemma IsLoopback_cases:
  assumes "ParseIP s = Some ip" and "IsLoopback ip"
  shows "ip = ip_v6loopback \<or> (\<exists>b c d. ip = v4_prefix @ [127, b, c, d])"
proof (cases "take 12 ip = v4_prefix")
  case True
  from ParseIP_length[OF assms(1)] have "length (drop 12 ip) = 4" by simp
  then have "length (drop 12 ip) = Suc (Suc (Suc (Suc 0)))" by simp
  then obtain a b c d where d: "drop 12 ip = [a, b, c, d]"
    unfolding length_Suc_conv by auto
  with True assms(2) have "a = 127" by (simp add: IsLoopback_def To4_def)
  with True d have "ip = v4_prefix @ [127, b, c, d]"
    using append_take_drop_id[of 12 ip] by simp
  then show ?thesis by blast
next
  case False
  with assms(2) show ?thesis by (simp add: IsLoopback_def To4_def)
qed

end
