(* ===== verification/OperatorAuth.thy ===== *)
theory OperatorAuth
  imports GoUnicode Sha256
begin

text \<open>
  \<open>internal/operatorauth\<close>: the static bearer authenticator (\<open>auth.go\<close>) and the role based
  authorizer (\<open>authorization.go\<close>). A role and a permission are Go string types, so they are
  strings here and an unknown role or permission is a value like any other.

  The locale \<open>authorizer\<close> is the \<open>Authorizer\<close> interface with what the HTTP boundary relies on:
  a decision other than refusal needs operator attribution and a known role, and no role but
  the operator's gains a permission that is not a read. \<open>RBAC\<close> implements it.
\<close>

section \<open>Roles and permissions\<close>

definition RoleViewer :: string where
  "RoleViewer = ''viewer''"

definition RoleOperator :: string where
  "RoleOperator = ''operator''"

definition PermissionWorkloadsRead :: string where
  "PermissionWorkloadsRead = ''workloads:read''"

definition PermissionRegistrationsRead :: string where
  "PermissionRegistrationsRead = ''registrations:read''"

definition PermissionRegistrationsWrite :: string where
  "PermissionRegistrationsWrite = ''registrations:write''"

definition PermissionPoliciesRead :: string where
  "PermissionPoliciesRead = ''policies:read''"

definition PermissionPoliciesWrite :: string where
  "PermissionPoliciesWrite = ''policies:write''"

definition PermissionPoliciesActivate :: string where
  "PermissionPoliciesActivate = ''policies:activate''"

lemmas role_defs = RoleViewer_def RoleOperator_def
lemmas permission_defs = PermissionWorkloadsRead_def PermissionRegistrationsRead_def
  PermissionRegistrationsWrite_def PermissionPoliciesRead_def PermissionPoliciesWrite_def
  PermissionPoliciesActivate_def

definition Role_Valid :: "string \<Rightarrow> bool" where
  "Role_Valid r \<longleftrightarrow> r = RoleViewer \<or> r = RoleOperator"

datatype role_error = UnsupportedRole string

definition ParseRole :: "string \<Rightarrow> (role_error, string) result" where
  "ParseRole raw =
     (let role = ToLower (TrimSpace raw) in
      if \<not> Role_Valid role then Inl (UnsupportedRole raw) else Inr role)"

record Principal =
  ActorType :: string
  ActorID :: string
  PrincipalRole :: string

definition RBAC_Allowed :: "Principal \<Rightarrow> string \<Rightarrow> bool" where
  "RBAC_Allowed p permission =
     (if ActorType p \<noteq> ''operator'' \<or> ActorID p = []
         \<or> \<not> Role_Valid (PrincipalRole p) then False
      else if PrincipalRole p = RoleViewer then
        permission = PermissionWorkloadsRead
        \<or> permission = PermissionRegistrationsRead
        \<or> permission = PermissionPoliciesRead
      else if PrincipalRole p = RoleOperator then
        permission = PermissionWorkloadsRead
        \<or> permission = PermissionRegistrationsRead
        \<or> permission = PermissionRegistrationsWrite
        \<or> permission = PermissionPoliciesRead
        \<or> permission = PermissionPoliciesWrite
        \<or> permission = PermissionPoliciesActivate
      else False)"

definition is_read :: "string \<Rightarrow> bool" where
  "is_read permission \<longleftrightarrow> permission \<in> {PermissionWorkloadsRead, PermissionRegistrationsRead,
     PermissionPoliciesRead}"

definition known_permission :: "string \<Rightarrow> bool" where
  "known_permission permission \<longleftrightarrow> is_read permission \<or> permission \<in> {PermissionRegistrationsWrite,
     PermissionPoliciesWrite, PermissionPoliciesActivate}"

section \<open>The authorizer's contract\<close>

locale authorizer =
  fixes allowed :: "Principal \<Rightarrow> string \<Rightarrow> bool"
  assumes attributed: "allowed p perm \<Longrightarrow> ActorType p = ''operator'' \<and> ActorID p \<noteq> []"
    and role_known: "allowed p perm \<Longrightarrow> Role_Valid (PrincipalRole p)"
    and writes_need_operator: "allowed p perm \<Longrightarrow> \<not> is_read perm \<Longrightarrow> PrincipalRole p = RoleOperator"
    and permission_known: "allowed p perm \<Longrightarrow> known_permission perm"
begin

lemma viewer_reads_only: "PrincipalRole p = RoleViewer \<Longrightarrow> allowed p perm \<Longrightarrow> is_read perm"
  using writes_need_operator by (fastforce simp: role_defs)

lemma unknown_role_refused: "\<not> Role_Valid (PrincipalRole p) \<Longrightarrow> \<not> allowed p perm"
  using role_known by blast

end

interpretation rbac: authorizer RBAC_Allowed
  by unfold_locales
    (auto simp: RBAC_Allowed_def is_read_def known_permission_def split: if_splits)

section \<open>The bearer authenticator\<close>

definition MinTokenBytes :: nat where
  "MinTokenBytes = 32"

record StaticBearer =
  tokenDigest :: string
  bearer_principal :: Principal

datatype bearer_error = TokenTooShort | ActorIDRequired | RoleInvalid

definition NewStaticBearer :: "string \<Rightarrow> string \<Rightarrow> string \<Rightarrow> (bearer_error, StaticBearer) result" where
  "NewStaticBearer token actorID role =
     (if length token < MinTokenBytes then Inl TokenTooShort
      else if TrimSpace actorID = [] then Inl ActorIDRequired
      else if \<not> Role_Valid role then Inl RoleInvalid
      else Inr \<lparr>tokenDigest = Sum256 token,
                bearer_principal = \<lparr>ActorType = ''operator'', ActorID = actorID, PrincipalRole = role\<rparr>\<rparr>)"

text \<open>
  \<open>Authenticate\<close> reads the first \<open>Authorization\<close> value of the request; \<open>Header.Get\<close> gives the
  empty string when there is none.
\<close>

definition credential_blank :: string where
  "credential_blank = [CHR '' '', char_of (9::nat), char_of (13::nat), char_of (10::nat)]"

definition Authenticate :: "StaticBearer \<Rightarrow> string \<Rightarrow> Principal option" where
  "Authenticate a header =
     (case Cut header CHR '' '' of
        (scheme, credential, ok) \<Rightarrow>
          if \<not> ok \<or> \<not> EqualFold scheme ''Bearer'' \<or> credential = []
             \<or> ContainsAny credential credential_blank then None
          else if ConstantTimeCompare (Sum256 credential) (tokenDigest a) \<noteq> 1 then None
          else Some (bearer_principal a))"

section \<open>Lemmas\<close>

lemma ParseRole_valid: "ParseRole raw = Inr role \<Longrightarrow> Role_Valid role"
  by (auto simp: ParseRole_def Let_def split: if_splits)

lemma NewStaticBearer_Inr:
  "NewStaticBearer token actorID role = Inr a \<longleftrightarrow>
     MinTokenBytes \<le> length token \<and> TrimSpace actorID \<noteq> [] \<and> Role_Valid role
     \<and> a = \<lparr>tokenDigest = Sum256 token,
            bearer_principal = \<lparr>ActorType = ''operator'', ActorID = actorID, PrincipalRole = role\<rparr>\<rparr>"
  by (auto simp: NewStaticBearer_def)

lemma Authenticate_Some:
  "Authenticate a header = Some p \<Longrightarrow>
     p = bearer_principal a \<and> (\<exists>scheme credential. header = scheme @ '' '' @ credential
       \<and> EqualFold scheme ''Bearer'' \<and> credential \<noteq> [] \<and> \<not> ContainsAny credential credential_blank
       \<and> Sum256 credential = tokenDigest a)"
  by (auto simp: Authenticate_def ConstantTimeCompare_def dest!: Cut_found split: prod.splits if_splits)

lemma Authenticate_header:
  assumes "CHR '' '' \<notin> set scheme" and "EqualFold scheme ''Bearer''" and "credential \<noteq> []"
    and "\<not> ContainsAny credential credential_blank" and "Sum256 credential = tokenDigest a"
  shows "Authenticate a (scheme @ '' '' @ credential) = Some (bearer_principal a)"
  using assms Cut_append[OF assms(1), of credential]
  by (auto simp: Authenticate_def ConstantTimeCompare_def)

lemma TrimSpace_Nil [simp]: "TrimSpace [] = []"
  by (simp add: TrimSpace_def)

lemma bearer_principal_attributed:
  "NewStaticBearer token actorID role = Inr a \<Longrightarrow>
     ActorType (bearer_principal a) = ''operator'' \<and> ActorID (bearer_principal a) \<noteq> []
     \<and> Role_Valid (PrincipalRole (bearer_principal a))"
  by (auto simp: NewStaticBearer_Inr)

section \<open>Properties\<close>


end
