(* ===== verification/Config.thy ===== *)
theory Config
  imports GoNet OperatorAuth
begin

text \<open>
  \<open>internal/config\<close> and the parts of the two \<open>main.go\<close> files that decide whether a process
  starts. The environment is a function from variable names to values; \<open>os.Getenv\<close> of an unset
  variable is the empty string.
\<close>

definition defaultListenAddr :: string where
  "defaultListenAddr = ''127.0.0.1:8080''"

definition defaultSPIREServerSocket :: string where
  "defaultSPIREServerSocket = ''/tmp/workload-trust-lab/server.sock''"

definition operatorIDPattern :: pattern where
  "operatorIDPattern = [(is_alnum, 1, 1), (\<lambda>c. is_alnum c \<or> c \<in> set ''._@:-'', 2, 127)]"

record Config =
  ListenAddr :: string
  DatabaseURL :: string
  OperatorID :: string
  OperatorToken :: string
  OperatorRole :: string

record ReconcilerConfig =
  ReconcilerDatabaseURL :: string
  SPIREServerSocket :: string

datatype config_error =
    DatabaseURLRequired | OperatorIDRequired | OperatorTokenRequired | RoleError role_error
  | ListenAddrInvalid | ListenAddrNoPort | ListenAddrNotLoopback | OperatorIDFormat
  | OperatorRoleInvalid | SocketNotAbsolute | BearerError bearer_error

definition Config_Validate :: "Config \<Rightarrow> config_error option" where
  "Config_Validate c =
     (case SplitHostPort (ListenAddr c) of
        None \<Rightarrow> Some ListenAddrInvalid
      | Some (host, port) \<Rightarrow>
          if port = [] then Some ListenAddrNoPort
          else if host \<noteq> ''localhost''
            \<and> (case ParseIP host of None \<Rightarrow> True | Some ip \<Rightarrow> \<not> IsLoopback ip)
            then Some ListenAddrNotLoopback
          else if \<not> MatchString operatorIDPattern (OperatorID c) then Some OperatorIDFormat
          else if TrimSpace (OperatorToken c) = [] then Some OperatorTokenRequired
          else if \<not> Role_Valid (OperatorRole c) then Some OperatorRoleInvalid
          else None)"

definition or_default :: "string \<Rightarrow> string \<Rightarrow> string" where
  "or_default s d = (if s = [] then d else s)"

definition Load :: "(string \<Rightarrow> string) \<Rightarrow> (config_error, Config) result" where
  "Load env =
     (let listenAddr = or_default (TrimSpace (env ''WTP_LISTEN_ADDR'')) defaultListenAddr;
          databaseURL = TrimSpace (env ''DATABASE_URL'');
          operatorID = TrimSpace (env ''WTP_OPERATOR_ID'');
          operatorToken = TrimSpace (env ''WTP_OPERATOR_TOKEN'');
          operatorRoleRaw = or_default (TrimSpace (env ''WTP_OPERATOR_ROLE'')) RoleViewer in
      if databaseURL = [] then Inl DatabaseURLRequired
      else if operatorID = [] then Inl OperatorIDRequired
      else if operatorToken = [] then Inl OperatorTokenRequired
      else (case ParseRole operatorRoleRaw of
          Inl e \<Rightarrow> Inl (RoleError e)
        | Inr operatorRole \<Rightarrow>
            (let cfg = \<lparr>ListenAddr = listenAddr, DatabaseURL = databaseURL,
                        OperatorID = operatorID, OperatorToken = operatorToken,
                        OperatorRole = operatorRole\<rparr> in
             case Config_Validate cfg of Some e \<Rightarrow> Inl e | None \<Rightarrow> Inr cfg)))"

definition LoadReconciler :: "(string \<Rightarrow> string) \<Rightarrow> (config_error, ReconcilerConfig) result" where
  "LoadReconciler env =
     (let databaseURL = TrimSpace (env ''DATABASE_URL'');
          socketPath = or_default (TrimSpace (env ''WTP_SPIRE_SERVER_SOCKET''))
            defaultSPIREServerSocket in
      if databaseURL = [] then Inl DatabaseURLRequired
      else if \<not> HasPrefix socketPath ''/'' then Inl SocketNotAbsolute
      else Inr \<lparr>ReconcilerDatabaseURL = databaseURL, SPIREServerSocket = socketPath\<rparr>)"

text \<open>
  The start of \<open>run\<close> in \<open>apps/control-plane/main.go\<close>: the configuration and the authenticator
  built from it, before the database is opened.
\<close>

definition control_plane_start :: "(string \<Rightarrow> string) \<Rightarrow> (config_error, Config \<times> StaticBearer) result" where
  "control_plane_start env =
     (case Load env of
        Inl e \<Rightarrow> Inl e
      | Inr cfg \<Rightarrow>
          (case NewStaticBearer (OperatorToken cfg) (OperatorID cfg) (OperatorRole cfg) of
             Inl e \<Rightarrow> Inl (BearerError e)
           | Inr a \<Rightarrow> Inr (cfg, a)))"

section \<open>Lemmas\<close>

lemma Load_Inr:
  assumes "Load env = Inr cfg"
  shows "Config_Validate cfg = None"
    and "OperatorRole cfg = RoleViewer \<or> OperatorRole cfg = RoleOperator"
    and "ParseRole (or_default (TrimSpace (env ''WTP_OPERATOR_ROLE'')) RoleViewer) = Inr (OperatorRole cfg)"
    and "DatabaseURL cfg \<noteq> []" and "OperatorToken cfg = TrimSpace (env ''WTP_OPERATOR_TOKEN'')"
    and "OperatorID cfg = TrimSpace (env ''WTP_OPERATOR_ID'')"
proof -
  from assms obtain role where role: "ParseRole (or_default (TrimSpace (env ''WTP_OPERATOR_ROLE'')) RoleViewer) = Inr role"
    and rest: "Config_Validate cfg = None" "OperatorRole cfg = role" "DatabaseURL cfg \<noteq> []"
      "OperatorToken cfg = TrimSpace (env ''WTP_OPERATOR_TOKEN'')"
      "OperatorID cfg = TrimSpace (env ''WTP_OPERATOR_ID'')"
    by (auto simp: Load_def Let_def split: if_splits sum.splits option.splits)
  from role rest show "Config_Validate cfg = None"
    "ParseRole (or_default (TrimSpace (env ''WTP_OPERATOR_ROLE'')) RoleViewer) = Inr (OperatorRole cfg)"
    "DatabaseURL cfg \<noteq> []" "OperatorToken cfg = TrimSpace (env ''WTP_OPERATOR_TOKEN'')"
    "OperatorID cfg = TrimSpace (env ''WTP_OPERATOR_ID'')"
    by simp_all
  from ParseRole_valid[OF role] rest show "OperatorRole cfg = RoleViewer \<or> OperatorRole cfg = RoleOperator"
    by (simp add: Role_Valid_def)
qed

lemma Config_Validate_None:
  assumes "Config_Validate c = None"
  obtains host port where "SplitHostPort (ListenAddr c) = Some (host, port)" "port \<noteq> []"
    "host = ''localhost'' \<or> (\<exists>ip. ParseIP host = Some ip \<and> IsLoopback ip)"
    "MatchString operatorIDPattern (OperatorID c)" "Role_Valid (OperatorRole c)"
  using assms unfolding Config_Validate_def by (auto split: option.splits if_splits)

section \<open>Properties\<close>

text \<open>
  C14. The management API is loopback only and its principal well formed: when the control
  plane's configuration loads and its authenticator is built, the listen address has a port and
  its host is \<open>localhost\<close>, \<open>::1\<close> or an address of \<open>127.0.0.0/8\<close>; the operator ID is 3 to 128
  bytes of the allowed ASCII alphabet; the token has at least 32 bytes; the role is \<open>viewer\<close>
  or \<open>operator\<close>, and the authenticator's principal carries exactly that role and ID.
\<close>

theorem control_plane_start_safe:
  assumes "control_plane_start env = Inr (cfg, a)"
  shows "(\<exists>host port. SplitHostPort (ListenAddr cfg) = Some (host, port) \<and> port \<noteq> []
        \<and> (host = ''localhost'' \<or> ParseIP host = Some ip_v6loopback
           \<or> (\<exists>b c d. ParseIP host = Some (v4_prefix @ [127, b, c, d]))))
    \<and> is_ascii (OperatorID cfg) \<and> 3 \<le> length (OperatorID cfg) \<and> length (OperatorID cfg) \<le> 128
    \<and> 32 \<le> length (OperatorToken cfg)
    \<and> OperatorRole cfg \<in> {''viewer'', ''operator''}
    \<and> bearer_principal a = \<lparr>ActorType = ''operator'', ActorID = OperatorID cfg,
         PrincipalRole = OperatorRole cfg\<rparr>"
proof -
  from assms have cfg: "Load env = Inr cfg"
    and a: "NewStaticBearer (OperatorToken cfg) (OperatorID cfg) (OperatorRole cfg) = Inr a"
    by (auto simp: control_plane_start_def split: sum.splits)
  from Config_Validate_None[OF Load_Inr(1)[OF cfg]] obtain host port where
    h: "SplitHostPort (ListenAddr cfg) = Some (host, port)" "port \<noteq> []"
      "host = ''localhost'' \<or> (\<exists>ip. ParseIP host = Some ip \<and> IsLoopback ip)"
    and id: "MatchString operatorIDPattern (OperatorID cfg)" and role: "Role_Valid (OperatorRole cfg)"
    by blast
  from h(3) IsLoopback_cases have "host = ''localhost'' \<or> ParseIP host = Some ip_v6loopback
      \<or> (\<exists>b c d. ParseIP host = Some (v4_prefix @ [127, b, c, d]))" by metis
  moreover have "is_ascii (OperatorID cfg)"
    by (rule MatchString_ascii[OF id])
      (auto simp: operatorIDPattern_def dest: is_alnum_ascii, simp_all add: byte_def)
  moreover have "3 \<le> length (OperatorID cfg) \<and> length (OperatorID cfg) \<le> 128"
    using MatchString_length[OF id] by (simp add: operatorIDPattern_def)
  moreover from a role have "32 \<le> length (OperatorToken cfg)
      \<and> OperatorRole cfg \<in> {''viewer'', ''operator''}
      \<and> bearer_principal a = \<lparr>ActorType = ''operator'', ActorID = OperatorID cfg,
          PrincipalRole = OperatorRole cfg\<rparr>"
    by (auto simp: NewStaticBearer_Inr MinTokenBytes_def Role_Valid_def role_defs)
  ultimately show ?thesis using h(1,2) by blast
qed

definition example_env :: "string \<Rightarrow> string" where
  "example_env = (\<lambda>_. [])(''DATABASE_URL'' := ''postgres://example'', ''WTP_OPERATOR_ID'' := ''local-admin'',
     ''WTP_OPERATOR_TOKEN'' := ''0123456789abcdef0123456789abcdef'')"

lemma example_env_starts:
  "\<exists>a. control_plane_start example_env =
     Inr (\<lparr>ListenAddr = ''127.0.0.1:8080'', DatabaseURL = ''postgres://example'',
            OperatorID = ''local-admin'', OperatorToken = ''0123456789abcdef0123456789abcdef'',
            OperatorRole = ''viewer''\<rparr>, a)"
proof -
  have "Load example_env = Inr \<lparr>ListenAddr = ''127.0.0.1:8080'', DatabaseURL = ''postgres://example'',
      OperatorID = ''local-admin'', OperatorToken = ''0123456789abcdef0123456789abcdef'',
      OperatorRole = ''viewer''\<rparr>"
    by code_simp
  moreover have "TrimSpace ''local-admin'' \<noteq> []" by code_simp
  ultimately show ?thesis
    by (simp add: control_plane_start_def NewStaticBearer_def MinTokenBytes_def Role_Valid_def role_defs)
qed

theorem control_plane_start_safe_witness:
  "\<exists>cfg a. control_plane_start example_env = Inr (cfg, a)
     \<and> 32 \<le> length (OperatorToken cfg) \<and> OperatorRole cfg \<in> {''viewer'', ''operator''}"
proof -
  obtain cfg a where start: "control_plane_start example_env = Inr (cfg, a)"
    using example_env_starts by blast
  with control_plane_start_safe[OF start] show ?thesis by blast
qed

text \<open>
  Least privilege by default: with no role configured the configuration that loads is a
  viewer's, and a configured role that does not name a known role after trimming and
  lower-casing never loads.
\<close>

theorem Load_role_fail_closed:
  "(TrimSpace (env ''WTP_OPERATOR_ROLE'') = [] \<longrightarrow> Load env = Inr cfg \<longrightarrow> OperatorRole cfg = ''viewer'')
   \<and> (TrimSpace (env ''WTP_OPERATOR_ROLE'') \<noteq> []
      \<and> ToLower (TrimSpace (TrimSpace (env ''WTP_OPERATOR_ROLE''))) \<notin> {''viewer'', ''operator''}
      \<longrightarrow> (\<exists>e. Load env = Inl e))"
proof (intro conjI impI)
  assume "TrimSpace (env ''WTP_OPERATOR_ROLE'') = []" and l: "Load env = Inr cfg"
  moreover have "ParseRole RoleViewer = Inr ''viewer''" by code_simp
  ultimately show "OperatorRole cfg = ''viewer''"
    using Load_Inr(3)[OF l] by (simp add: or_default_def)
next
  assume r: "TrimSpace (env ''WTP_OPERATOR_ROLE'') \<noteq> []
      \<and> ToLower (TrimSpace (TrimSpace (env ''WTP_OPERATOR_ROLE''))) \<notin> {''viewer'', ''operator''}"
  then have "\<nexists>role. ParseRole (or_default (TrimSpace (env ''WTP_OPERATOR_ROLE'')) RoleViewer) = Inr role"
    by (auto simp: ParseRole_def Let_def or_default_def Role_Valid_def role_defs split: if_splits)
  then show "\<exists>e. Load env = Inl e"
    using Load_Inr(3) by (cases "Load env") blast+
qed

theorem Load_role_fail_closed_witness:
  "Load (example_env(''WTP_OPERATOR_ROLE'' := ''owner'')) = Inl (RoleError (UnsupportedRole ''owner''))
   \<and> (\<exists>e. Load (example_env(''WTP_OPERATOR_ROLE'' := ''owner'')) = Inl e)"
proof
  show "Load (example_env(''WTP_OPERATOR_ROLE'' := ''owner'')) = Inl (RoleError (UnsupportedRole ''owner''))"
    by code_simp
  have "TrimSpace ''owner'' \<noteq> [] \<and> ToLower (TrimSpace (TrimSpace ''owner'')) \<notin> {''viewer'', ''operator''}"
    by code_simp
  then show "\<exists>e. Load (example_env(''WTP_OPERATOR_ROLE'' := ''owner'')) = Inl e"
    using Load_role_fail_closed[of "example_env(''WTP_OPERATOR_ROLE'' := ''owner'')" undefined]
    by simp
qed

end
