(* ===== verification/GoUrl.thy ===== *)
theory GoUrl
  imports GoNet
begin

text \<open>
  Go's \<open>net/url\<close> (as of Go 1.26, the toolchain of \<open>go.mod\<close>): \<open>url.Parse\<close>, \<open>URL.Hostname\<close>,
  \<open>URL.EscapedPath\<close> and \<open>URL.String\<close>. The program tests only whether \<open>Parse\<close> fails, so its
  error is \<^const>\<open>None\<close>. The \<open>User\<close> field is kept with its optional password.
\<close>

record url =
  u_scheme :: string
  u_opaque :: string
  u_user :: "(string \<times> string option) option"
  u_host :: string
  u_path :: string
  u_raw_path :: string
  u_omit_host :: bool
  u_force_query :: bool
  u_raw_query :: string
  u_fragment :: string
  u_raw_fragment :: string

definition empty_url :: url where
  "empty_url = \<lparr>u_scheme = [], u_opaque = [], u_user = None, u_host = [], u_path = [],
     u_raw_path = [], u_omit_host = False, u_force_query = False, u_raw_query = [],
     u_fragment = [], u_raw_fragment = []\<rparr>"

section \<open>Percent encoding\<close>

datatype url_mode = EncPath | EncUserPassword | EncQuery | EncFragment | EncHost | EncZone

definition host_bytes :: string where
  "host_bytes = ''!$&()*+,;=:[]<>'' @ [char_of (34::nat), char_of (39::nat)]"

definition reserved_bytes :: string where
  "reserved_bytes = ''$&+,/:;=?@''"

definition mark_bytes :: string where
  "mark_bytes = ''-_.~''"

definition shouldEscape :: "char \<Rightarrow> url_mode \<Rightarrow> bool" where
  "shouldEscape c m =
     (if is_alnum c then False
      else if (m = EncHost \<or> m = EncZone) \<and> c \<in> set host_bytes then False
      else if c \<in> set mark_bytes then False
      else if c \<in> set reserved_bytes \<and> m = EncPath then c = CHR ''?''
      else if c \<in> set reserved_bytes \<and> m = EncUserPassword then c \<in> set ''@/?:''
      else if c \<in> set reserved_bytes \<and> m = EncQuery then True
      else if c \<in> set reserved_bytes \<and> m = EncFragment then False
      else if m = EncFragment \<and> c \<in> set ''!()*'' then False
      else True)"

definition upper_hex :: "nat \<Rightarrow> char" where
  "upper_hex n = (if n < 10 then char_of (48 + n) else char_of (55 + n))"

definition escape_byte :: "url_mode \<Rightarrow> char \<Rightarrow> string" where
  "escape_byte m c =
     (if shouldEscape c m
      then (if c = CHR '' '' \<and> m = EncQuery then ''+''
            else [CHR ''%'', upper_hex (byte c div 16), upper_hex (byte c mod 16)])
      else [c])"

definition escape :: "string \<Rightarrow> url_mode \<Rightarrow> string" where
  "escape s m = concat (map (escape_byte m) s)"

definition bad_escape :: "url_mode \<Rightarrow> char \<Rightarrow> char \<Rightarrow> bool" where
  "bad_escape m a b \<longleftrightarrow> \<not> is_hex a \<or> \<not> is_hex b
     \<or> m = EncHost \<and> unhex a < 8 \<and> [a, b] \<noteq> ''25''
     \<or> m = EncZone \<and> [a, b] \<noteq> ''25'' \<and> unhex a * 16 + unhex b \<noteq> 32
        \<and> shouldEscape (char_of (unhex a * 16 + unhex b)) EncHost"

fun unescape :: "string \<Rightarrow> url_mode \<Rightarrow> string option" where
  "unescape [] m = Some []"
| "unescape (c # cs) m =
     (if c = CHR ''%'' then
        (case cs of a # b # r \<Rightarrow>
           if bad_escape m a b then None
           else map_option ((#) (char_of (unhex a * 16 + unhex b))) (unescape r m)
         | _ \<Rightarrow> None)
      else if (m = EncHost \<or> m = EncZone) \<and> byte c < 128 \<and> shouldEscape c m then None
      else map_option ((#) (if c = CHR ''+'' \<and> m = EncQuery then CHR '' '' else c)) (unescape cs m))"

definition validEncoded :: "string \<Rightarrow> url_mode \<Rightarrow> bool" where
  "validEncoded s m \<longleftrightarrow> list_all (\<lambda>c. c \<in> set (''!$&()*+,;=:@[]%'' @ [char_of (39::nat)])
     \<or> \<not> shouldEscape c m) s"

section \<open>Parsing\<close>

fun getScheme :: "string \<Rightarrow> string \<Rightarrow> string \<Rightarrow> (string \<times> string) option" where
  "getScheme raw pre [] = Some ([], raw)"
| "getScheme raw pre (c # cs) =
     (if is_lower c \<or> is_upper c then getScheme raw (pre @ [c]) cs
      else if is_digit c \<or> c \<in> set ''+-.'' then
        (if pre = [] then Some ([], raw) else getScheme raw (pre @ [c]) cs)
      else if c = CHR '':'' then (if pre = [] then None else Some (pre, cs))
      else Some ([], raw))"

definition validUserinfo :: "string \<Rightarrow> bool" where
  "validUserinfo = list_all (\<lambda>c. is_alnum c
     \<or> c \<in> set (''-._:~!$&()*+,;=%@'' @ [char_of (39::nat)]))"

definition validOptionalPort :: "string \<Rightarrow> bool" where
  "validOptionalPort port \<longleftrightarrow> port = [] \<or> hd port = CHR '':'' \<and> list_all is_digit (tl port)"

text \<open>\<open>strings.Index(s, "%25")\<close>, as the split before its first occurrence.\<close>

fun cut_zone :: "string \<Rightarrow> (string \<times> string) option" where
  "cut_zone [] = None"
| "cut_zone (c # cs) = (if HasPrefix (c # cs) ''%25'' then Some ([], c # cs)
     else map_option (\<lambda>(a, b). (c # a, b)) (cut_zone cs))"

definition bracket_name :: "string \<Rightarrow> string option" where
  "bracket_name name =
     (case cut_zone name of
        None \<Rightarrow> unescape name EncHost
      | Some (h, z) \<Rightarrow>
          (case (unescape h EncHost, unescape z EncZone) of
             (Some h', Some z') \<Rightarrow> Some (h' @ z')
           | _ \<Rightarrow> None))"

definition parseHost :: "string \<Rightarrow> string option" where
  "parseHost host =
     (case CutLast host CHR ''['' of
        Some (pre, inner) \<Rightarrow>
          if pre \<noteq> [] then None
          else (case CutLast inner CHR '']'' of
             None \<Rightarrow> None
           | Some (name, colonPort) \<Rightarrow>
               if \<not> validOptionalPort colonPort then None
               else (case (unescape colonPort EncHost, bracket_name name) of
                  (Some port', Some name') \<Rightarrow>
                    (case ParseAddr name' of
                       Some (Addr6 _ _) \<Rightarrow> Some (''['' @ name' @ '']'' @ port')
                     | _ \<Rightarrow> None)
                | _ \<Rightarrow> None))
      | None \<Rightarrow>
          (case Cut host CHR '':'' of
             (_, port, found) \<Rightarrow>
               if found \<and> \<not> validOptionalPort (CHR '':'' # port) then None
               else unescape host EncHost))"

definition parseAuthority :: "string \<Rightarrow> ((string \<times> string option) option \<times> string) option" where
  "parseAuthority authority =
     (case CutLast authority CHR ''@'' of
        None \<Rightarrow> map_option (\<lambda>h. (None, h)) (parseHost authority)
      | Some (userinfo, hostpart) \<Rightarrow>
          (case parseHost hostpart of
             None \<Rightarrow> None
           | Some h \<Rightarrow>
               if \<not> validUserinfo userinfo then None
               else (case Cut userinfo CHR '':'' of
                  (name, pass, found) \<Rightarrow>
                    (case (unescape name EncUserPassword, unescape pass EncUserPassword) of
                       (Some n, Some p) \<Rightarrow> Some (Some (n, if found then Some p else None), h)
                     | _ \<Rightarrow> None))))"

definition setPath :: "url \<Rightarrow> string \<Rightarrow> url option" where
  "setPath u p = map_option
     (\<lambda>path. u\<lparr>u_path := path, u_raw_path := (if p = escape path EncPath then [] else p)\<rparr>)
     (unescape p EncPath)"

definition setFragment :: "url \<Rightarrow> string \<Rightarrow> url option" where
  "setFragment u f = map_option
     (\<lambda>frag. u\<lparr>u_fragment := frag,
                u_raw_fragment := (if f = escape frag EncFragment then [] else f)\<rparr>)
     (unescape f EncFragment)"

definition is_ctl :: "char \<Rightarrow> bool" where
  "is_ctl c \<longleftrightarrow> byte c < 32 \<or> byte c = 127"

text \<open>What follows the scheme: the query is cut off, then authority and path are read.\<close>

definition cut_query :: "string \<Rightarrow> string \<times> bool \<times> string" where
  "cut_query rest =
     (if HasSuffix rest ''?'' \<and> count_list rest CHR ''?'' = 1 then (butlast rest, True, [])
      else (case Cut rest CHR ''?'' of (a, q, _) \<Rightarrow> (a, False, q)))"

definition parse_hier :: "url \<Rightarrow> string \<Rightarrow> url option" where
  "parse_hier u rest =
     (if (u_scheme u \<noteq> [] \<or> \<not> HasPrefix rest ''///'') \<and> HasPrefix rest ''//'' then
        (let auth = takeWhile (\<lambda>c. c \<noteq> CHR ''/'') (drop 2 rest);
             path = dropWhile (\<lambda>c. c \<noteq> CHR ''/'') (drop 2 rest) in
         case parseAuthority auth of
           None \<Rightarrow> None
         | Some (user, host) \<Rightarrow> setPath (u\<lparr>u_user := user, u_host := host\<rparr>) path)
      else setPath (u\<lparr>u_omit_host := (u_scheme u \<noteq> [] \<and> HasPrefix rest ''/'')\<rparr>) rest)"

definition parse_nofrag :: "string \<Rightarrow> url option" where
  "parse_nofrag raw =
     (if list_ex is_ctl raw then None
      else if raw = ''*'' then Some (empty_url\<lparr>u_path := ''*''\<rparr>)
      else (case getScheme raw [] raw of
         None \<Rightarrow> None
       | Some (scheme, rest0) \<Rightarrow>
           (case cut_query rest0 of
              (rest, force, query) \<Rightarrow>
                (let u = empty_url\<lparr>u_scheme := ToLower scheme, u_force_query := force,
                                   u_raw_query := query\<rparr> in
                 if \<not> HasPrefix rest ''/'' \<and> u_scheme u \<noteq> [] then Some (u\<lparr>u_opaque := rest\<rparr>)
                 else if \<not> HasPrefix rest ''/'' \<and> CHR '':'' \<in> set (fst (Cut rest CHR ''/'')) then None
                 else parse_hier u rest))))"

definition url_Parse :: "string \<Rightarrow> url option" where
  "url_Parse raw =
     (case Cut raw CHR ''#'' of
        (base, frag, _) \<Rightarrow>
          (case parse_nofrag base of
             None \<Rightarrow> None
           | Some u \<Rightarrow> if frag = [] then Some u else setFragment u frag))"

section \<open>Reading a URL back\<close>

text \<open>\<open>URL.Hostname\<close>: the host without a valid port and without enclosing brackets.\<close>

definition Hostname :: "url \<Rightarrow> string" where
  "Hostname u =
     (let h = (case CutLast (u_host u) CHR '':'' of
                 Some (a, p) \<Rightarrow> if validOptionalPort (CHR '':'' # p) then a else u_host u
               | None \<Rightarrow> u_host u)
      in if HasPrefix h ''['' \<and> HasSuffix h '']'' then butlast (tl h) else h)"

definition EscapedPath :: "url \<Rightarrow> string" where
  "EscapedPath u =
     (if u_raw_path u \<noteq> [] \<and> validEncoded (u_raw_path u) EncPath
         \<and> unescape (u_raw_path u) EncPath = Some (u_path u) then u_raw_path u
      else if u_path u = ''*'' then ''*''
      else escape (u_path u) EncPath)"

definition EscapedFragment :: "url \<Rightarrow> string" where
  "EscapedFragment u =
     (if u_raw_fragment u \<noteq> [] \<and> validEncoded (u_raw_fragment u) EncFragment
         \<and> unescape (u_raw_fragment u) EncFragment = Some (u_fragment u) then u_raw_fragment u
      else escape (u_fragment u) EncFragment)"

definition user_String :: "(string \<times> string option) option \<Rightarrow> string" where
  "user_String ui = (case ui of None \<Rightarrow> []
     | Some (n, None) \<Rightarrow> escape n EncUserPassword @ ''@''
     | Some (n, Some p) \<Rightarrow> escape n EncUserPassword @ '':'' @ escape p EncUserPassword @ ''@'')"

definition authority_String :: "url \<Rightarrow> string" where
  "authority_String u =
     (if u_scheme u = [] \<and> u_host u = [] \<and> u_user u = None then []
      else if u_omit_host u \<and> u_host u = [] \<and> u_user u = None then []
      else (if u_host u \<noteq> [] \<or> u_path u \<noteq> [] \<or> u_user u \<noteq> None then ''//'' else [])
           @ user_String (u_user u) @ escape (u_host u) EncHost)"

definition url_String :: "url \<Rightarrow> string" where
  "url_String u =
     (if u_scheme u \<noteq> [] then u_scheme u @ '':'' else [])
     @ (if u_opaque u \<noteq> [] then u_opaque u
        else let auth = authority_String u; path = EscapedPath u;
                 slash = (if path \<noteq> [] \<and> hd path \<noteq> CHR ''/'' \<and> u_host u \<noteq> [] then ''/'' else []);
                 dot = (if u_scheme u = [] \<and> auth = [] \<and> slash = []
                          \<and> CHR '':'' \<in> set (fst (Cut path CHR ''/'')) then ''./'' else [])
             in auth @ slash @ dot @ path)
     @ (if u_force_query u \<or> u_raw_query u \<noteq> [] then ''?'' @ u_raw_query u else [])
     @ (if u_fragment u \<noteq> [] then ''#'' @ EscapedFragment u else [])"

section \<open>Facts about escaping\<close>

lemma escape_Nil [simp]: "escape [] m = []"
  by (simp add: escape_def)

lemma escape_Cons: "escape (c # s) m = escape_byte m c @ escape s m"
  by (simp add: escape_def)

lemma escape_append: "escape (s @ t) m = escape s m @ escape t m"
  by (simp add: escape_def)

lemma escape_eq_Nil_iff [simp]: "escape s m = [] \<longleftrightarrow> s = []"
  by (induction s) (auto simp: escape_Cons escape_byte_def)

text \<open>An escaped text with no percent sign is the text itself.\<close>

lemma escape_plain:
  "CHR ''%'' \<notin> set (escape s m) \<Longrightarrow> m \<noteq> EncQuery \<Longrightarrow> escape s m = s"
  by (induction s) (auto simp: escape_Cons escape_byte_def split: if_splits)

lemma safe_bytes_ascii: "is_ascii (host_bytes @ mark_bytes @ reserved_bytes @ ''!()*'')"
  by code_simp

lemma unescaped_ascii:
  assumes "\<not> shouldEscape c m"
  shows "byte c < 128"
proof (cases "is_alnum c")
  case True
  then show ?thesis
    by (auto simp: is_alnum_def is_upper_def is_lower_def is_digit_def byte_in_def)
next
  case False
  with assms have "c \<in> set (host_bytes @ mark_bytes @ reserved_bytes @ ''!()*'')"
    by (auto simp: shouldEscape_def split: if_splits)
  with safe_bytes_ascii show ?thesis
    by (simp only: is_ascii_def list_all_iff)
qed

lemma shouldEscape_path_question: "shouldEscape CHR ''?'' EncPath"
  by code_simp

end
