(* ===== verification/SpiffeID.thy ===== *)
theory SpiffeID
  imports GoUrl
begin

text \<open>
  The three checks of a SPIFFE ID in the program: \<open>validateSPIFFEID\<close> of
  \<open>internal/registration/mutation.go\<close>, its stricter namesake of \<open>internal/policy/management.go\<close>,
  and \<open>parseSPIFFEID\<close> with \<open>formatSPIFFEID\<close> of \<open>internal/spiremgmt/client.go\<close>, which turns
  an ID into the trust domain and path that SPIRE is sent and back.

  The lemmas give the shape of every ID the validators accept, and that every ID made of a
  plain trust domain and plain path segments is accepted and survives the round trip.
\<close>

section \<open>Definitions\<close>

datatype spiffe_error = LengthInvalid | NotURI | NotSpiffeURI | TrustDomainInvalid
  | PathNotCanonical | SegmentInvalid

definition MaxSPIFFEIDBytes :: nat where
  "MaxSPIFFEIDBytes = 2048"

text \<open>The three functions share the condition on the URI's parts and on its host.\<close>

definition not_spiffe_uri :: "url \<Rightarrow> bool" where
  "not_spiffe_uri parsed \<longleftrightarrow> u_scheme parsed \<noteq> ''spiffe'' \<or> u_host parsed = []
     \<or> u_user parsed \<noteq> None \<or> u_raw_query parsed \<noteq> [] \<or> u_fragment parsed \<noteq> []
     \<or> u_opaque parsed \<noteq> []"

definition bad_trust_domain :: "url \<Rightarrow> bool" where
  "bad_trust_domain parsed \<longleftrightarrow> Hostname parsed \<noteq> u_host parsed
     \<or> u_host parsed \<noteq> ToLower (u_host parsed)"

definition path_segments :: "url \<Rightarrow> string list" where
  "path_segments parsed = Split (TrimPrefix (u_path parsed) ''/'') CHR ''/''"

definition reg_bad_segment :: "string \<Rightarrow> bool" where
  "reg_bad_segment seg \<longleftrightarrow> seg = [] \<or> seg = ''.'' \<or> seg = ''..''"

definition reg_validateSPIFFEID :: "string \<Rightarrow> spiffe_error option" where
  "reg_validateSPIFFEID raw =
     (if raw = [] \<or> MaxSPIFFEIDBytes < length raw then Some LengthInvalid
      else (case url_Parse raw of
          None \<Rightarrow> Some NotURI
        | Some parsed \<Rightarrow>
            if not_spiffe_uri parsed then Some NotSpiffeURI
            else if bad_trust_domain parsed then Some TrustDomainInvalid
            else if u_path parsed = [] \<or> \<not> HasPrefix (u_path parsed) ''/''
              \<or> u_raw_path parsed \<noteq> [] \<or> url_String parsed \<noteq> raw then Some PathNotCanonical
            else if list_ex reg_bad_segment (path_segments parsed) then Some SegmentInvalid
            else None))"

definition backslash :: char where
  "backslash = char_of (92::nat)"

definition pol_bad_segment :: "string \<Rightarrow> bool" where
  "pol_bad_segment seg \<longleftrightarrow> seg = [] \<or> seg = ''.'' \<or> seg = ''..''
     \<or> backslash \<in> set seg \<or> has_control seg"

definition pol_validateSPIFFEID :: "string \<Rightarrow> spiffe_error option" where
  "pol_validateSPIFFEID raw =
     (if raw = [] \<or> MaxSPIFFEIDBytes < length raw then Some LengthInvalid
      else (case url_Parse raw of
          None \<Rightarrow> Some NotURI
        | Some parsed \<Rightarrow>
            if not_spiffe_uri parsed then Some NotSpiffeURI
            else if bad_trust_domain parsed then Some TrustDomainInvalid
            else if u_path parsed = [] \<or> \<not> HasPrefix (u_path parsed) ''/''
              \<or> u_raw_path parsed \<noteq> [] \<or> url_String parsed \<noteq> raw then Some PathNotCanonical
            else if list_ex pol_bad_segment (path_segments parsed) then Some SegmentInvalid
            else None))"

text \<open>\<open>types.SPIFFEID\<close> of the SPIRE API, of which the program uses these two fields.\<close>

record SPIFFEID =
  TrustDomain :: string
  Path :: string

definition parseSPIFFEID :: "string \<Rightarrow> spiffe_error + SPIFFEID" where
  "parseSPIFFEID raw =
     (case url_Parse raw of
        None \<Rightarrow> Inl NotURI
      | Some parsed \<Rightarrow>
          if not_spiffe_uri parsed then Inl NotSpiffeURI
          else if bad_trust_domain parsed then Inl TrustDomainInvalid
          else if u_path parsed = [] \<or> \<not> HasPrefix (u_path parsed) ''/'' \<or> u_raw_path parsed \<noteq> []
          then Inl PathNotCanonical
          else Inr \<lparr>TrustDomain = u_host parsed, Path = u_path parsed\<rparr>)"

definition formatSPIFFEID :: "SPIFFEID option \<Rightarrow> string" where
  "formatSPIFFEID spid =
     (case spid of None \<Rightarrow> [] | Some i \<Rightarrow> ''spiffe://'' @ TrustDomain i @ Path i)"

section \<open>The shape of an accepted ID\<close>

lemma url_String_spiffe:
  assumes "\<not> not_spiffe_uri u" and "HasPrefix (u_path u) ''/''" and "u_raw_path u = []"
  shows "url_String u = ''spiffe://'' @ escape (u_host u) EncHost @ escape (u_path u) EncPath
     @ (if u_force_query u then ''?'' else [])"
proof -
  from assms(2) obtain p where p: "u_path u = CHR ''/'' # p"
    by (auto simp: HasPrefix_iff)
  have slash: "escape_byte EncPath CHR ''/'' = ''/''" by code_simp
  from assms(1) have "u_user u = None" unfolding not_spiffe_uri_def by blast
  with assms p show ?thesis
    by (simp add: not_spiffe_uri_def url_String_def authority_String_def user_String_def
        EscapedPath_def escape_Cons slash)
qed

lemma accepted_parse:
  assumes "reg_validateSPIFFEID raw = None"
  obtains u where "url_Parse raw = Some u" "\<not> not_spiffe_uri u" "\<not> bad_trust_domain u"
    "HasPrefix (u_path u) ''/''" "u_raw_path u = []" "url_String u = raw"
    "\<forall>seg \<in> set (path_segments u). \<not> reg_bad_segment seg" "length raw \<le> 2048"
  using assms by (auto simp: reg_validateSPIFFEID_def MaxSPIFFEIDBytes_def list_ex_iff
      split: if_splits option.splits)

lemma pol_accepts_less: "pol_validateSPIFFEID raw = None \<Longrightarrow> reg_validateSPIFFEID raw = None"
  by (auto simp: pol_validateSPIFFEID_def reg_validateSPIFFEID_def list_ex_iff pol_bad_segment_def
      reg_bad_segment_def split: if_splits option.splits)

lemma pol_accepted_segments:
  assumes "pol_validateSPIFFEID raw = None" and "url_Parse raw = Some u"
    and "seg \<in> set (path_segments u)"
  shows "\<not> pol_bad_segment seg"
  using assms by (auto simp: pol_validateSPIFFEID_def list_ex_iff split: if_splits)

lemma accepted_shape:
  assumes "reg_validateSPIFFEID raw = None"
  obtains u where "url_Parse raw = Some u" "u_host u \<noteq> []" "ToLower (u_host u) = u_host u"
    "raw = ''spiffe://'' @ escape (u_host u) EncHost @ escape (u_path u) EncPath
       @ (if u_force_query u then ''?'' else [])"
    "u_path u = CHR ''/'' # join_with CHR ''/'' (path_segments u)"
    "\<forall>seg \<in> set (path_segments u). seg \<notin> {[], ''.'', ''..''} \<and> CHR ''/'' \<notin> set seg"
    "length raw \<le> 2048"
proof -
  from accepted_parse[OF assms] obtain u where u: "url_Parse raw = Some u" "\<not> not_spiffe_uri u"
    "\<not> bad_trust_domain u" "HasPrefix (u_path u) ''/''" "u_raw_path u = []" "url_String u = raw"
    "\<forall>seg \<in> set (path_segments u). \<not> reg_bad_segment seg" "length raw \<le> 2048" by blast
  from u(4) obtain p where p: "u_path u = CHR ''/'' # p" by (auto simp: HasPrefix_iff)
  then have seg: "path_segments u = Split p CHR ''/''"
    by (simp add: path_segments_def TrimPrefix_def HasPrefix_def)
  show ?thesis
  proof (rule that[OF u(1)])
    show "u_host u \<noteq> []" "ToLower (u_host u) = u_host u"
      using u(2,3) by (simp_all add: not_spiffe_uri_def bad_trust_domain_def)
    show "raw = ''spiffe://'' @ escape (u_host u) EncHost @ escape (u_path u) EncPath
       @ (if u_force_query u then ''?'' else [])"
      using url_String_spiffe[OF u(2,4,5)] u(6) by simp
    show "u_path u = CHR ''/'' # join_with CHR ''/'' (path_segments u)"
      using p seg by (simp add: join_Split)
    show "\<forall>seg \<in> set (path_segments u). seg \<notin> {[], ''.'', ''..''} \<and> CHR ''/'' \<notin> set seg"
      using u(7) seg Split_no_sep by (auto simp: reg_bad_segment_def)
    show "length raw \<le> 2048" by (fact u(8))
  qed
qed

section \<open>Plain IDs are accepted\<close>

text \<open>
  The SPIFFE standard's alphabet: a trust domain of lower-case letters, digits, dots, dashes and
  underscores; path segments of letters, digits, dots, dashes and underscores.
\<close>

definition plain_domain_byte :: "char \<Rightarrow> bool" where
  "plain_domain_byte c \<longleftrightarrow> is_lower c \<or> is_digit c \<or> c \<in> set ''-_.''"

definition plain_path_byte :: "char \<Rightarrow> bool" where
  "plain_path_byte c \<longleftrightarrow> is_alnum c \<or> c \<in> set ''-_.''"

definition plain_segment :: "string \<Rightarrow> bool" where
  "plain_segment seg \<longleftrightarrow> seg \<notin> {[], ''.'', ''..''} \<and> list_all plain_path_byte seg"

definition plain_id :: "string \<Rightarrow> string list \<Rightarrow> string" where
  "plain_id td segments = ''spiffe://'' @ td @ ''/'' @ join_with CHR ''/'' segments"

lemma plain_domain_path: "plain_domain_byte c \<Longrightarrow> plain_path_byte c"
  by (auto simp: plain_domain_byte_def plain_path_byte_def is_alnum_def)

lemma plain_path_unescaped: "plain_path_byte c \<Longrightarrow> \<not> shouldEscape c m"
  by (auto simp: plain_path_byte_def shouldEscape_def mark_bytes_def)

lemma plain_path_not_special:
  assumes "plain_path_byte c"
  shows "c \<notin> set ''#?/:@[]%* ''" and "c \<noteq> backslash" and "\<not> is_ctl c" and "byte c < 128"
    and "32 < byte c \<and> byte c \<noteq> 127"
proof -
  have "\<not> plain_path_byte d" if "d \<in> set ''#?/:@[]%* '' \<union> {backslash}" for d
  proof -
    have "list_all (\<lambda>d. \<not> plain_path_byte d) (backslash # ''#?/:@[]%* '')" by code_simp
    with that show ?thesis by (auto simp: list_all_iff)
  qed
  with assms show "c \<notin> set ''#?/:@[]%* ''" "c \<noteq> backslash" by blast+
  have "c \<in> set ''-_.'' \<Longrightarrow> 32 < byte c \<and> byte c < 127"
    by (auto simp: byte_def)
  then have "32 < byte c \<and> byte c < 127"
    using assms by (auto simp: plain_path_byte_def is_alnum_def is_lower_def is_upper_def
        is_digit_def byte_in_def)
  then show "\<not> is_ctl c" "byte c < 128" "32 < byte c \<and> byte c \<noteq> 127"
    by (auto simp: is_ctl_def)
qed

lemma unescape_plain:
  assumes "list_all (\<lambda>c. c \<noteq> CHR ''%'' \<and> \<not> shouldEscape c m) s" and "m \<noteq> EncQuery"
  shows "unescape s m = Some s" and "escape s m = s"
  using assms by (induction s) (auto simp: escape_Cons escape_byte_def)

lemma slash_unescaped: "\<not> shouldEscape CHR ''/'' EncPath"
  by code_simp

lemma join_with_set: "set (join_with c xs) \<subseteq> insert c (\<Union> (set ` set xs))"
  by (induction c xs rule: join_with.induct) auto

lemma Split_join:
  "xs \<noteq> [] \<Longrightarrow> \<forall>x \<in> set xs. c \<notin> set x \<Longrightarrow> Split (join_with c xs) c = xs"
proof (induction c xs rule: join_with.induct)
  case (1 c)
  then show ?case by simp
next
  case (2 c x)
  then have "c \<notin> set x" by simp
  then show ?case by (induction x) (auto split: list.splits)
next
  case (3 c x y ys)
  then have IH: "Split (join_with c (y # ys)) c = y # ys" and "c \<notin> set x" by auto
  from this(2) show ?case by (induction x) (auto simp: IH)
qed

lemma CutLast_missing [simp]: "c \<notin> set s \<Longrightarrow> CutLast s c = None"
  by (simp add: CutLast_def)

lemma Cut_absent: "c \<notin> set s \<Longrightarrow> Cut s c = (s, [], False)"
  by (simp add: Cut_def)

lemma getScheme_spiffe: "getScheme raw [] (''spiffe:'' @ r) = Some (''spiffe'', r)"
  by (simp add: is_lower_def is_upper_def is_digit_def byte_in_def byte_def)

lemma ToLower_plain:
  assumes "list_all plain_domain_byte td"
  shows "ToLower td = td"
proof -
  have "ascii_lower c = c" if "plain_domain_byte c" for c
    using that by (auto simp: plain_domain_byte_def ascii_lower_def is_upper_def is_lower_def
        is_digit_def byte_in_def) (auto simp: byte_def)
  moreover have "is_ascii td"
    using assms plain_path_not_special(4) plain_domain_path
    by (auto simp: is_ascii_def list_all_iff)
  ultimately show ?thesis
    using assms by (auto simp: ToLower_ascii list_all_iff intro!: map_idI)
qed

text \<open>Parsing an ID with a plain trust domain and a path of plain bytes and slashes.\<close>

lemma plain_parse:
  assumes td: "td \<noteq> []" "list_all plain_domain_byte td"
    and path: "list_all (\<lambda>c. plain_path_byte c \<or> c = CHR ''/'') path"
  shows "url_Parse (''spiffe://'' @ td @ ''/'' @ path) =
    Some (empty_url\<lparr>u_scheme := ''spiffe'', u_host := td, u_path := CHR ''/'' # path\<rparr>)"
proof -
  let ?raw = "''spiffe://'' @ td @ ''/'' @ path"
  have tdp: "list_all plain_path_byte td" using td(2) plain_domain_path by (auto simp: list_all_iff)
  have nosp: "c \<notin> set td \<and> c \<notin> set path" if "c \<in> set ''#?:@[]%''" for c
    using that tdp path plain_path_not_special(1) by (fastforce simp: list_all_iff)
  have noslash: "CHR ''/'' \<notin> set td"
    using tdp plain_path_not_special(1) by (fastforce simp: list_all_iff)
  have ctl: "\<not> list_ex is_ctl ?raw"
  proof -
    have "\<not> list_ex is_ctl (''spiffe://'' @ ''/'')" by code_simp
    moreover have "\<not> list_ex is_ctl td" "\<not> list_ex is_ctl path"
      using tdp path plain_path_not_special(3) calculation
      by (auto simp: list_ex_iff list_all_iff)
    ultimately show ?thesis by (simp only: list_ex_append) simp
  qed
  have frag: "Cut ?raw CHR ''#'' = (?raw, [], False)"
    by (rule Cut_absent) (use nosp[of "CHR ''#''"] in simp)
  have query: "cut_query (''//'' @ td @ ''/'' @ path) = (''//'' @ td @ ''/'' @ path, False, [])"
  proof -
    have q: "CHR ''?'' \<notin> set (''//'' @ td @ ''/'' @ path)"
      using nosp[of "CHR ''?''"] by simp
    then have "count_list (''//'' @ td @ ''/'' @ path) CHR ''?'' = 0" by (simp add: count_list_0_iff)
    then show ?thesis unfolding cut_query_def using Cut_absent[OF q] by simp
  qed
  have auth: "parseAuthority td = Some (None, td)"
  proof -
    have "CHR ''@'' \<notin> set td" "CHR ''['' \<notin> set td" "CHR '':'' \<notin> set td" and pc: "CHR ''%'' \<notin> set td"
      using nosp by simp_all
    moreover have "unescape td EncHost = Some td"
      using tdp pc plain_path_unescaped by (intro unescape_plain(1)) (auto simp: list_all_iff)
    ultimately show ?thesis by (simp add: parseAuthority_def parseHost_def Cut_absent)
  qed
  have split: "takeWhile (\<lambda>c. c \<noteq> CHR ''/'') (td @ CHR ''/'' # path) = td"
    "dropWhile (\<lambda>c. c \<noteq> CHR ''/'') (td @ CHR ''/'' # path) = CHR ''/'' # path"
    using noslash by (auto simp: takeWhile_append dropWhile_append)
  have pp: "list_all (\<lambda>c. c \<noteq> CHR ''%'' \<and> \<not> shouldEscape c EncPath) (CHR ''/'' # path)"
    using path plain_path_unescaped slash_unescaped nosp[of "CHR ''%''"]
    by (auto simp: list_all_iff)
  have set: "setPath u (CHR ''/'' # path) = Some (u\<lparr>u_path := CHR ''/'' # path, u_raw_path := []\<rparr>)" for u
    using unescape_plain[OF pp] by (simp add: setPath_def)
  have scheme: "ToLower ''spiffe'' = ''spiffe''" by code_simp
  have "getScheme ?raw [] ?raw = Some (''spiffe'', ''//'' @ td @ ''/'' @ path)"
    using getScheme_spiffe[of ?raw "''//'' @ td @ ''/'' @ path"] by simp
  with ctl query scheme auth split set have "parse_nofrag ?raw =
      Some (empty_url\<lparr>u_scheme := ''spiffe'', u_host := td, u_path := CHR ''/'' # path\<rparr>)"
    by (simp add: parse_nofrag_def parse_hier_def HasPrefix_def empty_url_def Let_def)
  with frag show ?thesis by (simp add: url_Parse_def)
qed

lemma plain_segment_no_slash: "plain_segment seg \<Longrightarrow> CHR ''/'' \<notin> set seg"
  using plain_path_not_special(1) by (fastforce simp: plain_segment_def list_all_iff)

lemma plain_path_bytes:
  assumes "\<forall>seg \<in> set segments. plain_segment seg"
  shows "list_all (\<lambda>c. plain_path_byte c \<or> c = CHR ''/'') (join_with CHR ''/'' segments)"
  using assms join_with_set[of "CHR ''/''" segments]
  by (fastforce simp: list_all_iff plain_segment_def)

lemma plain_segment_pol:
  assumes "plain_segment seg"
  shows "\<not> pol_bad_segment seg"
proof -
  have b: "plain_path_byte c" if "c \<in> set seg" for c
    using assms that by (auto simp: plain_segment_def list_all_iff)
  then have "is_ascii seg" using plain_path_not_special(4) by (auto simp: is_ascii_def list_all_iff)
  then have "\<not> has_control seg"
    using b plain_path_not_special(5) by (fastforce simp: has_control_ascii)
  moreover have "backslash \<notin> set seg" using b plain_path_not_special(2) by blast
  ultimately show ?thesis using assms by (simp add: pol_bad_segment_def plain_segment_def)
qed

lemma plain_id_parsed:
  assumes "td \<noteq> []" "list_all plain_domain_byte td" "segments \<noteq> []"
    "\<forall>seg \<in> set segments. plain_segment seg"
  defines "u \<equiv> empty_url\<lparr>u_scheme := ''spiffe'', u_host := td,
     u_path := CHR ''/'' # join_with CHR ''/'' segments\<rparr>"
  shows "url_Parse (plain_id td segments) = Some u" and "\<not> not_spiffe_uri u"
    and "\<not> bad_trust_domain u" and "path_segments u = segments"
    and "url_String u = plain_id td segments"
proof -
  have tdp: "list_all plain_path_byte td"
    using assms(2) plain_domain_path by (auto simp: list_all_iff)
  have nosp: "CHR '':'' \<notin> set td" "CHR ''['' \<notin> set td" "CHR ''%'' \<notin> set td"
    using tdp plain_path_not_special(1) by (fastforce simp: list_all_iff)+
  show "url_Parse (plain_id td segments) = Some u"
    using plain_parse[OF assms(1,2) plain_path_bytes[OF assms(4)]] by (simp add: plain_id_def u_def)
  show ns: "\<not> not_spiffe_uri u"
    using assms(1) by (simp add: not_spiffe_uri_def u_def empty_url_def)
  have "\<not> HasPrefix td ''[''" using nosp(2) by (auto simp: HasPrefix_iff)
  with nosp ToLower_plain[OF assms(2)] show "\<not> bad_trust_domain u"
    by (simp add: bad_trust_domain_def u_def Hostname_def)
  show "path_segments u = segments"
    using assms(3,4) plain_segment_no_slash Split_join[of segments "CHR ''/''"]
    by (simp add: path_segments_def u_def TrimPrefix_def HasPrefix_def)
  have "escape td EncHost = td"
    using tdp nosp(3) plain_path_unescaped by (intro unescape_plain(2)) (auto simp: list_all_iff)
  moreover have "escape (CHR ''/'' # join_with CHR ''/'' segments) EncPath
      = CHR ''/'' # join_with CHR ''/'' segments"
    using plain_path_bytes[OF assms(4)] plain_path_unescaped slash_unescaped plain_path_not_special(1)
    by (intro unescape_plain(2)) (fastforce simp: list_all_iff)+
  ultimately show "url_String u = plain_id td segments"
    using url_String_spiffe[OF ns] by (simp add: u_def empty_url_def HasPrefix_def plain_id_def)
qed

section \<open>IDs without percent signs round trip\<close>

lemma escape_no_percent: "m \<noteq> EncQuery \<Longrightarrow> CHR ''%'' \<notin> set (escape s m) \<Longrightarrow> escape s m = s"
  by (induction s) (auto simp: escape_Cons escape_byte_def split: if_splits)

lemma accepted_parseSPIFFEID:
  assumes "reg_validateSPIFFEID raw = None" and "url_Parse raw = Some u"
  shows "parseSPIFFEID raw = Inr \<lparr>TrustDomain = u_host u, Path = u_path u\<rparr>"
  using assms by (auto simp: reg_validateSPIFFEID_def parseSPIFFEID_def HasPrefix_iff split: if_splits)

section \<open>Properties\<close>

text \<open>
  C17. What the API accepts the reconciler can use: every ID that the registration validator
  accepts is parsed by the SPIRE client, into a non-empty lower-case trust domain and an absolute
  path none of whose segments is empty, \<open>.\<close> or \<open>..\<close>, and has at most 2048 bytes. If it has no
  percent sign and no question mark, formatting the parsed ID gives the accepted text back.
\<close>

theorem accepted_ID_reaches_SPIRE:
  assumes "reg_validateSPIFFEID raw = None"
  shows "\<exists>td segments. parseSPIFFEID raw
      = Inr \<lparr>TrustDomain = td, Path = CHR ''/'' # join_with CHR ''/'' segments\<rparr>
    \<and> td \<noteq> [] \<and> ToLower td = td
    \<and> (\<forall>seg \<in> set segments. seg \<notin> {[], ''.'', ''..''} \<and> CHR ''/'' \<notin> set seg)
    \<and> length raw \<le> 2048
    \<and> (CHR ''%'' \<notin> set raw \<and> CHR ''?'' \<notin> set raw \<longrightarrow>
        formatSPIFFEID (Some \<lparr>TrustDomain = td, Path = CHR ''/'' # join_with CHR ''/'' segments\<rparr>) = raw)"
proof -
  from accepted_shape[OF assms] obtain u where u: "url_Parse raw = Some u" "u_host u \<noteq> []"
    "ToLower (u_host u) = u_host u"
    "raw = ''spiffe://'' @ escape (u_host u) EncHost @ escape (u_path u) EncPath
       @ (if u_force_query u then ''?'' else [])"
    "u_path u = CHR ''/'' # join_with CHR ''/'' (path_segments u)"
    "\<forall>seg \<in> set (path_segments u). seg \<notin> {[], ''.'', ''..''} \<and> CHR ''/'' \<notin> set seg"
    "length raw \<le> 2048" by blast
  have "formatSPIFFEID (Some \<lparr>TrustDomain = u_host u, Path = u_path u\<rparr>) = raw"
    if "CHR ''%'' \<notin> set raw" "CHR ''?'' \<notin> set raw"
  proof -
    from that u(4) have "CHR ''%'' \<notin> set (escape (u_host u) EncHost)"
      "CHR ''%'' \<notin> set (escape (u_path u) EncPath)" "\<not> u_force_query u"
      by (auto split: if_splits)
    then show ?thesis
      using u(4) escape_no_percent[of EncHost "u_host u"] escape_no_percent[of EncPath "u_path u"]
      by (simp add: formatSPIFFEID_def)
  qed
  with accepted_parseSPIFFEID[OF assms u(1)] u show ?thesis by metis
qed

theorem accepted_ID_reaches_SPIRE_witness:
  "reg_validateSPIFFEID ''spiffe://td.example/ns/api'' = None
   \<and> (\<exists>i. parseSPIFFEID ''spiffe://td.example/ns/api'' = Inr i)"
proof -
  have ok: "reg_validateSPIFFEID ''spiffe://td.example/ns/api'' = None" by code_simp
  with accepted_ID_reaches_SPIRE[OF ok] show ?thesis by blast
qed

text \<open>
  C18. Every standard SPIFFE ID is usable: an ID of at most 2048 bytes with a plain lower-case
  trust domain and plain path segments (none of them empty, \<open>.\<close> or \<open>..\<close>) passes the
  registration and the policy validator, and the SPIRE client parses it into that trust domain
  and that path and formats it back to the same text.
\<close>

theorem standard_ID_accepted:
  assumes "td \<noteq> []" and "list_all plain_domain_byte td" and "segments \<noteq> []"
    and "\<forall>seg \<in> set segments. plain_segment seg" and "length (plain_id td segments) \<le> 2048"
  shows "reg_validateSPIFFEID (plain_id td segments) = None
    \<and> pol_validateSPIFFEID (plain_id td segments) = None
    \<and> parseSPIFFEID (plain_id td segments)
        = Inr \<lparr>TrustDomain = td, Path = CHR ''/'' # join_with CHR ''/'' segments\<rparr>
    \<and> formatSPIFFEID (Some \<lparr>TrustDomain = td, Path = CHR ''/'' # join_with CHR ''/'' segments\<rparr>)
        = plain_id td segments"
proof -
  note p = plain_id_parsed[OF assms(1-4)]
  have "\<not> list_ex pol_bad_segment segments"
    using assms(4) plain_segment_pol by (auto simp: list_ex_iff)
  with p assms(5) have pol: "pol_validateSPIFFEID (plain_id td segments) = None"
    by (simp add: pol_validateSPIFFEID_def MaxSPIFFEIDBytes_def HasPrefix_def empty_url_def)
      (simp add: plain_id_def)
  from pol_accepts_less[OF pol] accepted_parseSPIFFEID[OF _ p(1)] pol show ?thesis
    by (simp add: formatSPIFFEID_def plain_id_def)
qed

theorem standard_ID_accepted_witness:
  "pol_validateSPIFFEID (plain_id ''td.example'' [''ns'', ''api-1'']) = None"
proof -
  have "list_all plain_domain_byte ''td.example''" "list_all plain_segment [''ns'', ''api-1'']"
    "length (plain_id ''td.example'' [''ns'', ''api-1'']) \<le> 2048" by code_simp+
  with standard_ID_accepted[of "''td.example''" "[''ns'', ''api-1'']"] show ?thesis
    by (simp add: list_all_iff)
qed

text \<open>
  The policy validator is the stricter one: it accepts only IDs the registration validator
  accepts, and in the path of an ID it accepts no segment is empty, \<open>.\<close> or \<open>..\<close> or holds a
  slash, a backslash or a control character.
\<close>

theorem policy_ID_stricter:
  assumes "pol_validateSPIFFEID raw = None"
  shows "reg_validateSPIFFEID raw = None
    \<and> (\<exists>td segments. parseSPIFFEID raw
          = Inr \<lparr>TrustDomain = td, Path = CHR ''/'' # join_with CHR ''/'' segments\<rparr>
        \<and> (\<forall>seg \<in> set segments. seg \<notin> {[], ''.'', ''..''} \<and> CHR ''/'' \<notin> set seg
            \<and> backslash \<notin> set seg \<and> \<not> has_control seg))"
proof -
  note reg = pol_accepts_less[OF assms]
  from accepted_shape[OF reg] obtain u where u: "url_Parse raw = Some u"
    "u_path u = CHR ''/'' # join_with CHR ''/'' (path_segments u)"
    "\<forall>seg \<in> set (path_segments u). seg \<notin> {[], ''.'', ''..''} \<and> CHR ''/'' \<notin> set seg"
    by blast
  have "\<forall>seg \<in> set (path_segments u). backslash \<notin> set seg \<and> \<not> has_control seg"
    using pol_accepted_segments[OF assms u(1)] by (auto simp: pol_bad_segment_def)
  with u reg accepted_parseSPIFFEID[OF reg u(1)] show ?thesis by metis
qed

theorem policy_ID_stricter_witness:
  "pol_validateSPIFFEID ''spiffe://td.example/ns/api'' = None
   \<and> reg_validateSPIFFEID ''spiffe://td.example/ns/api'' = None
   \<and> pol_validateSPIFFEID ''spiffe://td.example/a%01'' \<noteq> None
   \<and> reg_validateSPIFFEID ''spiffe://td.example/a%01'' = None"
proof -
  have "pol_validateSPIFFEID ''spiffe://td.example/ns/api'' = None"
    "pol_validateSPIFFEID ''spiffe://td.example/a%01'' \<noteq> None"
    "reg_validateSPIFFEID ''spiffe://td.example/a%01'' = None" by code_simp+
  with policy_ID_stricter[of "''spiffe://td.example/ns/api''"] show ?thesis by blast
qed

text \<open>
  Where the validators are weaker than a canonical ID: both accept an ID with a trailing
  question mark (an empty query) and an ID with a percent-encoded blank, and for these the ID
  that the SPIRE client formats differs from the accepted one, so a reconciler that compares
  the two never finds them equal.
\<close>

theorem non_canonical_ID_accepted:
  "pol_validateSPIFFEID ''spiffe://td.example/a?'' = None
   \<and> reg_validateSPIFFEID ''spiffe://td.example/a?'' = None
   \<and> map_sum id (\<lambda>i. formatSPIFFEID (Some i)) (parseSPIFFEID ''spiffe://td.example/a?'')
       = Inr ''spiffe://td.example/a''
   \<and> pol_validateSPIFFEID ''spiffe://td.example/a%20b'' = None
   \<and> reg_validateSPIFFEID ''spiffe://td.example/a%20b'' = None
   \<and> map_sum id (\<lambda>i. formatSPIFFEID (Some i)) (parseSPIFFEID ''spiffe://td.example/a%20b'')
       = Inr ''spiffe://td.example/a b''"
  by (intro conjI) code_simp+

end
