(* ===== verification/GoJson.thy ===== *)
theory GoJson
  imports GoUnicode
begin

text \<open>
  Go's \<open>encoding/json\<close>: a lexer and a stack parser for JSON texts (\<open>Valid\<close>, \<open>Unmarshal\<close>, the
  reading half of \<open>Decoder.Decode\<close>) and \<open>Marshal\<close>. The parser keeps one frame per open array or
  object, as the package's scanner does, and consumes one token per step, so it needs no fuel.
  The main fact is that parsing a marshalled value gives the value back, with every string
  coerced to valid UTF-8.
\<close>

section \<open>Values and tokens\<close>

datatype json = JNull | JBool bool | JNum string | JStr string | JArr "json list"
  | JObj "(string \<times> json) list"

datatype token = TLBrace | TRBrace | TLBrack | TRBrack | TComma | TColon
  | TStr string | TNum string | TTrue | TFalse | TNull

text \<open>A lexeme is read, is malformed, or is cut off by the end of the input.\<close>

datatype 'a scan = ScanOk 'a string | ScanBad | ScanCut

text \<open>The token list of an input ends with the input, at a malformed lexeme, or inside one.\<close>

datatype lex_end = LexDone | LexBad | LexCut

definition quote :: char where
  "quote = char_of (34::nat)"

definition backsl :: char where
  "backsl = char_of (92::nat)"

definition is_json_space :: "char \<Rightarrow> bool" where
  "is_json_space c \<longleftrightarrow> byte c = 32 \<or> byte c = 9 \<or> byte c = 10 \<or> byte c = 13"

section \<open>Strings\<close>

definition simple_escapes :: string where
  "simple_escapes = ''bfnrt/'' @ [backsl, quote]"

fun scan_map :: "('a \<Rightarrow> 'b) \<Rightarrow> 'a scan \<Rightarrow> 'b scan" where
  "scan_map f (ScanOk a r) = ScanOk (f a) r"
| "scan_map f ScanBad = ScanBad"
| "scan_map f ScanCut = ScanCut"

lemma scan_map_Ok [simp]: "scan_map f x = ScanOk b r \<longleftrightarrow> (\<exists>a. x = ScanOk a r \<and> b = f a)"
  by (cases x) auto

text \<open>What may follow a backslash.\<close>

definition scan_escape :: "string \<Rightarrow> string scan" where
  "scan_escape s =
     (case s of
        [] \<Rightarrow> ScanCut
      | e # r \<Rightarrow>
          if e \<in> set simple_escapes then ScanOk [e] r
          else if e = CHR ''u'' then
            (if 4 \<le> length r then
               (if list_all is_hex (take 4 r) then ScanOk (e # take 4 r) (drop 4 r) else ScanBad)
             else if list_all is_hex r then ScanCut else ScanBad)
          else ScanBad)"

lemma scan_escape_Ok: "scan_escape s = ScanOk e r \<Longrightarrow> s = e @ r \<and> e \<noteq> []"
  by (auto simp: scan_escape_def split: list.splits if_splits)

text \<open>The raw text of a string up to its closing quote, with the escapes checked.\<close>

function scan_str :: "string \<Rightarrow> string scan" where
  "scan_str [] = ScanCut"
| "scan_str (c # cs) =
     (if c = quote then ScanOk [] cs
      else if c = backsl then
        (case scan_escape cs of
           ScanOk e r \<Rightarrow> scan_map (\<lambda>t. c # e @ t) (scan_str r)
         | ScanBad \<Rightarrow> ScanBad
         | ScanCut \<Rightarrow> ScanCut)
      else if byte c < 32 then ScanBad
      else scan_map ((#) c) (scan_str cs))"
  by pat_completeness auto
termination
  by (relation "measure length") (auto dest!: scan_escape_Ok)

lemma scan_str_shorter: "scan_str s = ScanOk a r \<Longrightarrow> length r < length s"
proof (induction s arbitrary: a r rule: scan_str.induct)
  case 1
  then show ?case by simp
next
  case (2 c cs)
  consider "c = quote" | e r' where "c = backsl" "c \<noteq> quote" "scan_escape cs = ScanOk e r'"
      "\<exists>t. scan_str r' = ScanOk t r"
    | "c \<noteq> backsl" "c \<noteq> quote" "\<not> byte c < 32" "\<exists>t. scan_str cs = ScanOk t r"
    using "2.prems" by (auto split: if_splits scan.splits)
  then show ?case
  proof cases
    case 1
    with "2.prems" show ?thesis by simp
  next
    case (2 e r')
    then have "length r < length r'" using "2.IH"(1) by blast
    with scan_escape_Ok[OF 2(3)] show ?thesis by simp
  next
    case 3
    then show ?thesis using "2.IH"(2) by fastforce
  qed
qed

definition hex4 :: "char \<Rightarrow> char \<Rightarrow> char \<Rightarrow> char \<Rightarrow> nat" where
  "hex4 a b c d = ((unhex a * 16 + unhex b) * 16 + unhex c) * 16 + unhex d"

text \<open>\<open>getu4\<close>: the code unit of a \<open>\uXXXX\<close> escape at the head of the text.\<close>

definition getu4 :: "string \<Rightarrow> nat option" where
  "getu4 s = (case s of
      b # u # h1 # h2 # h3 # h4 # _ \<Rightarrow>
        if b = backsl \<and> u = CHR ''u'' \<and> list_all is_hex [h1, h2, h3, h4]
        then Some (hex4 h1 h2 h3 h4) else None
    | _ \<Rightarrow> None)"

definition is_surrogate :: "nat \<Rightarrow> bool" where
  "is_surrogate r \<longleftrightarrow> 55296 \<le> r \<and> r < 57344"

definition utf16_pair :: "nat \<Rightarrow> nat option \<Rightarrow> nat option" where
  "utf16_pair hi lo = (case lo of
      Some l \<Rightarrow> if 55296 \<le> hi \<and> hi < 56320 \<and> 56320 \<le> l \<and> l < 57344
                then Some ((hi - 55296) * 1024 + (l - 56320) + 65536) else None
    | None \<Rightarrow> None)"

definition unescape_simple :: "char \<Rightarrow> char" where
  "unescape_simple e = (if e = CHR ''b'' then char_of (8::nat)
     else if e = CHR ''f'' then char_of (12::nat) else if e = CHR ''n'' then char_of (10::nat)
     else if e = CHR ''r'' then char_of (13::nat) else if e = CHR ''t'' then char_of (9::nat)
     else e)"

text \<open>\<open>unquoteBytes\<close> on a raw text that \<open>scan_str\<close> has accepted.\<close>

function unquote :: "string \<Rightarrow> string" where
  "unquote [] = []"
| "unquote (c # cs) =
     (if c = backsl then
        (case getu4 (c # cs) of
           Some r \<Rightarrow>
             if is_surrogate r then
               (case utf16_pair r (getu4 (drop 5 cs)) of
                  Some r' \<Rightarrow> encode_rune r' @ unquote (drop 11 cs)
                | None \<Rightarrow> encode_rune rune_error @ unquote (drop 5 cs))
             else encode_rune r @ unquote (drop 5 cs)
         | None \<Rightarrow> (case cs of [] \<Rightarrow> [] | e # r \<Rightarrow> unescape_simple e # unquote r))
      else if byte c < 128 then c # unquote cs
      else (case decode_rune c cs of (r, n) \<Rightarrow> encode_rune r @ unquote (drop n cs)))"
  by pat_completeness auto
termination
  by (relation "measure length") auto

section \<open>Numbers and literals\<close>

text \<open>A number scanner: the text of the number and what follows it.\<close>

definition scan_digits :: "string \<Rightarrow> string scan" where
  "scan_digits s = (let ds = takeWhile is_digit s in
     if ds \<noteq> [] then ScanOk ds (drop (length ds) s) else if s = [] then ScanCut else ScanBad)"

definition scan_int :: "string \<Rightarrow> string scan" where
  "scan_int s = (case s of
      [] \<Rightarrow> ScanCut
    | c # cs \<Rightarrow> if c = CHR ''0'' then ScanOk ''0'' cs else scan_digits s)"

definition scan_frac :: "string \<Rightarrow> string scan" where
  "scan_frac s = (case s of
      c # cs \<Rightarrow> if c = CHR ''.'' then scan_map ((#) c) (scan_digits cs) else ScanOk [] s
    | [] \<Rightarrow> ScanOk [] [])"

definition scan_exp :: "string \<Rightarrow> string scan" where
  "scan_exp s = (case s of
      c # cs \<Rightarrow>
        if c = CHR ''e'' \<or> c = CHR ''E'' then
          (case cs of
             d # ds \<Rightarrow> if d = CHR ''+'' \<or> d = CHR ''-'' then scan_map (\<lambda>t. c # d # t) (scan_digits ds)
                       else scan_map ((#) c) (scan_digits cs)
           | [] \<Rightarrow> ScanCut)
        else ScanOk [] s
    | [] \<Rightarrow> ScanOk [] [])"

fun scan_then :: "string scan \<Rightarrow> (string \<Rightarrow> string scan) \<Rightarrow> string scan" where
  "scan_then (ScanOk a r) f = scan_map ((@) a) (f r)"
| "scan_then ScanBad f = ScanBad"
| "scan_then ScanCut f = ScanCut"

definition scan_num :: "string \<Rightarrow> string scan" where
  "scan_num s =
     (let sign = (if HasPrefix s ''-'' then ''-'' else []) in
      scan_map ((@) sign)
        (scan_then (scan_int (drop (length sign) s)) (\<lambda>r. scan_then (scan_frac r) scan_exp)))"

definition scan_lit :: "string \<Rightarrow> token \<Rightarrow> string \<Rightarrow> token scan" where
  "scan_lit lit t s = (if HasPrefix s lit then ScanOk t (drop (length lit) s)
     else if HasPrefix lit s then ScanCut else ScanBad)"

section \<open>The lexer\<close>

definition punct :: "char \<Rightarrow> token option" where
  "punct c = (if c = CHR ''{'' then Some TLBrace else if c = CHR ''}'' then Some TRBrace
     else if c = CHR ''['' then Some TLBrack else if c = CHR '']'' then Some TRBrack
     else if c = CHR '','' then Some TComma else if c = CHR '':'' then Some TColon else None)"

definition scan_token :: "char \<Rightarrow> string \<Rightarrow> token scan" where
  "scan_token c cs =
     (case punct c of
        Some t \<Rightarrow> ScanOk t cs
      | None \<Rightarrow>
          if c = quote then scan_map (\<lambda>raw. TStr (unquote raw)) (scan_str cs)
          else if c = CHR ''t'' then scan_lit ''true'' TTrue (c # cs)
          else if c = CHR ''f'' then scan_lit ''false'' TFalse (c # cs)
          else if c = CHR ''n'' then scan_lit ''null'' TNull (c # cs)
          else if c = CHR ''-'' \<or> is_digit c then scan_map TNum (scan_num (c # cs))
          else ScanBad)"

lemma scan_digits_Ok: "scan_digits s = ScanOk a r \<Longrightarrow> s = a @ r \<and> a \<noteq> []"
  by (auto simp: scan_digits_def Let_def dropWhile_eq_drop[symmetric] split: if_splits)

lemma scan_int_Ok: "scan_int s = ScanOk a r \<Longrightarrow> s = a @ r \<and> a \<noteq> []"
  by (auto simp: scan_int_def dest: scan_digits_Ok split: list.splits if_splits)

lemma scan_frac_Ok: "scan_frac s = ScanOk a r \<Longrightarrow> s = a @ r"
  by (auto simp: scan_frac_def dest: scan_digits_Ok split: list.splits if_splits)

lemma scan_exp_Ok: "scan_exp s = ScanOk a r \<Longrightarrow> s = a @ r"
  by (auto simp: scan_exp_def dest: scan_digits_Ok split: list.splits if_splits)

lemma scan_then_Ok [simp]:
  "scan_then x f = ScanOk b r \<longleftrightarrow> (\<exists>a s a'. x = ScanOk a s \<and> f s = ScanOk a' r \<and> b = a @ a')"
  by (cases x) auto

lemma scan_num_Ok:
  assumes "scan_num s = ScanOk a r"
  shows "s = a @ r \<and> a \<noteq> []"
proof -
  define sign where "sign = (if HasPrefix s ''-'' then ''-'' else [])"
  from assms obtain i r1 f r2 e where a: "a = sign @ i @ f @ e"
    and parts: "scan_int (drop (length sign) s) = ScanOk i r1" "scan_frac r1 = ScanOk f r2"
      "scan_exp r2 = ScanOk e r"
    unfolding scan_num_def Let_def sign_def[symmetric] by auto
  have "s = sign @ drop (length sign) s" by (auto simp: sign_def HasPrefix_iff)
  with a scan_int_Ok[OF parts(1)] scan_frac_Ok[OF parts(2)] scan_exp_Ok[OF parts(3)]
  show ?thesis by simp
qed

lemma scan_num_shorter: "scan_num s = ScanOk a r \<Longrightarrow> length r < length s"
  by (drule scan_num_Ok) auto

lemma scan_lit_shorter: "scan_lit lit u s = ScanOk t r \<Longrightarrow> length r = length s - length lit"
  by (auto simp: scan_lit_def split: if_splits)

lemma scan_token_shorter:
  assumes "scan_token c cs = ScanOk t r"
  shows "length r \<le> length cs"
proof (cases "punct c")
  case (Some u)
  with assms show ?thesis by (simp add: scan_token_def)
next
  case None
  have num: "length r \<le> length cs" if "scan_num (c # cs) = ScanOk a r" for a
    using scan_num_shorter[OF that] by simp
  have lit: "length r \<le> length cs" if "scan_lit l u (c # cs) = ScanOk t r" "l \<noteq> []" for l u
    using scan_lit_shorter[OF that(1)] that(2) by (cases l) auto
  have str: "length r \<le> length cs" if "scan_str cs = ScanOk a r" for a
    using scan_str_shorter[OF that] by simp
  show ?thesis
    using assms None num lit str by (simp add: scan_token_def split: if_splits) blast+
qed

text \<open>The tokens of an input, and how it ends.\<close>

function lex :: "string \<Rightarrow> token list \<times> lex_end" where
  "lex [] = ([], LexDone)"
| "lex (c # cs) =
     (if is_json_space c then lex cs
      else (case scan_token c cs of
          ScanOk t r \<Rightarrow> (case lex r of (ts, e) \<Rightarrow> (t # ts, e))
        | ScanBad \<Rightarrow> ([], LexBad)
        | ScanCut \<Rightarrow> ([], LexCut)))"
  by pat_completeness auto
termination
  by (relation "measure length") (auto dest: scan_token_shorter)

section \<open>The parser\<close>

datatype frame = ArrFrame "json list" | ObjFrame "(string \<times> json) list" string

text \<open>
  What the parser expects next: a value; a value or the end of an array; a key or the end of an
  object; a key; a colon after a key; or what follows a finished value.
\<close>

datatype mode = WantValue | WantFirst | WantKeyFirst | WantKey "(string \<times> json) list"
  | WantColon "(string \<times> json) list" string | HaveValue json

datatype parse_result = ParseOk json "token list" | ParseBad | ParseMore

definition maxNestingDepth :: nat where
  "maxNestingDepth = 10000"

definition scalar :: "token \<Rightarrow> json option" where
  "scalar t = (case t of TStr s \<Rightarrow> Some (JStr s) | TNum n \<Rightarrow> Some (JNum n) | TTrue \<Rightarrow> Some (JBool True)
     | TFalse \<Rightarrow> Some (JBool False) | TNull \<Rightarrow> Some JNull | _ \<Rightarrow> None)"

definition open_frames :: "frame list \<Rightarrow> mode \<times> frame list \<Rightarrow> (mode \<times> frame list) option" where
  "open_frames fs next = (if length fs < maxNestingDepth then Some next else None)"

definition begin_value :: "frame list \<Rightarrow> token \<Rightarrow> (mode \<times> frame list) option" where
  "begin_value fs t =
     (case t of
        TLBrack \<Rightarrow> open_frames fs (WantFirst, ArrFrame [] # fs)
      | TLBrace \<Rightarrow> open_frames fs (WantKeyFirst, fs)
      | _ \<Rightarrow> map_option (\<lambda>v. (HaveValue v, fs)) (scalar t))"

definition end_value :: "json \<Rightarrow> frame list \<Rightarrow> token \<Rightarrow> (mode \<times> frame list) option" where
  "end_value v fs t =
     (case fs of
        ArrFrame vs # fs' \<Rightarrow>
          (case t of TComma \<Rightarrow> Some (WantValue, ArrFrame (vs @ [v]) # fs')
           | TRBrack \<Rightarrow> Some (HaveValue (JArr (vs @ [v])), fs')
           | _ \<Rightarrow> None)
      | ObjFrame ms k # fs' \<Rightarrow>
          (case t of TComma \<Rightarrow> Some (WantKey (ms @ [(k, v)]), fs')
           | TRBrace \<Rightarrow> Some (HaveValue (JObj (ms @ [(k, v)])), fs')
           | _ \<Rightarrow> None)
      | [] \<Rightarrow> None)"

text \<open>One token. An array or object opened past the nesting limit is an error.\<close>

definition jstep :: "mode \<Rightarrow> frame list \<Rightarrow> token \<Rightarrow> (mode \<times> frame list) option" where
  "jstep m fs t =
     (case m of
        WantValue \<Rightarrow> begin_value fs t
      | WantFirst \<Rightarrow> (if t = TRBrack then Some (HaveValue (JArr []), tl fs) else begin_value fs t)
      | WantKeyFirst \<Rightarrow> (case t of TStr k \<Rightarrow> Some (WantColon [] k, fs)
          | TRBrace \<Rightarrow> Some (HaveValue (JObj []), fs) | _ \<Rightarrow> None)
      | WantKey ms \<Rightarrow> (case t of TStr k \<Rightarrow> Some (WantColon ms k, fs) | _ \<Rightarrow> None)
      | WantColon ms k \<Rightarrow> (if t = TColon then Some (WantValue, ObjFrame ms k # fs) else None)
      | HaveValue v \<Rightarrow> end_value v fs t)"

definition finished :: "mode \<Rightarrow> frame list \<Rightarrow> json option" where
  "finished m fs = (case m of HaveValue v \<Rightarrow> if fs = [] then Some v else None | _ \<Rightarrow> None)"

text \<open>One value is read off the tokens; it is complete as soon as its last token is read.\<close>

primrec jrun :: "token list \<Rightarrow> mode \<Rightarrow> frame list \<Rightarrow> parse_result" where
  "jrun [] m fs = (case finished m fs of Some v \<Rightarrow> ParseOk v [] | None \<Rightarrow> ParseMore)"
| "jrun (t # ts) m fs =
     (case finished m fs of
        Some v \<Rightarrow> ParseOk v (t # ts)
      | None \<Rightarrow> (case jstep m fs t of None \<Rightarrow> ParseBad | Some (m', fs') \<Rightarrow> jrun ts m' fs'))"

text \<open>A whole text holds exactly one value; this is what \<open>Valid\<close> and \<open>Unmarshal\<close> require.\<close>

definition json_parse :: "string \<Rightarrow> json option" where
  "json_parse s = (case lex s of
      (ts, LexDone) \<Rightarrow> (case jrun ts WantValue [] of ParseOk v [] \<Rightarrow> Some v | _ \<Rightarrow> None)
    | _ \<Rightarrow> None)"

definition Valid :: "string \<Rightarrow> bool" where
  "Valid s \<longleftrightarrow> json_parse s \<noteq> None"

section \<open>Marshal\<close>

fun show_nat :: "nat \<Rightarrow> string" where
  "show_nat n = (if n < 10 then [char_of (48 + n)] else show_nat (n div 10) @ [char_of (48 + n mod 10)])"

declare show_nat.simps [simp del]

definition show_int :: "int \<Rightarrow> string" where
  "show_int i = (if i < 0 then ''-'' @ show_nat (nat (- i)) else show_nat (nat i))"

definition u_escape :: "nat \<Rightarrow> string" where
  "u_escape r = [backsl, CHR ''u'', lower_hex (r div 4096 mod 16), lower_hex (r div 256 mod 16),
     lower_hex (r div 16 mod 16), lower_hex (r mod 16)]"

text \<open>The text of one rune of a string; HTML-sensitive bytes are escaped.\<close>

definition quote_seg :: "nat \<times> string \<Rightarrow> string" where
  "quote_seg = (\<lambda>(r, bs).
     if r = 34 then [backsl, quote] else if r = 92 then [backsl, backsl]
     else if r = 8 then [backsl, CHR ''b''] else if r = 12 then [backsl, CHR ''f'']
     else if r = 10 then [backsl, CHR ''n''] else if r = 13 then [backsl, CHR ''r'']
     else if r = 9 then [backsl, CHR ''t'']
     else if r < 32 \<or> r = 60 \<or> r = 62 \<or> r = 38 then u_escape r
     else if r = rune_error \<and> length bs = 1 then u_escape rune_error
     else if r = 8232 \<or> r = 8233 then u_escape r
     else bs)"

definition quote_string :: "string \<Rightarrow> string" where
  "quote_string s = quote # concat (map quote_seg (segs s)) @ [quote]"

fun comma_sep :: "string list \<Rightarrow> string" where
  "comma_sep [] = []"
| "comma_sep [x] = x"
| "comma_sep (x # y # ys) = x @ '','' @ comma_sep (y # ys)"

fun Marshal :: "json \<Rightarrow> string" where
  "Marshal JNull = ''null''"
| "Marshal (JBool b) = (if b then ''true'' else ''false'')"
| "Marshal (JNum n) = n"
| "Marshal (JStr s) = quote_string s"
| "Marshal (JArr vs) = ''['' @ comma_sep (map Marshal vs) @ '']''"
| "Marshal (JObj ms) = ''{'' @ comma_sep (map (\<lambda>(k, v). quote_string k @ '':'' @ Marshal v) ms) @ ''}''"

text \<open>A Go map is written with its keys in order; a nil slice is written as null.\<close>

definition json_map :: "(string \<times> json) list \<Rightarrow> json" where
  "json_map kvs = JObj (sort_key fst kvs)"

definition json_int :: "int \<Rightarrow> json" where
  "json_int i = JNum (show_int i)"

section \<open>Unmarshal into a slice of strings\<close>

fun decode_strings :: "json list \<Rightarrow> string list option" where
  "decode_strings [] = Some []"
| "decode_strings (JStr s # vs) = map_option ((#) s) (decode_strings vs)"
| "decode_strings (JNull # vs) = map_option ((#) []) (decode_strings vs)"
| "decode_strings (_ # vs) = None"

definition Unmarshal_strings :: "json \<Rightarrow> string list option" where
  "Unmarshal_strings v = (case v of JArr vs \<Rightarrow> decode_strings vs | JNull \<Rightarrow> Some [] | _ \<Rightarrow> None)"

section \<open>Strings survive quoting\<close>

definition good_seg :: "nat \<times> string \<Rightarrow> bool" where
  "good_seg = (\<lambda>(r, bs). (\<exists>c. bs = [c] \<and> byte c < 128 \<and> r = byte c)
     \<or> (\<exists>c. bs = [c] \<and> 128 \<le> byte c \<and> r = rune_error)
     \<or> (\<exists>c t. bs = c # t \<and> t \<noteq> [] \<and> multibyte c t r (length t)))"

lemma multibyte_take: "multibyte c cs r n \<Longrightarrow> multibyte c (take n cs) r n"
  by (auto simp: multibyte_def)

lemma segs_good: "x \<in> set (segs s) \<Longrightarrow> good_seg x"
proof (induction s rule: segs.induct)
  case 1
  then show ?case by simp
next
  case (2 c cs)
  obtain r n where d: "decode_rune c cs = (r, n)" by (cases "decode_rune c cs")
  have "good_seg (r, c # take n cs)"
  proof (cases "multibyte c cs r n")
    case True
    then have "length (take n cs) = n" "take n cs \<noteq> []" by (auto simp: multibyte_def)
    with multibyte_take[OF True] show ?thesis by (simp add: good_seg_def)
  next
    case False
    with decode_rune_cases[OF d] show ?thesis by (auto simp: good_seg_def)
  qed
  with 2 d show ?case by auto
qed

text \<open>A string with each of its runes encoded again: every invalid byte becomes U+FFFD.\<close>

definition coerce :: "string \<Rightarrow> string" where
  "coerce s = concat (map encode_rune (runes s))"

definition valid_utf8 :: "string \<Rightarrow> bool" where
  "valid_utf8 s \<longleftrightarrow> list_all (\<lambda>(r, bs). \<not> (r = rune_error \<and> length bs = 1)) (segs s)"

lemma good_seg_encode:
  assumes "good_seg (r, bs)" and "\<not> (r = rune_error \<and> length bs = 1)"
  shows "encode_rune r = bs"
  using assms by (auto simp: good_seg_def encode_rune_def) (auto simp: multibyte_def encode_rune_def)

lemma coerce_valid: "valid_utf8 s \<Longrightarrow> coerce s = s"
proof -
  assume v: "valid_utf8 s"
  have "map (encode_rune \<circ> fst) (segs s) = map snd (segs s)"
  proof (rule map_cong[OF refl])
    fix x assume x: "x \<in> set (segs s)"
    with v segs_good[OF x] show "(encode_rune \<circ> fst) x = snd x"
      by (cases x) (auto simp: valid_utf8_def list_all_iff good_seg_encode)
  qed
  then show "coerce s = s"
    using segs_join[of s] by (simp add: coerce_def runes_def del: map_eq_conv)
qed

lemma ascii_valid_utf8: "is_ascii s \<Longrightarrow> valid_utf8 s"
  by (simp add: valid_utf8_def segs_ascii list_all_iff is_ascii_def rune_error_def) fastforce

lemma lower_hex:
  assumes "n < 16"
  shows "is_hex (lower_hex n) \<and> unhex (lower_hex n) = n"
proof -
  have "list_all (\<lambda>n. is_hex (lower_hex n) \<and> unhex (lower_hex n) = n) [0..<16]" by code_simp
  with assms show ?thesis by (auto simp: list_all_iff)
qed

lemma four_digits:
  fixes r q0 q1 q2 m0 m1 m2 :: nat
  assumes "m0 + 16 * q0 = r" "m1 + 16 * q1 = q0" "m2 + 16 * q2 = q1"
  shows "((q2 * 16 + m2) * 16 + m1) * 16 + m0 = r"
  using assms by simp

lemma getu4_u_escape:
  assumes "r < 65536"
  shows "getu4 (u_escape r @ rest) = Some r"
proof -
  have "r div 256 div 16 = r div 4096" "r div 16 div 16 = r div 256"
    by (simp_all add: div_mult2_eq[symmetric])
  then have "((r div 4096 * 16 + r div 256 mod 16) * 16 + r div 16 mod 16) * 16 + r mod 16 = r"
    using four_digits[OF mod_mult_div_eq, of "r div 16 mod 16" "r div 256" r "r div 256 mod 16" "r div 4096"]
      mod_mult_div_eq[of "r div 16" 16] mod_mult_div_eq[of "r div 256" 16] by metis
  moreover have "r div 4096 mod 16 = r div 4096" using assms by simp
  moreover have "r div 4096 < 16" using assms by simp
  ultimately have "hex4 (lower_hex (r div 4096 mod 16)) (lower_hex (r div 256 mod 16))
      (lower_hex (r div 16 mod 16)) (lower_hex (r mod 16)) = r"
    using lower_hex[of "r div 4096"] lower_hex[of "r div 256 mod 16"] lower_hex[of "r div 16 mod 16"]
      lower_hex[of "r mod 16"] by (simp add: hex4_def)
  then show ?thesis
    using lower_hex by (simp add: getu4_def u_escape_def)
qed

lemma scan_u_escape:
  "scan_str (u_escape r @ rest) = scan_map ((@) (u_escape r)) (scan_str rest)"
proof -
  have "CHR ''u'' \<notin> set simple_escapes" "backsl \<noteq> quote" by code_simp+
  then show ?thesis
    using lower_hex by (cases "scan_str rest") (simp_all add: u_escape_def scan_escape_def)
qed

lemma unquote_u_escape:
  assumes "r < 65536" "\<not> is_surrogate r"
  shows "unquote (u_escape r @ rest) = encode_rune r @ unquote rest"
  using getu4_u_escape[OF assms(1), of rest] assms(2) by (simp add: u_escape_def)

lemma scan_simple:
  assumes "e \<in> set simple_escapes"
  shows "scan_str (backsl # e # rest) = scan_map ((@) [backsl, e]) (scan_str rest)"
    and "unquote (backsl # e # rest) = unescape_simple e # unquote rest"
proof -
  have "backsl \<noteq> quote" "CHR ''u'' \<notin> set simple_escapes" by code_simp+
  moreover from this assms have "e \<noteq> CHR ''u''" by metis
  then have "getu4 (backsl # e # rest) = None" by (auto simp: getu4_def split: list.splits)
  ultimately show "scan_str (backsl # e # rest) = scan_map ((@) [backsl, e]) (scan_str rest)"
    "unquote (backsl # e # rest) = unescape_simple e # unquote rest"
    using assms by (cases "scan_str rest"; simp add: scan_escape_def)+
qed

lemma scan_map_append: "scan_map ((@) [c]) x = scan_map ((#) c) x"
  by (cases x) simp_all

lemma scan_plain:
  assumes "c \<noteq> quote" "c \<noteq> backsl" "32 \<le> byte c"
  shows "scan_str (c # rest) = scan_map ((#) c) (scan_str rest)"
  using assms by simp

lemma scan_plains:
  assumes "\<forall>c \<in> set bs. 128 \<le> byte c"
  shows "scan_str (bs @ rest) = scan_map ((@) bs) (scan_str rest)"
  using assms
proof (induction bs)
  case Nil
  then show ?case by (cases "scan_str rest") simp_all
next
  case (Cons c bs)
  then have "c \<noteq> quote" "c \<noteq> backsl" by (auto simp: quote_def backsl_def)
  with Cons show ?case by (cases "scan_str rest") (auto simp: scan_plain)
qed

definition seg_ok :: "nat \<times> string \<Rightarrow> bool" where
  "seg_ok x \<longleftrightarrow> (\<forall>rest. scan_str (quote_seg x @ rest) = scan_map ((@) (quote_seg x)) (scan_str rest)
     \<and> unquote (quote_seg x @ rest) = encode_rune (fst x) @ unquote rest)"

lemma seg_ok_u: "quote_seg x = u_escape (fst x) \<Longrightarrow> fst x < 65536 \<Longrightarrow> \<not> is_surrogate (fst x) \<Longrightarrow> seg_ok x"
  by (simp add: seg_ok_def scan_u_escape unquote_u_escape del: scan_str.simps unquote.simps)

lemma seg_ok_simple:
  "quote_seg x = [backsl, e] \<Longrightarrow> e \<in> set simple_escapes \<Longrightarrow> encode_rune (fst x) = [unescape_simple e] \<Longrightarrow> seg_ok x"
  using scan_simple by (simp add: seg_ok_def del: scan_str.simps unquote.simps)

lemma seg_ok_escaped:
  assumes "byte c \<in> {34, 92, 8, 12, 10, 13, 9}"
  shows "seg_ok (byte c, [c])"
proof -
  have "\<exists>e. quote_seg (n, bs) = [backsl, e] \<and> e \<in> set simple_escapes \<and> encode_rune n = [unescape_simple e]"
    if "n \<in> {34, 92, 8, 12, 10, 13, 9}" for n bs
  proof -
    have "list_all (\<lambda>(n, e). e \<in> set simple_escapes \<and> encode_rune n = [unescape_simple e])
      [(34, quote), (92, backsl), (8, CHR ''b''), (12, CHR ''f''), (10, CHR ''n''), (13, CHR ''r''), (9, CHR ''t'')]"
      by code_simp
    with that show ?thesis unfolding quote_seg_def by auto
  qed
  from this[OF assms, of "[c]"] show ?thesis using seg_ok_simple[of "(byte c, [c])"] by auto
qed

lemma good_seg_ok:
  assumes "good_seg x"
  shows "seg_ok x"
proof -
  obtain r bs where x: "x = (r, bs)" by (cases x)
  have err: "\<not> is_surrogate rune_error" "rune_error < 65536" by code_simp+
  from assms consider (ascii) c where "bs = [c]" "byte c < 128" "r = byte c"
    | (bad) c where "bs = [c]" "128 \<le> byte c" "r = rune_error"
    | (multi) c t where "bs = c # t" "t \<noteq> []" "multibyte c t r (length t)"
    by (auto simp: good_seg_def x)
  then show ?thesis
  proof cases
    case ascii
    consider "byte c \<in> {34, 92, 8, 12, 10, 13, 9}"
      | "byte c \<notin> {34, 92, 8, 12, 10, 13, 9}" "byte c < 32 \<or> byte c \<in> {60, 62, 38}"
      | "byte c \<notin> {34, 92, 60, 62, 38}" "32 \<le> byte c"
      by fastforce
    then show ?thesis
    proof cases
      case 1
      with seg_ok_escaped ascii show ?thesis by (simp add: x)
    next
      case 2
      then have "quote_seg x = u_escape r" by (auto simp: x ascii quote_seg_def)
      with ascii x seg_ok_u[of x] show ?thesis by (simp add: is_surrogate_def)
    next
      case 3
      then have "c \<noteq> quote" "c \<noteq> backsl" by (auto simp: quote_def backsl_def)
      moreover have "quote_seg x = [c]"
        using 3 ascii by (auto simp: x quote_seg_def rune_error_def)
      moreover have "encode_rune (byte c) = [c]" using ascii by (simp add: encode_rune_def)
      ultimately show ?thesis
        using 3 ascii scan_map_append[of c]
        by (simp add: seg_ok_def x scan_plain del: scan_str.simps)
    qed
  next
    case bad
    have "quote_seg x = u_escape rune_error" by (simp add: x bad quote_seg_def rune_error_def)
    with err show ?thesis by (intro seg_ok_u) (simp_all add: x bad)
  next
    case multi
    then have m: "128 \<le> byte c" "\<forall>y \<in> set t. 128 \<le> byte y" "128 \<le> r" "encode_rune r = c # t"
      "\<And>rest. decode_rune c (t @ rest) = (r, length t)" by (auto simp: multibyte_def)
    show ?thesis
    proof (cases "r = 8232 \<or> r = 8233")
      case True
      then have "quote_seg x = u_escape r" by (auto simp: x quote_seg_def rune_error_def)
      then show ?thesis using True by (intro seg_ok_u) (auto simp: x is_surrogate_def)
    next
      case False
      with m(3) multi(1,2) have q: "quote_seg x = c # t" by (auto simp: x quote_seg_def)
      have "c \<noteq> backsl" using m(1) by (auto simp: backsl_def)
      with m q scan_plains[of "c # t"] show ?thesis
        by (auto simp: seg_ok_def x simp del: scan_str.simps)
    qed
  qed
qed

lemma quote_body:
  assumes "\<forall>x \<in> set xs. seg_ok x"
  shows "scan_str (concat (map quote_seg xs) @ quote # rest) = ScanOk (concat (map quote_seg xs)) rest"
    and "unquote (concat (map quote_seg xs)) = concat (map (encode_rune \<circ> fst) xs)"
  using assms by (induction xs) (auto simp: seg_ok_def simp del: scan_str.simps(2) unquote.simps(2),
    auto simp: scan_str.simps(2))

lemma lex_quoted:
  "lex (quote_string s @ rest) = (case lex rest of (ts, e) \<Rightarrow> (TStr (coerce s) # ts, e))"
proof -
  have "\<forall>x \<in> set (segs s). seg_ok x" using segs_good good_seg_ok by blast
  note b = quote_body[OF this]
  have "\<not> is_json_space quote" "punct quote = None" by code_simp+
  with b(1)[of rest] b(2) show ?thesis
    by (simp add: quote_string_def scan_token_def coerce_def runes_def del: scan_str.simps)
qed


section \<open>Numbers survive\<close>

definition num_stop :: "string \<Rightarrow> bool" where
  "num_stop rest \<longleftrightarrow> (case rest of [] \<Rightarrow> True
     | c # _ \<Rightarrow> \<not> is_digit c \<and> c \<noteq> CHR ''.'' \<and> c \<noteq> CHR ''e'' \<and> c \<noteq> CHR ''E'')"

text \<open>The texts of integers: an optional minus sign, digits, no leading zero.\<close>

definition int_text :: "string \<Rightarrow> bool" where
  "int_text n \<longleftrightarrow> (let ds = (if HasPrefix n ''-'' then tl n else n) in
     ds \<noteq> [] \<and> list_all is_digit ds \<and> (hd ds = CHR ''0'' \<longrightarrow> tl ds = []))"

lemma scan_digits_append:
  "ds \<noteq> [] \<Longrightarrow> list_all is_digit ds \<Longrightarrow> num_stop rest \<Longrightarrow> scan_digits (ds @ rest) = ScanOk ds rest"
proof -
  assume ds: "ds \<noteq> []" "list_all is_digit ds" "num_stop rest"
  have "takeWhile is_digit rest = []" using ds(3) by (auto simp: num_stop_def split: list.splits)
  then have "takeWhile is_digit (ds @ rest) = ds"
    using ds(2) by (simp add: list_all_iff takeWhile_append2)
  with ds(1) show ?thesis by (simp add: scan_digits_def Let_def)
qed

lemma scan_int_append:
  assumes "ds \<noteq> []" "list_all is_digit ds" "hd ds = CHR ''0'' \<longrightarrow> tl ds = []" "num_stop rest"
  shows "scan_int (ds @ rest) = ScanOk ds rest"
  using assms scan_digits_append[OF assms(1,2,4)] by (cases ds) (auto simp: scan_int_def)

lemma scan_frac_exp_stop: "num_stop rest \<Longrightarrow> scan_frac rest = ScanOk [] rest \<and> scan_exp rest = ScanOk [] rest"
  by (auto simp: num_stop_def scan_frac_def scan_exp_def split: list.splits)

lemma digit_not_minus: "list_all is_digit ds \<Longrightarrow> \<not> HasPrefix (ds @ rest) ''-'' \<or> ds = []"
  by (cases ds) (auto simp: HasPrefix_def is_digit_def byte_in_def byte_def)

lemma scan_num_append:
  assumes "int_text n" "num_stop rest"
  shows "scan_num (n @ rest) = ScanOk n rest"
proof (cases "HasPrefix n ''-''")
  case True
  then obtain ds where n: "n = CHR ''-'' # ds" by (auto simp: HasPrefix_iff)
  with assms(1) True scan_int_append[of ds rest] assms(2) scan_frac_exp_stop[OF assms(2)] show ?thesis
    by (simp add: int_text_def Let_def scan_num_def HasPrefix_def)
next
  case False
  with assms digit_not_minus[of n rest] scan_int_append[of n rest] scan_frac_exp_stop[OF assms(2)]
  show ?thesis by (auto simp: int_text_def Let_def scan_num_def)
qed

lemma int_text_Cons:
  assumes "int_text n"
  obtains c cs where "n = c # cs" "c = CHR ''-'' \<or> is_digit c"
proof (cases n)
  case Nil
  with assms show ?thesis by (simp add: int_text_def HasPrefix_def)
next
  case (Cons c cs)
  with assms that show ?thesis by (auto simp: int_text_def HasPrefix_def Let_def split: if_splits)
qed

lemma num_char:
  assumes "c = CHR ''-'' \<or> is_digit c"
  shows "\<not> is_json_space c" "punct c = None" "c \<noteq> quote" "c \<noteq> CHR ''t''" "c \<noteq> CHR ''f''" "c \<noteq> CHR ''n''"
proof -
  have "CHR ''-'' \<noteq> quote" by code_simp
  then show "\<not> is_json_space c" "punct c = None" "c \<noteq> quote" "c \<noteq> CHR ''t''" "c \<noteq> CHR ''f''"
      "c \<noteq> CHR ''n''"
    using assms by (auto simp: is_json_space_def punct_def quote_def is_digit_def byte_in_def byte_def)
qed

lemma lex_num:
  assumes "int_text n" "num_stop rest"
  shows "lex (n @ rest) = (case lex rest of (ts, e) \<Rightarrow> (TNum n # ts, e))"
proof -
  from int_text_Cons[OF assms(1)] obtain c cs where n: "n = c # cs" and c: "c = CHR ''-'' \<or> is_digit c" .
  have "scan_token c (cs @ rest) = ScanOk (TNum n) rest"
    using num_char[OF c] c scan_num_append[OF assms] by (simp add: scan_token_def n)
  with num_char(1)[OF c] show ?thesis by (simp add: n)
qed

lemma show_nat_digits: "show_nat n \<noteq> [] \<and> list_all is_digit (show_nat n)
   \<and> (n \<noteq> 0 \<longrightarrow> hd (show_nat n) \<noteq> CHR ''0'')"
proof (induction n rule: show_nat.induct)
  case (1 n)
  have dig: "is_digit (char_of (48 + d))" "d \<noteq> 0 \<Longrightarrow> char_of (48 + d) \<noteq> CHR ''0''" if "d < 10" for d :: nat
  proof -
    have "list_all (\<lambda>d. is_digit (char_of (48 + d)) \<and> (d \<noteq> 0 \<longrightarrow> char_of (48 + d) \<noteq> CHR ''0'')) [0..<10]"
      by code_simp
    with that show "is_digit (char_of (48 + d))" "d \<noteq> 0 \<Longrightarrow> char_of (48 + d) \<noteq> CHR ''0''"
      by (auto simp: list_all_iff)
  qed
  show ?case
  proof (cases "n < 10")
    case True
    with dig[of n] show ?thesis by (simp add: show_nat.simps[of n])
  next
    case False
    with "1.IH" dig(1)[of "n mod 10"] show ?thesis by (simp add: show_nat.simps[of n])
  qed
qed

lemma show_int_text: "int_text (show_int i)"
proof -
  have z: "show_nat 0 = ''0''" by code_simp
  show ?thesis
  proof (cases "i < 0")
    case True
    then show ?thesis
      using show_nat_digits[of "nat (- i)"] by (simp add: show_int_def int_text_def HasPrefix_def)
  next
    case False
    have "\<not> HasPrefix (show_nat (nat i)) ''-''"
      using digit_not_minus[of "show_nat (nat i)" "[]"] show_nat_digits[of "nat i"] by auto
    with False show ?thesis
      using show_nat_digits[of "nat i"] z by (cases "nat i = 0") (simp_all add: show_int_def int_text_def HasPrefix_def)
  qed
qed


section \<open>A marshalled value parses back\<close>

text \<open>The tokens of a marshalled value, and the value with its strings coerced to UTF-8.\<close>

fun comma_toks :: "token list list \<Rightarrow> token list" where
  "comma_toks [] = []"
| "comma_toks [x] = x"
| "comma_toks (x # y # ys) = x @ TComma # comma_toks (y # ys)"

fun toks :: "json \<Rightarrow> token list" where
  "toks JNull = [TNull]"
| "toks (JBool b) = [if b then TTrue else TFalse]"
| "toks (JNum n) = [TNum n]"
| "toks (JStr s) = [TStr (coerce s)]"
| "toks (JArr vs) = TLBrack # comma_toks (map toks vs) @ [TRBrack]"
| "toks (JObj ms) = TLBrace # comma_toks (map (\<lambda>(k, v). TStr (coerce k) # TColon # toks v) ms) @ [TRBrace]"

fun utf8_json :: "json \<Rightarrow> json" where
  "utf8_json JNull = JNull"
| "utf8_json (JBool b) = JBool b"
| "utf8_json (JNum n) = JNum n"
| "utf8_json (JStr s) = JStr (coerce s)"
| "utf8_json (JArr vs) = JArr (map utf8_json vs)"
| "utf8_json (JObj ms) = JObj (map (\<lambda>(k, v). (coerce k, utf8_json v)) ms)"

text \<open>A value with \<open>d\<close> frames open around it: integers for numbers, nesting within the limit.\<close>

fun encodable :: "nat \<Rightarrow> json \<Rightarrow> bool" where
  "encodable d (JNum n) \<longleftrightarrow> int_text n"
| "encodable d (JArr vs) \<longleftrightarrow> d < maxNestingDepth \<and> (\<forall>v \<in> set vs. encodable (Suc d) v)"
| "encodable d (JObj ms) \<longleftrightarrow> d < maxNestingDepth \<and> (\<forall>m \<in> set ms. encodable (Suc d) (snd m))"
| "encodable d JNull \<longleftrightarrow> True"
| "encodable d (JBool b) \<longleftrightarrow> True"
| "encodable d (JStr s) \<longleftrightarrow> True"

definition lexes :: "string \<Rightarrow> token list \<Rightarrow> bool" where
  "lexes s ts \<longleftrightarrow> (\<forall>rest. num_stop rest \<longrightarrow> lex (s @ rest) = (case lex rest of (us, e) \<Rightarrow> (ts @ us, e)))"

lemma lex_punct: "punct c = Some t \<Longrightarrow> \<not> is_json_space c \<Longrightarrow> lex (c # rest) = (case lex rest of (us, e) \<Rightarrow> (t # us, e))"
  by (simp add: scan_token_def)

lemma lex_puncts:
  "lex (CHR ''['' # rest) = (case lex rest of (us, e) \<Rightarrow> (TLBrack # us, e))"
  "lex (CHR '']'' # rest) = (case lex rest of (us, e) \<Rightarrow> (TRBrack # us, e))"
  "lex (CHR ''{'' # rest) = (case lex rest of (us, e) \<Rightarrow> (TLBrace # us, e))"
  "lex (CHR ''}'' # rest) = (case lex rest of (us, e) \<Rightarrow> (TRBrace # us, e))"
  "lex (CHR '','' # rest) = (case lex rest of (us, e) \<Rightarrow> (TComma # us, e))"
  "lex (CHR '':'' # rest) = (case lex rest of (us, e) \<Rightarrow> (TColon # us, e))"
  by (rule lex_punct; simp add: punct_def is_json_space_def byte_def)+

lemma num_stop_puncts [simp]:
  "num_stop []" "num_stop (CHR '']'' # rest)" "num_stop (CHR ''}'' # rest)" "num_stop (CHR '','' # rest)"
  by (simp_all add: num_stop_def is_digit_def byte_in_def byte_def)

lemma lexes_comma:
  assumes "list_all2 lexes xs ys"
  shows "lexes (comma_sep xs) (comma_toks ys)"
  using assms
proof (induction xs arbitrary: ys rule: comma_sep.induct)
  case 1
  then show ?case by (simp add: lexes_def)
next
  case (2 x)
  then show ?case by (auto simp: list_all2_Cons1)
next
  case (3 x x' xs)
  then obtain y y' zs where ys: "ys = y # y' # zs" "lexes x y" "list_all2 lexes (x' # xs) (y' # zs)"
    by (auto simp: list_all2_Cons1)
  with "3.IH"[OF ys(3)] show ?case
    by (auto simp: lexes_def lex_puncts simp del: lex.simps split: prod.splits)
qed

lemma scan_lit_append: "scan_lit lit t (lit @ rest) = ScanOk t rest"
  by (simp add: scan_lit_def)

lemma lexes_lits:
  "lexes ''null'' [TNull]" "lexes ''true'' [TTrue]" "lexes ''false'' [TFalse]"
proof -
  have c: "list_all (\<lambda>c. punct c = None \<and> c \<noteq> quote \<and> \<not> is_json_space c) ''ntf''" by code_simp
  then have "scan_token CHR ''n'' (''ull'' @ rest) = ScanOk TNull rest"
    "scan_token CHR ''t'' (''rue'' @ rest) = ScanOk TTrue rest"
    "scan_token CHR ''f'' (''alse'' @ rest) = ScanOk TFalse rest" for rest
    using scan_lit_append[of "''null''" TNull rest] scan_lit_append[of "''true''" TTrue rest]
      scan_lit_append[of "''false''" TFalse rest] by (simp_all add: scan_token_def)
  with c show "lexes ''null'' [TNull]" "lexes ''true'' [TTrue]" "lexes ''false'' [TFalse]"
    by (simp_all add: lexes_def)
qed

lemma lexes_Marshal: "encodable d v \<Longrightarrow> lexes (Marshal v) (toks v)"
proof (induction d v rule: encodable.induct)
  case (1 d n)
  then show ?case using lex_num by (simp add: lexes_def)
next
  case (2 d vs)
  then have "list_all2 lexes (map Marshal vs) (map toks vs)"
    by (simp add: list_all2_map1 list_all2_map2 list_all2_same)
  from lexes_comma[OF this] show ?case
    by (auto simp: lexes_def lex_puncts simp del: lex.simps split: prod.splits)
next
  case (3 d ms)
  have "lexes (quote_string (fst m) @ '':'' @ Marshal (snd m)) (TStr (coerce (fst m)) # TColon # toks (snd m))"
    if "m \<in> set ms" for m
    using 3 that by (auto simp: lexes_def lex_quoted lex_puncts simp del: lex.simps split: prod.splits)
  then have "list_all2 lexes (map (\<lambda>(k, v). quote_string k @ '':'' @ Marshal v) ms)
      (map (\<lambda>(k, v). TStr (coerce k) # TColon # toks v) ms)"
    by (simp add: list_all2_map1 list_all2_map2 list_all2_same split_beta)
  from lexes_comma[OF this] show ?case
    by (auto simp: lexes_def lex_puncts simp del: lex.simps split: prod.splits)
next
  case (4 d)
  then show ?case by (simp add: lexes_lits)
next
  case (5 d b)
  then show ?case by (simp add: lexes_lits)
next
  case (6 d s)
  then show ?case using lex_quoted by (simp add: lexes_def)
qed

text \<open>Running the parser over the tokens of a value leaves the value, whatever follows.\<close>

definition runs :: "nat \<Rightarrow> token list \<Rightarrow> json \<Rightarrow> bool" where
  "runs d ts v \<longleftrightarrow> (\<forall>fs us. length fs = d \<longrightarrow> jrun (ts @ us) WantValue fs = jrun us (HaveValue v) fs)"

lemma finished_simps [simp]:
  "finished WantValue fs = None" "finished WantFirst fs = None" "finished WantKeyFirst fs = None"
  "finished (WantKey ms) fs = None" "finished (WantColon ms k) fs = None"
  "finished (HaveValue v) (f # fs) = None" "finished (HaveValue v) [] = Some v"
  by (simp_all add: finished_def)

lemma jstep_simps [simp]:
  "jstep WantValue fs t = begin_value fs t"
  "jstep (HaveValue v) fs t = end_value v fs t"
  by (simp_all add: jstep_def)

lemma begin_first: "begin_value fs t = Some x \<Longrightarrow> jstep WantFirst fs t = begin_value fs t"
  by (auto simp: jstep_def begin_value_def scalar_def)

lemma run_elems:
  assumes "length fs = d" "\<forall>(ts, v) \<in> set tvs. runs (Suc d) ts v" "tvs \<noteq> []"
  shows "jrun (comma_toks (map fst tvs) @ TRBrack # us) WantValue (ArrFrame vs # fs)
     = jrun us (HaveValue (JArr (vs @ map snd tvs))) fs"
  using assms(2,3)
proof (induction tvs arbitrary: vs rule: induct_list012)
  case 1
  then show ?case by simp
next
  case (2 x)
  with assms(1) show ?case by (cases x) (simp add: runs_def end_value_def)
next
  case (3 x y zs)
  obtain ts v where x: "x = (ts, v)" by (cases x)
  with 3 assms(1) have "jrun (ts @ us') WantValue (ArrFrame vs # fs) = jrun us' (HaveValue v) (ArrFrame vs # fs)" for us'
    by (simp add: runs_def)
  with "3.IH"(2)[of "vs @ [v]"] "3.prems" x show ?case by (simp add: end_value_def)
qed

lemma run_members:
  assumes "length fs = d" "\<forall>(k, ts, v) \<in> set tvs. runs (Suc d) ts v" "tvs \<noteq> []"
    "m = WantKey ms \<or> m = WantKeyFirst \<and> ms = []"
  shows "jrun (comma_toks (map (\<lambda>(k, ts, v). TStr k # TColon # ts) tvs) @ TRBrace # us) m fs
     = jrun us (HaveValue (JObj (ms @ map (\<lambda>(k, ts, v). (k, v)) tvs))) fs"
  using assms(2-4)
proof (induction tvs arbitrary: m ms rule: induct_list012)
  case 1
  then show ?case by simp
next
  case (2 x)
  with assms(1) show ?case by (cases x) (auto simp: runs_def end_value_def jstep_def)
next
  case (3 x y zs)
  obtain k ts v where x: "x = (k, ts, v)" by (cases x)
  with 3 assms(1) have "jrun (ts @ us') WantValue (ObjFrame ms k # fs) = jrun us' (HaveValue v) (ObjFrame ms k # fs)" for us'
    by (simp add: runs_def)
  with "3.IH"(2)[of "WantKey (ms @ [(k, v)])" "ms @ [(k, v)]"] "3.prems" x show ?case
    by (auto simp: end_value_def jstep_def)
qed


lemma begin_scalar:
  "t \<noteq> TLBrack \<Longrightarrow> t \<noteq> TLBrace \<Longrightarrow> scalar t = Some v \<Longrightarrow> begin_value fs t = Some (HaveValue v, fs)"
  by (auto simp: begin_value_def split: token.splits)

lemma runs_scalar: "t \<noteq> TLBrack \<Longrightarrow> t \<noteq> TLBrace \<Longrightarrow> scalar t = Some v \<Longrightarrow> runs d [t] v"
  by (simp add: runs_def begin_scalar)

lemma comma_toks_first:
  assumes "\<forall>x \<in> set xs. x \<noteq> [] \<and> hd x \<noteq> TRBrack" "xs \<noteq> []"
  obtains t r where "comma_toks xs = t # r" "t \<noteq> TRBrack"
  using assms by (cases xs rule: comma_toks.cases) (auto simp: neq_Nil_conv)

lemma toks_first: "toks v \<noteq> [] \<and> hd (toks v) \<noteq> TRBrack"
  by (cases v) auto

lemma run_first:
  assumes "t \<noteq> TRBrack"
  shows "jrun (t # ts) WantFirst fs = jrun (t # ts) WantValue fs"
  using assms by (simp add: jstep_def[of WantFirst])

lemma runs_toks: "encodable d v \<Longrightarrow> runs d (toks v) (utf8_json v)"
proof (induction d v rule: encodable.induct)
  case (1 d n)
  then show ?case by (simp add: runs_scalar scalar_def)
next
  case (2 d vs)
  show ?case
  proof (cases "vs = []")
    case True
    with 2 show ?thesis by (simp add: runs_def begin_value_def open_frames_def jstep_def[of WantFirst])
  next
    case False
    have "jrun (comma_toks (map toks vs) @ TRBrack # us) WantFirst (ArrFrame [] # fs)
        = jrun us (HaveValue (JArr (map utf8_json vs))) fs" if "length fs = d" for fs us
    proof -
      have "\<forall>x \<in> set (map toks vs). x \<noteq> [] \<and> hd x \<noteq> TRBrack" using toks_first by auto
      from comma_toks_first[OF this] False obtain t r where
        t: "comma_toks (map toks vs) = t # r" "t \<noteq> TRBrack" by auto
      have "\<forall>(ts, v) \<in> set (map (\<lambda>v. (toks v, utf8_json v)) vs). runs (Suc d) ts v"
        using 2 by auto
      from run_elems[OF that this, of us "[]"] False t run_first[OF t(2)] show ?thesis
        by (simp add: comp_def)
    qed
    with 2 show ?thesis by (simp add: runs_def begin_value_def open_frames_def)
  qed
next
  case (3 d ms)
  show ?case
  proof (cases "ms = []")
    case True
    with 3 show ?thesis by (simp add: runs_def begin_value_def open_frames_def jstep_def[of WantKeyFirst])
  next
    case False
    let ?tvs = "map (\<lambda>(k, v). (coerce k, toks v, utf8_json v)) ms"
    have "jrun (comma_toks (map (\<lambda>(k, v). TStr (coerce k) # TColon # toks v) ms) @ TRBrace # us) WantKeyFirst fs
        = jrun us (HaveValue (JObj (map (\<lambda>(k, v). (coerce k, utf8_json v)) ms))) fs"
      if "length fs = d" for fs us
    proof -
      have "\<forall>(k, ts, v) \<in> set ?tvs. runs (Suc d) ts v" using 3 by fastforce
      from run_members[OF that this, of WantKeyFirst "[]" us] False show ?thesis
        by (simp add: comp_def split_def)
    qed
    with 3 show ?thesis by (simp add: runs_def begin_value_def open_frames_def)
  qed
next
  case (4 d)
  then show ?case by (simp add: runs_scalar scalar_def)
next
  case (5 d b)
  then show ?case by (simp add: runs_scalar scalar_def)
next
  case (6 d s)
  then show ?case by (simp add: runs_scalar scalar_def)
qed

lemma parse_Marshal:
  assumes "encodable 0 v"
  shows "json_parse (Marshal v) = Some (utf8_json v)"
proof -
  have "lex (Marshal v) = (toks v, LexDone)"
    using lexes_Marshal[OF assms] by (simp add: lexes_def) (metis append_Nil2 case_prod_conv lex.simps(1) num_stop_puncts(1))
  moreover have "jrun (toks v) WantValue [] = ParseOk (utf8_json v) []"
    using runs_toks[OF assms] by (simp add: runs_def) (metis append_Nil2 finished_simps(7) jrun.simps(1) option.simps(5))
  ultimately show ?thesis by (simp add: json_parse_def)
qed

lemma Marshal_Valid: "encodable 0 v \<Longrightarrow> Valid (Marshal v)"
  by (simp add: Valid_def parse_Marshal)

lemma decode_strings_JStr: "decode_strings (map JStr ss) = Some ss"
  by (induction ss) simp_all

lemma Unmarshal_JStr [simp]: "Unmarshal_strings (JArr (map JStr ss)) = Some ss"
  by (simp add: Unmarshal_strings_def decode_strings_JStr)

lemma encodable_json_map:
  "d < maxNestingDepth \<Longrightarrow> \<forall>(k, v) \<in> set kvs. encodable (Suc d) v \<Longrightarrow> encodable d (json_map kvs)"
  by (auto simp: json_map_def)

lemma encodable_json_int [simp]: "encodable d (json_int i)"
  by (simp add: json_int_def show_int_text)

lemma Marshal_json_map_not_Nil [simp]: "Marshal (json_map kvs) \<noteq> []"
  by (simp add: json_map_def)

end
