(* ===== verification/Database.thy ===== *)
theory Database
  imports GoJson
begin

text \<open>
  The PostgreSQL side of the program: the tables of \<open>db/migrations\<close> with their constraints, one
  statement, and a transaction. The text of each statement is translated in the theory of the
  component that issues it; here is what the statements share.

  What PostgreSQL does beyond the text of the statements is a parameter of the model, a record
  \<open>pg\<close> of functions of a counter that every round trip to the server advances: which round
  trips fail (a lost connection, a deadline), which UUID \<open>gen_random_uuid()\<close> gives, what the
  clock says, and how a commit ends. A commit may be applied, may be refused, or may be
  applied with its acknowledgement lost, which the client sees as an error.

  Transactions are serialised: no other client's commit falls between two statements of a
  transaction. Within one transaction the row lock of \<open>FOR UPDATE\<close> gives the program the same for
  the rows it updates.
\<close>

section \<open>Service behaviour\<close>

datatype commit_outcome = Committed | Aborted | AckLost

record pg =
  pg_fault :: "nat \<Rightarrow> bool"
  pg_uuid :: "nat \<Rightarrow> string"
  pg_now :: "nat \<Rightarrow> int"
  pg_commit :: "nat \<Rightarrow> commit_outcome"

text \<open>An error of the server carries its SQLSTATE; \<open>pgx.ErrNoRows\<close> is the driver's.\<close>

datatype pg_error = SqlState string | ConnFailed | NoRows

definition unique_violation :: pg_error where "unique_violation = SqlState ''23505''"
definition fk_violation :: pg_error where "fk_violation = SqlState ''23503''"
definition check_violation :: pg_error where "check_violation = SqlState ''23514''"
definition invalid_text :: pg_error where "invalid_text = SqlState ''22P02''"
definition bad_encoding :: pg_error where "bad_encoding = SqlState ''22021''"
definition out_of_range :: pg_error where "out_of_range = SqlState ''22003''"

lemmas sqlstate_defs = unique_violation_def fk_violation_def check_violation_def invalid_text_def
  bad_encoding_def out_of_range_def

section \<open>Input of values\<close>

text \<open>
  \<open>$1::uuid\<close>: 32 hexadecimal digits, an optional hyphen after each group of four, optionally in
  braces. A stored UUID is read back in lower case with its four hyphens.
\<close>

fun hex_groups :: "nat \<Rightarrow> string \<Rightarrow> string option" where
  "hex_groups 0 s = (if s = [] then Some [] else None)"
| "hex_groups (Suc n) s =
     (if 4 \<le> length s \<and> list_all is_hex (take 4 s)
      then map_option ((@) (map ascii_lower (take 4 s)))
        (hex_groups n (if n \<noteq> 0 \<and> HasPrefix (drop 4 s) ''-'' then drop 5 s else drop 4 s))
      else None)"

definition uuid_dashes :: "string \<Rightarrow> string" where
  "uuid_dashes h = take 8 h @ ''-'' @ take 4 (drop 8 h) @ ''-'' @ take 4 (drop 12 h) @ ''-''
     @ take 4 (drop 16 h) @ ''-'' @ drop 20 h"

definition unbrace :: "string \<Rightarrow> string option" where
  "unbrace s = (if HasPrefix s ''{'' then (if HasSuffix s ''}'' then Some (butlast (tl s)) else None)
     else Some s)"

definition uuid_in :: "string \<Rightarrow> string option" where
  "uuid_in s = (case unbrace s of None \<Rightarrow> None
     | Some b \<Rightarrow> map_option uuid_dashes (hex_groups 8 b))"

text \<open>A \<open>text\<close> value is valid UTF-8 without NUL.\<close>

definition text_ok :: "string \<Rightarrow> bool" where
  "text_ok s \<longleftrightarrow> valid_utf8 s \<and> char_of (0::nat) \<notin> set s"

fun json_text_ok :: "json \<Rightarrow> bool" where
  "json_text_ok (JStr s) \<longleftrightarrow> text_ok s"
| "json_text_ok (JArr vs) \<longleftrightarrow> (\<forall>v \<in> set vs. json_text_ok v)"
| "json_text_ok (JObj ms) \<longleftrightarrow> (\<forall>m \<in> set ms. text_ok (fst m) \<and> json_text_ok (snd m))"
| "json_text_ok _ \<longleftrightarrow> True"

text \<open>
  \<open>$1::jsonb\<close>. The texts the program sends come from \<open>json.Marshal\<close>, so their object keys are
  distinct and they hold no unpaired surrogate escape.
\<close>

definition jsonb_in :: "string \<Rightarrow> json option" where
  "jsonb_in s = (case json_parse s of
      Some v \<Rightarrow> if text_ok s \<and> json_text_ok v then Some v else None
    | None \<Rightarrow> None)"

section \<open>Tables\<close>

record workload_row =
  wl_id :: string
  wl_org :: string
  wl_trust_domain :: string
  wl_name :: string
  wl_environment :: string
  wl_spiffe_id :: string
  wl_status :: string
  wl_last_seen :: "int option"
  wl_created :: int
  wl_updated :: int

record rule_row =
  rr_id :: string
  rr_org :: string
  rr_workload :: string
  rr_selectors :: json
  rr_desired :: string
  rr_revision :: int
  rr_updated :: int
  rr_parent :: "string option"
  rr_ttl :: int
  rr_entry :: "string option"
  rr_status :: string
  rr_reconciled :: "int option"
  rr_error :: "string option"

record policy_row =
  ap_id :: string
  ap_org :: string
  ap_name :: string
  ap_status :: string
  ap_active :: "string option"
  ap_revision :: int
  ap_updated :: int

record version_row =
  pv_id :: string
  pv_policy :: string
  pv_version :: int
  pv_source :: string
  pv_destination :: string
  pv_action :: string
  pv_effect :: string
  pv_created_by :: string
  pv_reason :: string

record audit_row =
  ae_id :: string
  ae_org :: "string option"
  ae_actor_type :: string
  ae_actor_id :: string
  ae_action :: string
  ae_target_type :: string
  ae_target_id :: string
  ae_correlation :: string
  ae_metadata :: json
  ae_created :: int

text \<open>Of an organization the program reads only whether it exists.\<close>

record tables =
  organizations :: "string list"
  workloads :: "workload_row list"
  registration_rules :: "rule_row list"
  access_policies :: "policy_row list"
  access_policy_versions :: "version_row list"
  audit_events :: "audit_row list"

section \<open>Constraints\<close>

definition rule_checks :: "rule_row \<Rightarrow> bool" where
  "rule_checks r \<longleftrightarrow> (rr_desired r = ''present'' \<or> rr_desired r = ''absent'')
     \<and> (case rr_selectors r of JArr _ \<Rightarrow> True | _ \<Rightarrow> False)
     \<and> 60 \<le> rr_ttl r \<and> rr_ttl r \<le> 86400
     \<and> (rr_status r = ''pending'' \<or> rr_status r = ''converged'' \<or> rr_status r = ''error'')"

definition policy_checks :: "policy_row \<Rightarrow> bool" where
  "policy_checks p \<longleftrightarrow> (ap_status p = ''draft'' \<or> ap_status p = ''active'' \<or> ap_status p = ''disabled'')
     \<and> 0 < ap_revision p"

definition version_checks :: "version_row \<Rightarrow> bool" where
  "version_checks v \<longleftrightarrow> pv_effect v = ''allow'' \<or> pv_effect v = ''deny''"

definition audit_checks :: "audit_row \<Rightarrow> bool" where
  "audit_checks e \<longleftrightarrow> (case ae_metadata e of JObj _ \<Rightarrow> True | _ \<Rightarrow> False)"

definition entry_ids :: "rule_row list \<Rightarrow> string list" where
  "entry_ids rs = map the (filter (\<lambda>e. e \<noteq> None) (map rr_entry rs))"

definition rule_uniques :: "rule_row list \<Rightarrow> bool" where
  "rule_uniques rs \<longleftrightarrow> distinct (map rr_id rs) \<and> distinct (map rr_workload rs) \<and> distinct (entry_ids rs)"

definition policy_uniques :: "policy_row list \<Rightarrow> bool" where
  "policy_uniques ps \<longleftrightarrow> distinct (map ap_id ps) \<and> distinct (map (\<lambda>p. (ap_org p, ap_name p)) ps)"

definition version_uniques :: "version_row list \<Rightarrow> bool" where
  "version_uniques vs \<longleftrightarrow> distinct (map pv_id vs) \<and> distinct (map (\<lambda>v. (pv_policy v, pv_version v)) vs)"

definition rule_fks :: "tables \<Rightarrow> rule_row \<Rightarrow> bool" where
  "rule_fks t r \<longleftrightarrow> rr_org r \<in> set (organizations t) \<and> rr_workload r \<in> set (map wl_id (workloads t))"

definition policy_fks :: "tables \<Rightarrow> policy_row \<Rightarrow> bool" where
  "policy_fks t p \<longleftrightarrow> ap_org p \<in> set (organizations t)
     \<and> (case ap_active p of None \<Rightarrow> True | Some v \<Rightarrow> v \<in> set (map pv_id (access_policy_versions t)))"

definition version_fks :: "tables \<Rightarrow> version_row \<Rightarrow> bool" where
  "version_fks t v \<longleftrightarrow> pv_policy v \<in> set (map ap_id (access_policies t))"

definition audit_fks :: "tables \<Rightarrow> audit_row \<Rightarrow> bool" where
  "audit_fks t e \<longleftrightarrow> (case ae_org e of None \<Rightarrow> True | Some i \<Rightarrow> i \<in> set (organizations t))"

text \<open>Every constraint of the schema at once: what PostgreSQL keeps true of the tables.\<close>

definition schema_ok :: "tables \<Rightarrow> bool" where
  "schema_ok t \<longleftrightarrow> distinct (map wl_id (workloads t))
     \<and> rule_uniques (registration_rules t) \<and> list_all rule_checks (registration_rules t)
     \<and> list_all (rule_fks t) (registration_rules t)
     \<and> policy_uniques (access_policies t) \<and> list_all policy_checks (access_policies t)
     \<and> list_all (policy_fks t) (access_policies t)
     \<and> version_uniques (access_policy_versions t) \<and> list_all version_checks (access_policy_versions t)
     \<and> list_all (version_fks t) (access_policy_versions t)
     \<and> distinct (map ae_id (audit_events t)) \<and> list_all audit_checks (audit_events t)
     \<and> list_all (audit_fks t) (audit_events t)"

section \<open>Inserts and updates under the constraints\<close>

definition insert_rule :: "rule_row \<Rightarrow> tables \<Rightarrow> pg_error + tables" where
  "insert_rule r t =
     (if \<not> rule_checks r then Inl check_violation
      else if \<not> rule_uniques (registration_rules t @ [r]) then Inl unique_violation
      else if \<not> rule_fks t r then Inl fk_violation
      else Inr (t\<lparr>registration_rules := registration_rules t @ [r]\<rparr>))"

definition insert_policy :: "policy_row \<Rightarrow> tables \<Rightarrow> pg_error + tables" where
  "insert_policy p t =
     (if \<not> policy_checks p then Inl check_violation
      else if \<not> policy_uniques (access_policies t @ [p]) then Inl unique_violation
      else if \<not> policy_fks t p then Inl fk_violation
      else Inr (t\<lparr>access_policies := access_policies t @ [p]\<rparr>))"

definition insert_version :: "version_row \<Rightarrow> tables \<Rightarrow> pg_error + tables" where
  "insert_version v t =
     (if \<not> version_checks v then Inl check_violation
      else if \<not> version_uniques (access_policy_versions t @ [v]) then Inl unique_violation
      else if \<not> version_fks t v then Inl fk_violation
      else Inr (t\<lparr>access_policy_versions := access_policy_versions t @ [v]\<rparr>))"

definition insert_audit :: "audit_row \<Rightarrow> tables \<Rightarrow> pg_error + tables" where
  "insert_audit e t =
     (if \<not> audit_checks e then Inl check_violation
      else if \<not> distinct (map ae_id (audit_events t @ [e])) then Inl unique_violation
      else if \<not> audit_fks t e then Inl fk_violation
      else Inr (t\<lparr>audit_events := audit_events t @ [e]\<rparr>))"

text \<open>
  An \<open>UPDATE ... WHERE p\<close> rewrites the rows that satisfy \<open>p\<close>; \<open>revision + 1\<close> past the largest
  \<open>bigint\<close> is an error. No statement changes a key that another table refers to.
\<close>

definition update_rows :: "('r \<Rightarrow> bool) \<Rightarrow> ('r \<Rightarrow> 'r) \<Rightarrow> 'r list \<Rightarrow> 'r list" where
  "update_rows p f = map (\<lambda>r. if p r then f r else r)"

definition update_rules :: "(rule_row \<Rightarrow> bool) \<Rightarrow> (rule_row \<Rightarrow> rule_row) \<Rightarrow> tables \<Rightarrow> pg_error + tables" where
  "update_rules p f t =
     (let rs = update_rows p f (registration_rules t);
          new = map f (filter p (registration_rules t)) in
      if \<not> list_all (\<lambda>r. in_int64 (rr_revision r)) new then Inl out_of_range
      else if \<not> list_all rule_checks new then Inl check_violation
      else if \<not> rule_uniques rs then Inl unique_violation
      else if \<not> list_all (rule_fks t) new then Inl fk_violation
      else Inr (t\<lparr>registration_rules := rs\<rparr>))"

definition update_policies :: "(policy_row \<Rightarrow> bool) \<Rightarrow> (policy_row \<Rightarrow> policy_row) \<Rightarrow> tables \<Rightarrow> pg_error + tables" where
  "update_policies p f t =
     (let ps = update_rows p f (access_policies t);
          new = map f (filter p (access_policies t)) in
      if \<not> list_all (\<lambda>r. in_int64 (ap_revision r)) new then Inl out_of_range
      else if \<not> list_all policy_checks new then Inl check_violation
      else if \<not> policy_uniques ps then Inl unique_violation
      else if \<not> list_all (policy_fks t) new then Inl fk_violation
      else Inr (t\<lparr>access_policies := ps\<rparr>))"

section \<open>Statements and transactions\<close>

text \<open>A statement is given the UUID a row it inserts gets, the time, and the tables.\<close>

type_synonym 'a stmt = "string \<Rightarrow> int \<Rightarrow> tables \<Rightarrow> pg_error + 'a \<times> tables"

record db =
  tables :: tables
  tick :: nat
  started :: int

definition run_stmt :: "pg \<Rightarrow> 'a stmt \<Rightarrow> (db, pg_error, 'a) action" where
  "run_stmt pg f s =
     (let n = tick s; s' = s\<lparr>tick := Suc n\<rparr> in
      if pg_fault pg n then (Inl ConnFailed, s')
      else (case f (pg_uuid pg n) (started s) (tables s) of
          Inl e \<Rightarrow> (Inl e, s')
        | Inr (a, t) \<Rightarrow> (Inr a, s'\<lparr>tables := t\<rparr>)))"

text \<open>
  \<open>Begin\<close>, the body, \<open>Commit\<close>, with \<open>Rollback\<close> deferred: a body that returns an error leaves
  the tables as they were, and so does a refused commit.
\<close>

definition with_tx ::
    "pg \<Rightarrow> (pg_error \<Rightarrow> 'e) \<Rightarrow> (pg_error \<Rightarrow> 'e) \<Rightarrow> (db, 'e, 'a) action \<Rightarrow> (db, 'e, 'a) action" where
  "with_tx pg begin_err commit_err body s =
     (let n = tick s; s0 = s\<lparr>tick := Suc n\<rparr> in
      if pg_fault pg n then (Inl (begin_err ConnFailed), s0)
      else (case body (s0\<lparr>started := pg_now pg n\<rparr>) of
          (Inl e, s1) \<Rightarrow> (Inl e, s1\<lparr>tables := tables s\<rparr>)
        | (Inr a, s1) \<Rightarrow>
            (let c = tick s1; s2 = s1\<lparr>tick := Suc c\<rparr> in
             case pg_commit pg c of
               Committed \<Rightarrow> (Inr a, s2)
             | Aborted \<Rightarrow> (Inl (commit_err ConnFailed), s2\<lparr>tables := tables s\<rparr>)
             | AckLost \<Rightarrow> (Inl (commit_err ConnFailed), s2))))"

text \<open>A statement sent to the pool is a transaction of its own, in one round trip.\<close>

definition pool_stmt :: "pg \<Rightarrow> 'a stmt \<Rightarrow> (db, pg_error, 'a) action" where
  "pool_stmt pg f s =
     (let n = tick s; s' = s\<lparr>tick := Suc n, started := pg_now pg n\<rparr> in
      if pg_fault pg n then (Inl ConnFailed, s')
      else (case f (pg_uuid pg n) (pg_now pg n) (tables s) of
          Inl e \<Rightarrow> (Inl e, s')
        | Inr (a, t) \<Rightarrow>
            (case pg_commit pg n of
               Committed \<Rightarrow> (Inr a, s'\<lparr>tables := t\<rparr>)
             | Aborted \<Rightarrow> (Inl ConnFailed, s')
             | AckLost \<Rightarrow> (Inl ConnFailed, s'\<lparr>tables := t\<rparr>))))"

section \<open>Lemmas\<close>

lemma hex_not_special: "is_hex c \<Longrightarrow> c \<noteq> CHR ''-'' \<and> c \<noteq> CHR ''{''"
  by (auto simp: is_hex_def is_digit_def byte_in_def byte_def)

lemma uuid_class_hex: "byte_in 49 53 c \<Longrightarrow> is_hex c" "c \<in> set ''89abAB'' \<Longrightarrow> is_hex c"
  by (auto simp: is_hex_def is_digit_def byte_in_def) (auto simp: byte_def)

lemma hex_groups_step:
  assumes "is_hex a" "is_hex b" "is_hex c" "is_hex d"
  shows "hex_groups (Suc n) (a # b # c # d # r) = map_option ((@) (map ascii_lower [a, b, c, d]))
     (hex_groups n (if n \<noteq> 0 \<and> HasPrefix r ''-'' then tl r else r))"
  using assms by (simp add: drop_Suc)

text \<open>A text that matches the program's UUID pattern is a UUID; it is stored in lower case.\<close>

lemma uuid_pattern_in:
  assumes "MatchString uuid_items s"
  shows "uuid_in s = Some (map ascii_lower s)"
proof -
  have "length s = 36" using MatchString_length[OF assms] by (simp add: uuid_items_def)
  then obtain a0 a1 a2 a3 a4 a5 a6 a7 h1 b0 b1 b2 b3 h2 c0 c1 c2 c3 h3 d0 d1 d2 d3 h4
      e0 e1 e2 e3 e4 e5 e6 e7 e8 e9 e10 e11 where
    s: "s = [a0, a1, a2, a3, a4, a5, a6, a7, h1, b0, b1, b2, b3, h2, c0, c1, c2, c3, h3, d0, d1, d2, d3, h4,
        e0, e1, e2, e3, e4, e5, e6, e7, e8, e9, e10, e11]"
    by (auto simp: length_Suc_conv numeral_eq_Suc)
  from assms have hex: "list_all is_hex [a0, a1, a2, a3, a4, a5, a6, a7, b0, b1, b2, b3, c0, c1, c2, c3,
        d0, d1, d2, d3, e0, e1, e2, e3, e4, e5, e6, e7, e8, e9, e10, e11]"
    and dash: "h1 = CHR ''-''" "h2 = CHR ''-''" "h3 = CHR ''-''" "h4 = CHR ''-''"
    unfolding uuid_items_def MatchString_exact s
    using uuid_class_hex by (auto simp: is_byte_def simp del: MatchString.simps(2))
  have nd: "list_all (\<lambda>c. c \<noteq> CHR ''-'' \<and> c \<noteq> CHR ''{'') [a0, a1, a2, a3, a4, a5, a6, a7, b0, b1, b2, b3,
      c0, c1, c2, c3, d0, d1, d2, d3, e0, e1, e2, e3, e4, e5, e6, e7, e8, e9, e10, e11]"
    using hex hex_not_special unfolding list_all_iff by blast
  have al: "ascii_lower CHR ''-'' = CHR ''-''" by code_simp
  have "hex_groups (Suc (Suc (Suc (Suc (Suc (Suc (Suc (Suc 0)))))))) s = Some (map ascii_lower
      [a0, a1, a2, a3, a4, a5, a6, a7, b0, b1, b2, b3, c0, c1, c2, c3, d0, d1, d2, d3,
       e0, e1, e2, e3, e4, e5, e6, e7, e8, e9, e10, e11])"
    using hex nd unfolding s dash by (simp add: hex_groups_step HasPrefix_def del: hex_groups.simps(2))
  moreover have "unbrace s = Some s" using nd by (simp add: unbrace_def s HasPrefix_def)
  moreover have "(8::nat) = Suc (Suc (Suc (Suc (Suc (Suc (Suc (Suc 0)))))))" by simp
  ultimately show ?thesis by (simp only: uuid_in_def) (simp add: uuid_dashes_def s dash al)
qed

text \<open>What holds of the rows after an update holds because it held before or was checked.\<close>

lemma list_all_update_rows:
  assumes "list_all P xs" "list_all P (map f (filter p xs))"
  shows "list_all P (update_rows p f xs)"
  using assms by (auto simp: list_all_iff update_rows_def)

lemma update_rows_none [simp]: "filter p xs = [] \<Longrightarrow> update_rows p f xs = xs"
  by (auto simp: update_rows_def filter_empty_conv intro: map_idI)

lemma map_update_rows [simp]: "(\<And>x. k (f x) = k x) \<Longrightarrow> map k (update_rows p f xs) = map k xs"
  by (simp add: update_rows_def)

lemma insert_rule_Inr:
  "insert_rule r t = Inr t' \<longleftrightarrow> rule_checks r \<and> rule_uniques (registration_rules t @ [r]) \<and> rule_fks t r
     \<and> t' = t\<lparr>registration_rules := registration_rules t @ [r]\<rparr>"
  by (auto simp: insert_rule_def)

lemma insert_policy_Inr:
  "insert_policy p t = Inr t' \<longleftrightarrow> policy_checks p \<and> policy_uniques (access_policies t @ [p]) \<and> policy_fks t p
     \<and> t' = t\<lparr>access_policies := access_policies t @ [p]\<rparr>"
  by (auto simp: insert_policy_def)

lemma insert_version_Inr:
  "insert_version v t = Inr t' \<longleftrightarrow> version_checks v \<and> version_uniques (access_policy_versions t @ [v])
     \<and> version_fks t v \<and> t' = t\<lparr>access_policy_versions := access_policy_versions t @ [v]\<rparr>"
  by (auto simp: insert_version_def)

lemma insert_audit_Inr:
  "insert_audit e t = Inr t' \<longleftrightarrow> audit_checks e \<and> distinct (map ae_id (audit_events t @ [e])) \<and> audit_fks t e
     \<and> t' = t\<lparr>audit_events := audit_events t @ [e]\<rparr>"
  by (auto simp: insert_audit_def)

lemma update_rules_Inr:
  "update_rules p f t = Inr t' \<longleftrightarrow>
     list_all (\<lambda>r. in_int64 (rr_revision (f r)) \<and> rule_checks (f r) \<and> rule_fks t (f r)) (filter p (registration_rules t))
     \<and> rule_uniques (update_rows p f (registration_rules t))
     \<and> t' = t\<lparr>registration_rules := update_rows p f (registration_rules t)\<rparr>"
  by (auto simp: update_rules_def Let_def list_all_iff)

lemma update_policies_Inr:
  "update_policies p f t = Inr t' \<longleftrightarrow>
     list_all (\<lambda>r. in_int64 (ap_revision (f r)) \<and> policy_checks (f r) \<and> policy_fks t (f r)) (filter p (access_policies t))
     \<and> policy_uniques (update_rows p f (access_policies t))
     \<and> t' = t\<lparr>access_policies := update_rows p f (access_policies t)\<rparr>"
  by (auto simp: update_policies_def Let_def list_all_iff)

lemmas table_Inr = insert_rule_Inr insert_policy_Inr insert_version_Inr insert_audit_Inr
  update_rules_Inr update_policies_Inr

lemma schema_insert_rule: "schema_ok t \<Longrightarrow> insert_rule r t = Inr t' \<Longrightarrow> schema_ok t'"
  by (auto simp: insert_rule_Inr schema_ok_def rule_fks_def policy_fks_def version_fks_def audit_fks_def list_all_iff
      split: option.splits)

lemma schema_insert_policy: "schema_ok t \<Longrightarrow> insert_policy p t = Inr t' \<Longrightarrow> schema_ok t'"
  by (auto simp: insert_policy_Inr schema_ok_def rule_fks_def policy_fks_def version_fks_def audit_fks_def list_all_iff
      split: option.splits)

lemma schema_insert_version: "schema_ok t \<Longrightarrow> insert_version v t = Inr t' \<Longrightarrow> schema_ok t'"
  by (auto simp: insert_version_Inr schema_ok_def rule_fks_def policy_fks_def version_fks_def audit_fks_def list_all_iff
      split: option.splits)

lemma schema_insert_audit: "schema_ok t \<Longrightarrow> insert_audit e t = Inr t' \<Longrightarrow> schema_ok t'"
  by (auto simp: insert_audit_Inr schema_ok_def rule_fks_def policy_fks_def version_fks_def audit_fks_def list_all_iff
      split: option.splits)

lemma schema_update_rules:
  assumes "schema_ok t" "update_rules p f t = Inr t'"
  shows "schema_ok t'"
proof -
  note u = assms(2)[unfolded update_rules_Inr]
  have "rule_fks t' = rule_fks t" "policy_fks t' = policy_fks t" "version_fks t' = version_fks t"
    "audit_fks t' = audit_fks t"
    using u by (auto simp: rule_fks_def policy_fks_def version_fks_def audit_fks_def fun_eq_iff
        split: option.splits)
  moreover have "list_all rule_checks (registration_rules t')" "list_all (rule_fks t) (registration_rules t')"
    using assms(1) u by (auto simp: schema_ok_def list_all_iff update_rows_def)
  ultimately show ?thesis using assms(1) u by (simp add: schema_ok_def)
qed

lemma schema_update_policies:
  assumes "schema_ok t" "update_policies p f t = Inr t'" "\<And>r. ap_id (f r) = ap_id r"
  shows "schema_ok t'"
proof -
  note u = assms(2)[unfolded update_policies_Inr]
  have "rule_fks t' = rule_fks t" "policy_fks t' = policy_fks t" "audit_fks t' = audit_fks t"
    using u by (auto simp: rule_fks_def policy_fks_def audit_fks_def fun_eq_iff split: option.splits)
  moreover have "version_fks t' = version_fks t"
  proof -
    have "map ap_id (access_policies t') = map ap_id (access_policies t)" using u assms(3) by simp
    then show ?thesis by (simp add: version_fks_def fun_eq_iff del: set_map)
  qed
  moreover have "list_all policy_checks (access_policies t')" "list_all (policy_fks t) (access_policies t')"
    using assms(1) u by (auto simp: schema_ok_def list_all_iff update_rows_def)
  ultimately show ?thesis using assms(1) u by (simp add: schema_ok_def)
qed

lemma jsonb_in_Marshal:
  "encodable 0 v \<Longrightarrow> jsonb_in (Marshal v)
     = (if text_ok (Marshal v) \<and> json_text_ok (utf8_json v) then Some (utf8_json v) else None)"
  by (simp add: jsonb_in_def parse_Marshal)

lemma find_uuid: "(case uuid_in x of None \<Rightarrow> Inl e | Some i \<Rightarrow> f (find (\<lambda>w. k w = i) xs)) = Inr y
   \<longleftrightarrow> uuid_in x \<noteq> None \<and> f (find (\<lambda>w. uuid_in x = Some (k w)) xs) = Inr y"
  by (cases "uuid_in x") (auto simp: eq_commute)

section \<open>What a transaction promises\<close>

lemma run_stmt_Inr:
  "run_stmt pg f s = (Inr a, s') \<longleftrightarrow> \<not> pg_fault pg (tick s)
     \<and> (\<exists>t. f (pg_uuid pg (tick s)) (started s) (tables s) = Inr (a, t)
          \<and> s' = s\<lparr>tick := Suc (tick s), tables := t\<rparr>)"
  by (auto simp: run_stmt_def Let_def split: sum.splits)

lemma run_stmt_Inl: "run_stmt pg f s = (Inl e, s') \<Longrightarrow> tables s' = tables s"
  by (auto simp: run_stmt_def Let_def split: sum.splits if_splits)

lemma run_stmt_tick: "run_stmt pg f s = (r, s') \<Longrightarrow> tick s' = Suc (tick s) \<and> started s' = started s"
  by (auto simp: run_stmt_def Let_def split: sum.splits if_splits)

lemma pool_stmt_Inr:
  "pool_stmt pg f s = (Inr a, s') \<longleftrightarrow> \<not> pg_fault pg (tick s) \<and> pg_commit pg (tick s) = Committed
     \<and> (\<exists>t. f (pg_uuid pg (tick s)) (pg_now pg (tick s)) (tables s) = Inr (a, t)
          \<and> s' = \<lparr>tables = t, tick = Suc (tick s), started = pg_now pg (tick s)\<rparr>)"
  by (auto simp: pool_stmt_def Let_def split: sum.splits commit_outcome.splits)

text \<open>The error of a pool statement leaves the tables alone, or its acknowledgement was lost.\<close>

lemma pool_stmt_Inl:
  "pool_stmt pg f s = (Inl e, s') \<Longrightarrow> tables s' = tables s
     \<or> (\<exists>a t. f (pg_uuid pg (tick s)) (pg_now pg (tick s)) (tables s) = Inr (a, t) \<and> tables s' = t
          \<and> pg_commit pg (tick s) = AckLost)"
  by (auto simp: pool_stmt_def Let_def split: sum.splits if_splits commit_outcome.splits)

lemma with_tx_Inr:
  "with_tx pg b c body s = (Inr a, s') \<longleftrightarrow> \<not> pg_fault pg (tick s)
     \<and> (\<exists>s1. body (s\<lparr>tick := Suc (tick s), started := pg_now pg (tick s)\<rparr>) = (Inr a, s1)
          \<and> pg_commit pg (tick s1) = Committed \<and> s' = s1\<lparr>tick := Suc (tick s1)\<rparr>)"
  by (auto simp: with_tx_def Let_def split: sum.splits prod.splits commit_outcome.splits)

lemma with_tx_Inl:
  "with_tx pg b c body s = (Inl e, s') \<Longrightarrow> tables s' = tables s
     \<or> (\<exists>a s1. body (s\<lparr>tick := Suc (tick s), started := pg_now pg (tick s)\<rparr>) = (Inr a, s1)
          \<and> pg_commit pg (tick s1) = AckLost \<and> tables s' = tables s1 \<and> e = c ConnFailed)"
  by (auto simp: with_tx_def Let_def split: sum.splits prod.splits commit_outcome.splits if_splits)

text \<open>An error of the body is the error of the transaction, and nothing is changed.\<close>

lemma with_tx_body_error:
  assumes "\<not> pg_fault pg (tick s)"
    and "body (s\<lparr>tick := Suc (tick s), started := pg_now pg (tick s)\<rparr>) = (Inl e, s1)"
  shows "with_tx pg b c body s = (Inl e, s1\<lparr>tables := tables s\<rparr>)"
  using assms by (simp add: with_tx_def Let_def)

text \<open>
  The contract of the body of a mutation: when it returns a result it has made one allowed change
  of the tables. The transaction around it then makes that change as a whole or none of it, and
  an error with the change made is a lost acknowledgement of the commit.
\<close>

locale tx_body =
  fixes body :: "(db, 'e, 'a) action"
    and change :: "int \<Rightarrow> tables \<Rightarrow> 'a \<Rightarrow> tables \<Rightarrow> bool"
  assumes changes: "body s = (Inr a, s') \<Longrightarrow> change (started s) (tables s) a (tables s')"
begin

lemma success:
  assumes "with_tx pg b c body s = (Inr a, s')"
  shows "change (pg_now pg (tick s)) (tables s) a (tables s')"
  using assms changes by (fastforce simp: with_tx_Inr)

lemma failure:
  assumes "with_tx pg b c body s = (Inl e, s')"
  shows "tables s' = tables s
    \<or> e = c ConnFailed \<and> (\<exists>a n. pg_commit pg n = AckLost \<and> change (pg_now pg (tick s)) (tables s) a (tables s'))"
  using with_tx_Inl[OF assms] changes by fastforce

text \<open>A body that no change allows fails, and the transaction with it.\<close>

lemma blocked:
  assumes "\<And>a t'. \<not> change (pg_now pg (tick s)) (tables s) a t'" and "with_tx pg b c body s = (r, s')"
  shows "(\<exists>e. r = Inl e) \<and> tables s' = tables s"
  using success[of pg b c s _ s'] failure[of pg b c s _ s'] assms by (cases r) fastforce+

text \<open>With a commit that is never left in doubt an error means that nothing happened.\<close>

lemma clean_failure:
  assumes "with_tx pg b c body s = (Inl e, s')" and "\<And>n. pg_commit pg n \<noteq> AckLost"
  shows "tables s' = tables s"
  using failure[OF assms(1)] assms(2) by blast

lemma keeps:
  assumes "\<And>a t'. change (pg_now pg (tick s)) (tables s) a t' \<Longrightarrow> I t'" and "I (tables s)"
  shows "I (tables (snd (with_tx pg b c body s)))"
proof (cases "with_tx pg b c body s")
  case (Pair r s')
  then show ?thesis
    using success[of pg b c s _ s'] failure[of pg b c s _ s'] assms by (cases r) fastforce+
qed

end

section \<open>An example database\<close>

text \<open>A server without faults, and one organization with one workload, for concrete runs.\<close>

definition uuid_n :: "nat \<Rightarrow> string" where
  "uuid_n n = ''00000000-0000-4000-8000-0000000000'' @ [char_of (48 + n div 10 mod 10), char_of (48 + n mod 10)]"

definition example_pg :: pg where
  "example_pg = \<lparr>pg_fault = (\<lambda>n. False), pg_uuid = uuid_n, pg_now = int, pg_commit = (\<lambda>n. Committed)\<rparr>"

definition example_workload :: workload_row where
  "example_workload = \<lparr>wl_id = uuid_n 91, wl_org = uuid_n 90, wl_trust_domain = uuid_n 92, wl_name = ''api'',
     wl_environment = ''prod'', wl_spiffe_id = ''spiffe://td.example/api'', wl_status = ''healthy'',
     wl_last_seen = None, wl_created = 0, wl_updated = 0\<rparr>"

definition example_tables :: tables where
  "example_tables = \<lparr>organizations = [uuid_n 90], workloads = [example_workload],
     registration_rules = [], access_policies = [], access_policy_versions = [], audit_events = []\<rparr>"

definition example_db :: db where
  "example_db = \<lparr>tables = example_tables, tick = 0, started = 0\<rparr>"

end
