(* ===== verification/AuditLog.thy ===== *)
theory AuditLog
  imports Database
begin

text \<open>
  \<open>internal/audit\<close>: an event and \<open>PostgresRepository.Append\<close>. The repository works over any
  \<open>rowQueryer\<close>; the program gives it the open transaction of a mutation, or the connection pool
  in the reconciler. The locale \<open>row_queryer\<close> is that interface with the law of the insert, and
  it is interpreted for both.
\<close>

record Event =
  EventID :: string
  EventOrganizationID :: "string option"
  EventActorType :: string
  EventActorID :: string
  Action :: string
  TargetType :: string
  TargetID :: string
  CorrelationID :: string
  Metadata :: string
  CreatedAt :: int

datatype audit_error = MissingAttribution | MetadataInvalid | AppendFailed pg_error

section \<open>The insert\<close>

text \<open>The row an event is stored as, when its organization ID and its metadata can be read.\<close>

definition organization_in :: "string option \<Rightarrow> string option option" where
  "organization_in org = (case org of None \<Rightarrow> Some None | Some s \<Rightarrow> map_option Some (uuid_in s))"

definition event_row :: "Event \<Rightarrow> string \<Rightarrow> int \<Rightarrow> audit_row option" where
  "event_row ev i at =
     (case (organization_in (EventOrganizationID ev), jsonb_in (Metadata ev)) of
        (Some org, Some m) \<Rightarrow> Some \<lparr>ae_id = i, ae_org = org, ae_actor_type = EventActorType ev,
          ae_actor_id = EventActorID ev, ae_action = Action ev, ae_target_type = TargetType ev,
          ae_target_id = TargetID ev, ae_correlation = CorrelationID ev, ae_metadata = m, ae_created = at\<rparr>
      | _ \<Rightarrow> None)"

definition event_texts :: "Event \<Rightarrow> string list" where
  "event_texts ev = [EventActorType ev, EventActorID ev, Action ev, TargetType ev, TargetID ev, CorrelationID ev]"

definition sql_insert_audit_event :: "Event \<Rightarrow> (string \<times> int) stmt" where
  "sql_insert_audit_event ev i now t =
     (if \<not> list_all text_ok (event_texts ev) then Inl bad_encoding
      else (case event_row ev i now of
          None \<Rightarrow> Inl invalid_text
        | Some row \<Rightarrow>
            (case insert_audit row t of Inl e \<Rightarrow> Inl e | Inr t' \<Rightarrow> Inr ((i, now), t'))))"

definition tx_queryer :: "pg \<Rightarrow> Event \<Rightarrow> (db, pg_error, string \<times> int) action" where
  "tx_queryer pg ev = run_stmt pg (sql_insert_audit_event ev)"

definition pool_queryer :: "pg \<Rightarrow> Event \<Rightarrow> (db, pg_error, string \<times> int) action" where
  "pool_queryer pg ev = pool_stmt pg (sql_insert_audit_event ev)"

section \<open>Append\<close>

definition missing_attribution :: "Event \<Rightarrow> bool" where
  "missing_attribution ev \<longleftrightarrow> EventActorType ev = [] \<or> EventActorID ev = [] \<or> Action ev = []
     \<or> TargetType ev = [] \<or> TargetID ev = [] \<or> CorrelationID ev = []"

definition default_metadata :: "Event \<Rightarrow> Event" where
  "default_metadata ev = (if Metadata ev = [] then ev\<lparr>Metadata := ''{}''\<rparr> else ev)"

definition Append :: "(Event \<Rightarrow> ('s, pg_error, string \<times> int) action) \<Rightarrow> Event \<Rightarrow> ('s, audit_error, Event) action" where
  "Append queryRow ev s =
     (if missing_attribution ev then (Inl MissingAttribution, s)
      else if \<not> Valid (Metadata (default_metadata ev)) then (Inl MetadataInvalid, s)
      else (case queryRow (default_metadata ev) s of
          (Inl e, s') \<Rightarrow> (Inl (AppendFailed e), s')
        | (Inr (i, at), s') \<Rightarrow> (Inr ((default_metadata ev)\<lparr>EventID := i, CreatedAt := at\<rparr>), s')))"

section \<open>The contract of the insert\<close>

definition with_event :: "tables \<Rightarrow> audit_row \<Rightarrow> tables" where
  "with_event t row = t\<lparr>audit_events := audit_events t @ [row]\<rparr>"

lemma with_event_frame [simp]:
  "organizations (with_event t row) = organizations t" "workloads (with_event t row) = workloads t"
  "registration_rules (with_event t row) = registration_rules t"
  "access_policies (with_event t row) = access_policies t"
  "access_policy_versions (with_event t row) = access_policy_versions t"
  "audit_events (with_event t row) = audit_events t @ [row]"
  by (simp_all add: with_event_def)

definition logged :: "tables \<Rightarrow> audit_row \<Rightarrow> tables \<Rightarrow> bool" where
  "logged t row t' \<longleftrightarrow> insert_audit row t = Inr t'"

lemma logged_with_event: "logged t row t' \<Longrightarrow> t' = with_event t row \<and> audit_checks row"
  by (simp add: logged_def insert_audit_Inr with_event_def)

lemma schema_logged: "schema_ok t \<Longrightarrow> logged t row t' \<Longrightarrow> schema_ok t'"
  by (simp add: logged_def schema_insert_audit)

locale row_queryer =
  fixes queryRow :: "Event \<Rightarrow> (db, pg_error, string \<times> int) action"
  assumes inserted: "queryRow ev s = (Inr (i, at), s') \<Longrightarrow>
      \<exists>row. event_row ev i at = Some row \<and> logged (tables s) row (tables s')"
    and not_inserted: "queryRow ev s = (Inl e, s') \<Longrightarrow> tables s' = tables s
      \<or> (\<exists>i at row. event_row ev i at = Some row \<and> logged (tables s) row (tables s'))"
begin

lemma Append_Inr:
  assumes "Append queryRow ev s = (Inr ev', s')"
  shows "\<not> missing_attribution ev
    \<and> (\<exists>row. event_row (default_metadata ev) (EventID ev') (CreatedAt ev') = Some row
        \<and> logged (tables s) row (tables s'))
    \<and> ev' = (default_metadata ev)\<lparr>EventID := EventID ev', CreatedAt := CreatedAt ev'\<rparr>"
proof -
  from assms obtain i at where "\<not> missing_attribution ev" "queryRow (default_metadata ev) s = (Inr (i, at), s')"
    "ev' = (default_metadata ev)\<lparr>EventID := i, CreatedAt := at\<rparr>"
    by (auto simp: Append_def split: if_splits sum.splits prod.splits)
  with inserted show ?thesis by simp
qed

text \<open>An append never removes or changes an event, whatever it returns.\<close>

lemma Append_Inl:
  assumes "Append queryRow ev s = (Inl e, s')"
  shows "tables s' = tables s
    \<or> (\<exists>i at row. event_row (default_metadata ev) i at = Some row \<and> \<not> missing_attribution ev
         \<and> logged (tables s) row (tables s'))"
proof -
  from assms consider "s' = s" | d where "\<not> missing_attribution ev" "queryRow (default_metadata ev) s = (Inl d, s')"
    by (auto simp: Append_def split: if_splits sum.splits prod.splits)
  then show ?thesis using not_inserted by cases (simp, metis)
qed

end

lemma sql_insert_audit_event_Inr:
  "sql_insert_audit_event ev i now t = Inr (x, t') \<Longrightarrow>
     x = (i, now) \<and> (\<exists>row. event_row ev i now = Some row \<and> logged t row t')"
  by (auto simp: sql_insert_audit_event_def logged_def
      split: if_splits option.splits sum.splits)

interpretation tx_audit: row_queryer "tx_queryer pg" for pg
proof unfold_locales
  fix ev s i at s' e
  show "tx_queryer pg ev s = (Inr (i, at), s') \<Longrightarrow>
      \<exists>row. event_row ev i at = Some row \<and> logged (tables s) row (tables s')"
    by (auto simp: tx_queryer_def run_stmt_Inr dest!: sql_insert_audit_event_Inr)
  show "tx_queryer pg ev s = (Inl e, s') \<Longrightarrow> tables s' = tables s
      \<or> (\<exists>i at row. event_row ev i at = Some row \<and> logged (tables s) row (tables s'))"
    by (auto simp: tx_queryer_def dest!: run_stmt_Inl)
qed

interpretation pool_audit: row_queryer "pool_queryer pg" for pg
proof unfold_locales
  fix ev s i at s' e
  show "pool_queryer pg ev s = (Inr (i, at), s') \<Longrightarrow>
      \<exists>row. event_row ev i at = Some row \<and> logged (tables s) row (tables s')"
    by (auto simp: pool_queryer_def pool_stmt_Inr dest!: sql_insert_audit_event_Inr)
  show "pool_queryer pg ev s = (Inl e, s') \<Longrightarrow> tables s' = tables s
      \<or> (\<exists>i at row. event_row ev i at = Some row \<and> logged (tables s) row (tables s'))"
    unfolding pool_queryer_def using pool_stmt_Inl sql_insert_audit_event_Inr by fast
qed

text \<open>Inside a transaction an event that is refused leaves the tables alone.\<close>

lemma tx_Append_Inl:
  "Append (tx_queryer pg) ev s = (Inl e, s') \<Longrightarrow> tables s' = tables s"
  by (auto simp: Append_def tx_queryer_def dest!: run_stmt_Inl split: if_splits sum.splits prod.splits)

lemma tx_Append_created:
  "Append (tx_queryer pg) ev s = (Inr ev', s') \<Longrightarrow> CreatedAt ev' = started s \<and> EventID ev' = pg_uuid pg (tick s)"
  by (auto simp: Append_def tx_queryer_def run_stmt_Inr dest!: sql_insert_audit_event_Inr
      split: if_splits sum.splits prod.splits)

lemma tx_Append_started: "Append (tx_queryer pg) ev s = (r, s') \<Longrightarrow> started s' = started s"
  by (auto simp: Append_def tx_queryer_def dest!: run_stmt_tick split: if_splits sum.splits prod.splits)

text \<open>When an append inside a transaction succeeds, for events the mutations build.\<close>

lemma tx_Append_succeeds:
  assumes "\<not> missing_attribution ev" "Metadata ev = Marshal m" "encodable 0 m" "Marshal m \<noteq> []"
    and "list_all text_ok (event_texts ev)" "event_row ev (pg_uuid pg (tick s)) (started s) = Some row"
    and "\<not> pg_fault pg (tick s)" "insert_audit row (tables s) = Inr t"
  shows "\<exists>ev'. Append (tx_queryer pg) ev s = (Inr ev', s\<lparr>tick := Suc (tick s), tables := t\<rparr>)"
  using assms by (simp add: Append_def tx_queryer_def run_stmt_def default_metadata_def Let_def Marshal_Valid
      sql_insert_audit_event_def)

lemma event_row_fields:
  assumes "event_row ev i at = Some row"
  shows "ae_id row = i" "ae_actor_type row = EventActorType ev" "ae_actor_id row = EventActorID ev"
    "ae_action row = Action ev" "ae_target_type row = TargetType ev" "ae_target_id row = TargetID ev"
    "ae_correlation row = CorrelationID ev" "ae_created row = at" "jsonb_in (Metadata ev) = Some (ae_metadata row)"
    "organization_in (EventOrganizationID ev) = Some (ae_org row)"
  using assms by (auto simp: event_row_def split: option.splits)

lemma default_metadata_id: "Metadata ev \<noteq> [] \<Longrightarrow> default_metadata ev = ev"
  by (simp add: default_metadata_def)

text \<open>An append in the transaction of a mutation logs the event it was given.\<close>

lemma tx_Append_logs:
  assumes "Append (tx_queryer pg) ev s = (Inr ev', s')" "Metadata ev \<noteq> []"
  shows "\<exists>row. event_row ev (ae_id row) (started s) = Some row \<and> logged (tables s) row (tables s')"
proof -
  from tx_audit.Append_Inr[OF assms(1)] default_metadata_id[OF assms(2)] obtain row where
    row: "event_row ev (EventID ev') (CreatedAt ev') = Some row" "logged (tables s) row (tables s')" by auto
  moreover have "ae_id row = EventID ev'" using row(1) by (auto simp: event_row_def split: option.splits)
  ultimately show ?thesis using tx_Append_created[OF assms(1)] by (intro exI[of _ row]) simp
qed

end
