(* ===== verification/Registration.thy ===== *)
theory Registration
  imports SpiffeID AuditLog
begin

text \<open>
  \<open>internal/registration\<close>: the rule as the reconciler reads it (\<open>model.go\<close>), the store
  (\<open>postgres.go\<close>), the validation of operator mutations (\<open>mutation.go\<close>) and the two
  transactions \<open>CreateDesired\<close> and \<open>ReplaceDesired\<close> (\<open>postgres_mutation.go\<close>). Each SQL statement
  of these files is a definition named \<open>sql_...\<close>.

  The lemmas give what a successful mutation changes, as the relations \<open>rule_created\<close> and
  \<open>rule_replaced\<close>; both handlers are interpreted as \<open>tx_body\<close>, which makes them atomic.
\<close>

section \<open>Validation\<close>

datatype reg_reason = ActorNotOperator | CorrelationMissing | WorkloadIDNotUUID | RuleIDNotUUID
  | RevisionNotPositive | DesiredStateUnknown | TTLOutOfRange | ParentInvalid spiffe_error
  | SelectorCountInvalid | SelectorInvalid string | SelectorControl string | SelectorDuplicate string

datatype reg_error = ErrInvalidInput reg_reason | ErrNotFound | ErrConflict
  | DbError string pg_error | AuditError string audit_error | SelectorsUndecodable

definition MinX509SVIDTTLSeconds :: int where "MinX509SVIDTTLSeconds = 60"
definition MaxX509SVIDTTLSeconds :: int where "MaxX509SVIDTTLSeconds = 86400"
definition MaxSelectors :: nat where "MaxSelectors = 32"
definition MaxSelectorValueBytes :: nat where "MaxSelectorValueBytes = 512"

definition selectorTypeExpr :: pattern where
  "selectorTypeExpr = [(\<lambda>c. is_alnum c \<or> c \<in> set ''._-'', 1, 64)]"

record reg_actor =
  ra_Type :: string
  ra_ID :: string
  ra_Role :: string

record CreateDesiredInput =
  cd_WorkloadID :: string
  cd_Selectors :: "string list"
  cd_ParentSPIFFEID :: string
  cd_TTL :: int

record ReplaceDesiredInput =
  rd_ExpectedRevision :: int
  rd_DesiredState :: string
  rd_Selectors :: "string list"
  rd_ParentSPIFFEID :: string
  rd_TTL :: int

record MutationResult =
  mr_ID :: string
  mr_OrganizationID :: string
  mr_WorkloadID :: string
  mr_DesiredState :: string
  mr_Revision :: int
  mr_TTL :: int
  mr_SelectorCount :: int
  mr_ReconcileStatus :: string

definition reg_validateActor :: "reg_actor \<Rightarrow> reg_reason option" where
  "reg_validateActor actor =
     (if ra_Type actor \<noteq> ''operator'' \<or> TrimSpace (ra_ID actor) = [] \<or> ra_Role actor \<noteq> ''operator''
      then Some ActorNotOperator else None)"

text \<open>The loop over the selectors, with the map of the ones seen so far.\<close>

fun check_selectors :: "string list \<Rightarrow> string list \<Rightarrow> reg_reason option" where
  "check_selectors seen [] = None"
| "check_selectors seen (raw # rest) =
     (case Cut raw CHR '':'' of
        (kind, val, ok) \<Rightarrow>
          if \<not> ok \<or> \<not> MatchString selectorTypeExpr kind \<or> val = [] \<or> MaxSelectorValueBytes < length val
          then Some (SelectorInvalid raw)
          else if has_control val then Some (SelectorControl raw)
          else if raw \<in> set seen then Some (SelectorDuplicate raw)
          else check_selectors (raw # seen) rest)"

definition validateDesiredFields :: "string \<Rightarrow> string list \<Rightarrow> string \<Rightarrow> int \<Rightarrow> reg_reason option" where
  "validateDesiredFields desiredState selectors parentSPIFFEID ttl =
     (if desiredState \<noteq> ''present'' \<and> desiredState \<noteq> ''absent'' then Some DesiredStateUnknown
      else if ttl < MinX509SVIDTTLSeconds \<or> ttl > MaxX509SVIDTTLSeconds then Some TTLOutOfRange
      else (case reg_validateSPIFFEID parentSPIFFEID of
          Some e \<Rightarrow> Some (ParentInvalid e)
        | None \<Rightarrow>
            if selectors = [] \<or> MaxSelectors < length selectors then Some SelectorCountInvalid
            else check_selectors [] selectors))"

definition reg_validateCreateInput :: "CreateDesiredInput \<Rightarrow> reg_reason option" where
  "reg_validateCreateInput input =
     (if \<not> MatchString uuid_items (cd_WorkloadID input) then Some WorkloadIDNotUUID
      else validateDesiredFields ''present'' (cd_Selectors input) (cd_ParentSPIFFEID input) (cd_TTL input))"

definition validateReplaceInput :: "string \<Rightarrow> ReplaceDesiredInput \<Rightarrow> reg_reason option" where
  "validateReplaceInput ruleID input =
     (if \<not> MatchString uuid_items ruleID then Some RuleIDNotUUID
      else if rd_ExpectedRevision input < 1 then Some RevisionNotPositive
      else validateDesiredFields (rd_DesiredState input) (rd_Selectors input) (rd_ParentSPIFFEID input)
        (rd_TTL input))"

section \<open>The statements of \<open>postgres_mutation.go\<close>\<close>

definition sql_workload_organization :: "string \<Rightarrow> string stmt" where
  "sql_workload_organization workloadID u now t =
     (case uuid_in workloadID of
        None \<Rightarrow> Inl invalid_text
      | Some i \<Rightarrow> (case find (\<lambda>w. wl_id w = i) (workloads t) of
            None \<Rightarrow> Inl NoRows | Some w \<Rightarrow> Inr (wl_org w, t)))"

definition sql_insert_registration_rule ::
    "string \<Rightarrow> string \<Rightarrow> string \<Rightarrow> string \<Rightarrow> int \<Rightarrow> string stmt" where
  "sql_insert_registration_rule organizationID workloadID selectorsJSON parentSPIFFEID ttl u now t =
     (if \<not> text_ok parentSPIFFEID then Inl bad_encoding
      else (case (uuid_in organizationID, uuid_in workloadID, jsonb_in selectorsJSON) of
          (Some org, Some wid, Some sels) \<Rightarrow>
            (case insert_rule \<lparr>rr_id = u, rr_org = org, rr_workload = wid, rr_selectors = sels,
                 rr_desired = ''present'', rr_revision = 1, rr_updated = now, rr_parent = Some parentSPIFFEID,
                 rr_ttl = ttl, rr_entry = None, rr_status = ''pending'', rr_reconciled = None,
                 rr_error = None\<rparr> t of
               Inl e \<Rightarrow> Inl e | Inr t' \<Rightarrow> Inr (u, t'))
        | _ \<Rightarrow> Inl invalid_text))"

record before_rule =
  br_organizationID :: string
  br_workloadID :: string
  br_State :: string
  br_Revision :: int
  br_TTL :: int
  br_Selectors :: json

definition sql_rule_for_update :: "string \<Rightarrow> before_rule stmt" where
  "sql_rule_for_update ruleID u now t =
     (case uuid_in ruleID of
        None \<Rightarrow> Inl invalid_text
      | Some i \<Rightarrow> (case find (\<lambda>r. rr_id r = i) (registration_rules t) of
            None \<Rightarrow> Inl NoRows
          | Some r \<Rightarrow> Inr (\<lparr>br_organizationID = rr_org r, br_workloadID = rr_workload r,
              br_State = rr_desired r, br_Revision = rr_revision r, br_TTL = rr_ttl r,
              br_Selectors = rr_selectors r\<rparr>, t)))"

definition replaced_row :: "json \<Rightarrow> string \<Rightarrow> string \<Rightarrow> int \<Rightarrow> int \<Rightarrow> rule_row \<Rightarrow> rule_row" where
  "replaced_row sels desiredState parentSPIFFEID ttl now r =
     r\<lparr>rr_selectors := sels, rr_desired := desiredState, rr_revision := rr_revision r + 1,
       rr_parent := Some parentSPIFFEID, rr_ttl := ttl, rr_status := ''pending'', rr_error := None,
       rr_updated := now\<rparr>"

text \<open>An \<open>UPDATE ... RETURNING\<close> that matches no row returns none, which is \<open>pgx.ErrNoRows\<close>.\<close>

definition returning_id :: "(rule_row \<Rightarrow> bool) \<Rightarrow> (rule_row \<Rightarrow> rule_row) \<Rightarrow> tables \<Rightarrow> pg_error + string \<times> tables" where
  "returning_id p f t =
     (case update_rules p f t of
        Inl e \<Rightarrow> Inl e
      | Inr t' \<Rightarrow> (case find p (registration_rules t) of
            None \<Rightarrow> Inl NoRows | Some r \<Rightarrow> Inr (rr_id r, t')))"

definition sql_replace_rule ::
    "string \<Rightarrow> int \<Rightarrow> string \<Rightarrow> string \<Rightarrow> string \<Rightarrow> int \<Rightarrow> string stmt" where
  "sql_replace_rule ruleID revision selectorsJSON desiredState parentSPIFFEID ttl u now t =
     (if \<not> text_ok desiredState \<or> \<not> text_ok parentSPIFFEID then Inl bad_encoding
      else (case (uuid_in ruleID, jsonb_in selectorsJSON) of
          (Some i, Some sels) \<Rightarrow>
            returning_id (\<lambda>r. rr_id r = i \<and> rr_revision r = revision)
              (replaced_row sels desiredState parentSPIFFEID ttl now) t
        | _ \<Rightarrow> Inl invalid_text))"

section \<open>The mutations\<close>

definition string_array :: "string list \<Rightarrow> json" where
  "string_array ss = JArr (map JStr ss)"

definition rule_event :: "reg_actor \<Rightarrow> string \<Rightarrow> string \<Rightarrow> string \<Rightarrow> string \<Rightarrow> json \<Rightarrow> Event" where
  "rule_event actor correlationID organizationID action targetID metadata =
     \<lparr>EventID = [], EventOrganizationID = Some organizationID, EventActorType = ra_Type actor,
      EventActorID = ra_ID actor, Action = action, TargetType = ''registration_rule'', TargetID = targetID,
      CorrelationID = correlationID, Metadata = Marshal metadata, CreatedAt = 0\<rparr>"

definition rule_fields :: "string \<Rightarrow> int \<Rightarrow> int \<Rightarrow> int \<Rightarrow> (string \<times> json) list" where
  "rule_fields desiredState revision selectorCount ttl =
     [(''desired_state'', JStr desiredState), (''revision'', json_int revision),
      (''selector_count'', json_int selectorCount), (''x509_svid_ttl_seconds'', json_int ttl)]"

definition create_metadata :: "reg_actor \<Rightarrow> MutationResult \<Rightarrow> json" where
  "create_metadata actor r = json_map ([(''operation'', JStr ''create''), (''operator_role'', JStr (ra_Role actor))]
     @ rule_fields (mr_DesiredState r) (mr_Revision r) (mr_SelectorCount r) (mr_TTL r))"

definition create_rule_body ::
    "pg \<Rightarrow> reg_actor \<Rightarrow> string \<Rightarrow> CreateDesiredInput \<Rightarrow> (db, reg_error, MutationResult) action" where
  "create_rule_body pg actor correlationID input =
     and_then (wrap_err (\<lambda>e. if e = NoRows then ErrNotFound
                              else DbError ''resolve workload for registration create'' e)
         (run_stmt pg (sql_workload_organization (cd_WorkloadID input))))
       (\<lambda>organizationID.
     and_then (wrap_err (DbError ''create registration desired state'')
         (run_stmt pg (sql_insert_registration_rule organizationID (cd_WorkloadID input)
            (Marshal (string_array (cd_Selectors input))) (cd_ParentSPIFFEID input) (cd_TTL input))))
       (\<lambda>ruleID.
     let result = \<lparr>mr_ID = ruleID, mr_OrganizationID = organizationID, mr_WorkloadID = cd_WorkloadID input,
           mr_DesiredState = ''present'', mr_Revision = 1, mr_TTL = cd_TTL input,
           mr_SelectorCount = int (length (cd_Selectors input)), mr_ReconcileStatus = ''pending''\<rparr> in
     and_then (wrap_err (AuditError ''audit registration create'')
         (Append (tx_queryer pg) (rule_event actor correlationID organizationID
            ''registration_rule.create_desired_state'' ruleID (create_metadata actor result))))
       (\<lambda>_. returns result)))"

definition CreateDesired ::
    "pg \<Rightarrow> reg_actor \<Rightarrow> string \<Rightarrow> CreateDesiredInput \<Rightarrow> (db, reg_error, MutationResult) action" where
  "CreateDesired pg actor correlationID input =
     and_then (check_none ErrInvalidInput (reg_validateActor actor)) (\<lambda>_.
     and_then (guards (correlationID \<noteq> []) (ErrInvalidInput CorrelationMissing)) (\<lambda>_.
     and_then (check_none ErrInvalidInput (reg_validateCreateInput input)) (\<lambda>_.
     with_tx pg (DbError ''begin registration create transaction'') (DbError ''commit registration create'')
       (create_rule_body pg actor correlationID input))))"

definition replace_metadata :: "reg_actor \<Rightarrow> before_rule \<Rightarrow> int \<Rightarrow> MutationResult \<Rightarrow> json" where
  "replace_metadata actor b beforeCount r =
     json_map [(''operation'', JStr ''replace''), (''operator_role'', JStr (ra_Role actor)),
       (''before'', json_map (rule_fields (br_State b) (br_Revision b) beforeCount (br_TTL b))),
       (''after'', json_map (rule_fields (mr_DesiredState r) (mr_Revision r) (mr_SelectorCount r) (mr_TTL r)))]"

definition decode_selectors :: "json \<Rightarrow> (db, reg_error, string list) action" where
  "decode_selectors v = (case Unmarshal_strings v of None \<Rightarrow> throws SelectorsUndecodable | Some ss \<Rightarrow> returns ss)"

definition replace_rule_body ::
    "pg \<Rightarrow> reg_actor \<Rightarrow> string \<Rightarrow> string \<Rightarrow> ReplaceDesiredInput \<Rightarrow> (db, reg_error, MutationResult) action" where
  "replace_rule_body pg actor correlationID ruleID input =
     and_then (wrap_err (\<lambda>e. if e = NoRows then ErrNotFound
                              else DbError ''load registration rule for replace'' e)
         (run_stmt pg (sql_rule_for_update ruleID)))
       (\<lambda>b.
     and_then (guards (br_Revision b = rd_ExpectedRevision input) ErrConflict) (\<lambda>_.
     and_then (decode_selectors (br_Selectors b)) (\<lambda>decodedBefore.
     let result = \<lparr>mr_ID = ruleID, mr_OrganizationID = br_organizationID b, mr_WorkloadID = br_workloadID b,
           mr_DesiredState = rd_DesiredState input, mr_Revision = wrap64 (br_Revision b + 1),
           mr_TTL = rd_TTL input, mr_SelectorCount = int (length (rd_Selectors input)),
           mr_ReconcileStatus = ''pending''\<rparr> in
     and_then (wrap_err (\<lambda>e. if e = NoRows then ErrConflict
                              else DbError ''replace registration desired state'' e)
         (run_stmt pg (sql_replace_rule ruleID (rd_ExpectedRevision input)
            (Marshal (string_array (rd_Selectors input))) (rd_DesiredState input)
            (rd_ParentSPIFFEID input) (rd_TTL input))))
       (\<lambda>_.
     and_then (wrap_err (AuditError ''audit registration replace'')
         (Append (tx_queryer pg) (rule_event actor correlationID (br_organizationID b)
            ''registration_rule.replace_desired_state'' ruleID
            (replace_metadata actor b (int (length decodedBefore)) result))))
       (\<lambda>_. returns result)))))"

definition ReplaceDesired ::
    "pg \<Rightarrow> reg_actor \<Rightarrow> string \<Rightarrow> string \<Rightarrow> ReplaceDesiredInput \<Rightarrow> (db, reg_error, MutationResult) action" where
  "ReplaceDesired pg actor correlationID ruleID input =
     and_then (check_none ErrInvalidInput (reg_validateActor actor)) (\<lambda>_.
     and_then (guards (correlationID \<noteq> []) (ErrInvalidInput CorrelationMissing)) (\<lambda>_.
     and_then (check_none ErrInvalidInput (validateReplaceInput ruleID input)) (\<lambda>_.
     with_tx pg (DbError ''begin registration replace transaction'') (DbError ''commit registration replace'')
       (replace_rule_body pg actor correlationID ruleID input))))"

section \<open>The store of \<open>postgres.go\<close>\<close>

record Rule =
  RuleID :: string
  RuleOrganizationID :: string
  RuleWorkloadID :: string
  WorkloadSPIFFEID :: string
  Selectors :: "string list"
  DesiredState :: string
  Revision :: int
  ParentSPIFFEID :: "string option"
  X509SVIDTTLSeconds :: int
  SPIREEntryID :: "string option"
  ReconcileStatus :: string
  LastReconciledAt :: "int option"
  LastErrorCode :: "string option"

datatype store_error = StoreDb string pg_error | RuleSelectorsUndecodable

text \<open>
  UUIDs are ordered as their 16 bytes, which is the order of their texts. Every rule joins its
  workload.
\<close>

definition sql_list_rules :: "(rule_row \<times> string) list stmt" where
  "sql_list_rules u now t =
     Inr (List.map_filter (\<lambda>r. map_option (\<lambda>w. (r, wl_spiffe_id w))
            (find (\<lambda>w. wl_id w = rr_workload r) (workloads t)))
         (sort_key (\<lambda>r. (rr_org r, rr_id r)) (registration_rules t)), t)"

definition scan_rule :: "rule_row \<times> string \<Rightarrow> Rule option" where
  "scan_rule = (\<lambda>(r, spiffe).
     map_option (\<lambda>sels. \<lparr>RuleID = rr_id r, RuleOrganizationID = rr_org r, RuleWorkloadID = rr_workload r,
         WorkloadSPIFFEID = spiffe, Selectors = sels, DesiredState = rr_desired r, Revision = rr_revision r,
         ParentSPIFFEID = rr_parent r, X509SVIDTTLSeconds = rr_ttl r, SPIREEntryID = rr_entry r,
         ReconcileStatus = rr_status r, LastReconciledAt = rr_reconciled r, LastErrorCode = rr_error r\<rparr>)
       (Unmarshal_strings (rr_selectors r)))"

fun scan_rules :: "(rule_row \<times> string) list \<Rightarrow> Rule list option" where
  "scan_rules [] = Some []"
| "scan_rules (r # rs) = (case scan_rule r of None \<Rightarrow> None | Some x \<Rightarrow> map_option ((#) x) (scan_rules rs))"

definition reg_List :: "pg \<Rightarrow> (db, store_error, Rule list) action" where
  "reg_List pg =
     and_then (wrap_err (StoreDb ''query registration rules'') (pool_stmt pg sql_list_rules))
       (\<lambda>rows. case scan_rules rows of None \<Rightarrow> throws RuleSelectorsUndecodable | Some rs \<Rightarrow> returns rs)"

definition converged_row :: "string option \<Rightarrow> int \<Rightarrow> rule_row \<Rightarrow> rule_row" where
  "converged_row entry now r = r\<lparr>rr_entry := entry, rr_status := ''converged'',
     rr_reconciled := Some now, rr_error := None, rr_updated := now\<rparr>"

definition sql_mark_converged :: "string \<Rightarrow> string option \<Rightarrow> string stmt" where
  "sql_mark_converged ruleID entry u now t =
     (if (case entry of None \<Rightarrow> False | Some e \<Rightarrow> \<not> text_ok e) then Inl bad_encoding
      else (case uuid_in ruleID of
          None \<Rightarrow> Inl invalid_text
        | Some i \<Rightarrow> returning_id (\<lambda>r. rr_id r = i) (converged_row entry now) t))"

definition reg_MarkConverged :: "pg \<Rightarrow> string \<Rightarrow> string option \<Rightarrow> (db, store_error, unit) action" where
  "reg_MarkConverged pg ruleID spireEntryID =
     and_then (wrap_err (StoreDb ''mark registration rule converged'')
         (pool_stmt pg (sql_mark_converged ruleID spireEntryID)))
       (\<lambda>_. returns ())"

definition error_row :: "string \<Rightarrow> int \<Rightarrow> rule_row \<Rightarrow> rule_row" where
  "error_row code now r = r\<lparr>rr_status := ''error'', rr_error := Some code, rr_updated := now\<rparr>"

definition sql_mark_error :: "string \<Rightarrow> string \<Rightarrow> string stmt" where
  "sql_mark_error ruleID code u now t =
     (if \<not> text_ok code then Inl bad_encoding
      else (case uuid_in ruleID of
          None \<Rightarrow> Inl invalid_text
        | Some i \<Rightarrow> returning_id (\<lambda>r. rr_id r = i) (error_row code now) t))"

definition reg_MarkError :: "pg \<Rightarrow> string \<Rightarrow> string \<Rightarrow> (db, store_error, unit) action" where
  "reg_MarkError pg ruleID errorCode =
     and_then (wrap_err (StoreDb ''mark registration rule error'') (pool_stmt pg (sql_mark_error ruleID errorCode)))
       (\<lambda>_. returns ())"

section \<open>What a mutation changes\<close>

definition rule_created ::
    "pg \<Rightarrow> reg_actor \<Rightarrow> string \<Rightarrow> CreateDesiredInput \<Rightarrow> int \<Rightarrow> tables \<Rightarrow> MutationResult \<Rightarrow> tables \<Rightarrow> bool" where
  "rule_created pg actor correlationID input now t res t' \<longleftrightarrow> (\<exists>w org mid ev.
     find (\<lambda>w. uuid_in (cd_WorkloadID input) = Some (wl_id w)) (workloads t) = Some w
     \<and> uuid_in (wl_org w) = Some org
     \<and> res = \<lparr>mr_ID = mr_ID res, mr_OrganizationID = wl_org w, mr_WorkloadID = cd_WorkloadID input,
          mr_DesiredState = ''present'', mr_Revision = 1, mr_TTL = cd_TTL input,
          mr_SelectorCount = int (length (cd_Selectors input)), mr_ReconcileStatus = ''pending''\<rparr>
     \<and> insert_rule \<lparr>rr_id = mr_ID res, rr_org = org, rr_workload = wl_id w,
          rr_selectors = string_array (map coerce (cd_Selectors input)), rr_desired = ''present'',
          rr_revision = 1, rr_updated = now, rr_parent = Some (cd_ParentSPIFFEID input),
          rr_ttl = cd_TTL input, rr_entry = None, rr_status = ''pending'', rr_reconciled = None,
          rr_error = None\<rparr> t = Inr mid
     \<and> logged mid ev t'
     \<and> event_row (rule_event actor correlationID (wl_org w) ''registration_rule.create_desired_state''
          (mr_ID res) (create_metadata actor res)) (ae_id ev) now = Some ev)
   \<and> mr_ID res \<in> range (pg_uuid pg)"

definition rule_replaced ::
    "reg_actor \<Rightarrow> string \<Rightarrow> string \<Rightarrow> ReplaceDesiredInput \<Rightarrow> int \<Rightarrow> tables \<Rightarrow> MutationResult \<Rightarrow> tables \<Rightarrow> bool" where
  "rule_replaced actor correlationID ruleID input now t res t' \<longleftrightarrow> (\<exists>r olds mid ev.
     find (\<lambda>r. uuid_in ruleID = Some (rr_id r)) (registration_rules t) = Some r
     \<and> rr_revision r = rd_ExpectedRevision input
     \<and> Unmarshal_strings (rr_selectors r) = Some olds
     \<and> res = \<lparr>mr_ID = ruleID, mr_OrganizationID = rr_org r, mr_WorkloadID = rr_workload r,
          mr_DesiredState = rd_DesiredState input, mr_Revision = rr_revision r + 1,
          mr_TTL = rd_TTL input, mr_SelectorCount = int (length (rd_Selectors input)),
          mr_ReconcileStatus = ''pending''\<rparr>
     \<and> update_rules (\<lambda>x. rr_id x = rr_id r \<and> rr_revision x = rr_revision r)
          (replaced_row (string_array (map coerce (rd_Selectors input))) (rd_DesiredState input)
             (rd_ParentSPIFFEID input) (rd_TTL input) now) t = Inr mid
     \<and> logged mid ev t'
     \<and> event_row (rule_event actor correlationID (rr_org r) ''registration_rule.replace_desired_state'' ruleID
          (replace_metadata actor \<lparr>br_organizationID = rr_org r, br_workloadID = rr_workload r,
              br_State = rr_desired r, br_Revision = rr_revision r, br_TTL = rr_ttl r,
              br_Selectors = rr_selectors r\<rparr> (int (length olds)) res)) (ae_id ev) now = Some ev)"

lemma encodable_string_array [simp]: "encodable 0 (string_array ss)"
  by (simp add: string_array_def maxNestingDepth_def)

lemma utf8_string_array [simp]: "utf8_json (string_array ss) = string_array (map coerce ss)"
  by (simp add: string_array_def comp_def)

lemma encodable_create_metadata [simp]: "encodable 0 (create_metadata actor r)"
  by (auto simp: create_metadata_def rule_fields_def maxNestingDepth_def intro!: encodable_json_map)

lemma encodable_replace_metadata [simp]: "encodable 0 (replace_metadata actor b n r)"
  by (auto simp: replace_metadata_def rule_fields_def maxNestingDepth_def intro!: encodable_json_map)

lemma metadata_not_Nil [simp]:
  "Marshal (create_metadata actor r) \<noteq> []" "Marshal (replace_metadata actor b n r) \<noteq> []"
  by (simp_all add: create_metadata_def replace_metadata_def)

lemma rule_event_metadata [simp]: "Metadata (rule_event actor c org action target m) = Marshal m"
  by (simp add: rule_event_def)

lemma sql_workload_organization_Inr:
  "sql_workload_organization wid u now t = Inr (org, t') \<Longrightarrow>
     t' = t \<and> (\<exists>w. find (\<lambda>w. uuid_in wid = Some (wl_id w)) (workloads t) = Some w \<and> org = wl_org w)"
  by (auto simp: sql_workload_organization_def find_uuid split: option.splits)

lemma sql_insert_registration_rule_Inr:
  assumes "sql_insert_registration_rule org wid (Marshal (string_array sels)) parent ttl u now t = Inr (i, t')"
  shows "i = u \<and> (\<exists>org' wid'. uuid_in org = Some org' \<and> uuid_in wid = Some wid'
     \<and> insert_rule \<lparr>rr_id = u, rr_org = org', rr_workload = wid', rr_selectors = string_array (map coerce sels),
          rr_desired = ''present'', rr_revision = 1, rr_updated = now, rr_parent = Some parent, rr_ttl = ttl,
          rr_entry = None, rr_status = ''pending'', rr_reconciled = None, rr_error = None\<rparr> t = Inr t')"
  using assms by (auto simp: sql_insert_registration_rule_def jsonb_in_Marshal
      split: if_splits option.splits sum.splits)

lemma create_rule_body_Inr:
  assumes "create_rule_body pg actor c input s = (Inr res, s')"
  shows "rule_created pg actor c input (started s) (tables s) res (tables s')"
proof -
  from assms obtain org s1 i s2 s3 ev' where
    a: "run_stmt pg (sql_workload_organization (cd_WorkloadID input)) s = (Inr org, s1)"
    and b: "run_stmt pg (sql_insert_registration_rule org (cd_WorkloadID input)
        (Marshal (string_array (cd_Selectors input))) (cd_ParentSPIFFEID input) (cd_TTL input)) s1 = (Inr i, s2)"
    and res: "res = \<lparr>mr_ID = i, mr_OrganizationID = org, mr_WorkloadID = cd_WorkloadID input,
           mr_DesiredState = ''present'', mr_Revision = 1, mr_TTL = cd_TTL input,
           mr_SelectorCount = int (length (cd_Selectors input)), mr_ReconcileStatus = ''pending''\<rparr>"
    and c: "Append (tx_queryer pg) (rule_event actor c org ''registration_rule.create_desired_state'' i
        (create_metadata actor res)) s2 = (Inr ev', s')"
    by (auto simp: create_rule_body_def Let_def)
  from a sql_workload_organization_Inr obtain w where
    w: "find (\<lambda>w. uuid_in (cd_WorkloadID input) = Some (wl_id w)) (workloads (tables s)) = Some w"
      "org = wl_org w" "tables s1 = tables s" "started s1 = started s"
    by (fastforce simp: run_stmt_Inr)
  from find_Some_mem[OF w(1)] have wid: "uuid_in (cd_WorkloadID input) = Some (wl_id w)" by simp
  from b have s2: "started s2 = started s" using w(4) run_stmt_tick by metis
  from b w obtain org' where
    ins: "uuid_in (wl_org w) = Some org'" "insert_rule \<lparr>rr_id = i, rr_org = org', rr_workload = wl_id w,
          rr_selectors = string_array (map coerce (cd_Selectors input)), rr_desired = ''present'',
          rr_revision = 1, rr_updated = started s, rr_parent = Some (cd_ParentSPIFFEID input),
          rr_ttl = cd_TTL input, rr_entry = None, rr_status = ''pending'', rr_reconciled = None,
          rr_error = None\<rparr> (tables s) = Inr (tables s2)" "i \<in> range (pg_uuid pg)"
    using wid by (auto simp: run_stmt_Inr dest!: sql_insert_registration_rule_Inr)
  from tx_Append_logs[OF c] obtain row where
    "event_row (rule_event actor c org ''registration_rule.create_desired_state'' i
        (create_metadata actor res)) (ae_id row) (started s) = Some row" "logged (tables s2) row (tables s')"
    using s2 by auto
  with w ins res show ?thesis unfolding rule_created_def by auto
qed

interpretation create_rule: tx_body "create_rule_body pg actor c input" "rule_created pg actor c input"
  for pg actor c input
  by unfold_locales (rule create_rule_body_Inr)

lemma sql_rule_for_update_Inr:
  "sql_rule_for_update rid u now t = Inr (b, t') \<Longrightarrow>
     t' = t \<and> (\<exists>r. find (\<lambda>r. uuid_in rid = Some (rr_id r)) (registration_rules t) = Some r
       \<and> b = \<lparr>br_organizationID = rr_org r, br_workloadID = rr_workload r, br_State = rr_desired r,
           br_Revision = rr_revision r, br_TTL = rr_ttl r, br_Selectors = rr_selectors r\<rparr>)"
  by (auto simp: sql_rule_for_update_def find_uuid split: option.splits)

lemma returning_id_Inr:
  "returning_id p f t = Inr (i, t') \<longleftrightarrow> update_rules p f t = Inr t'
     \<and> (\<exists>r. find p (registration_rules t) = Some r \<and> i = rr_id r)"
  by (auto simp: returning_id_def split: sum.splits option.splits)

lemma sql_replace_rule_Inr:
  assumes "sql_replace_rule rid rv (Marshal (string_array sels)) desired parent ttl u now t = Inr (i, t')"
  shows "uuid_in rid = Some i \<and> update_rules (\<lambda>r. rr_id r = i \<and> rr_revision r = rv)
     (replaced_row (string_array (map coerce sels)) desired parent ttl now) t = Inr t'"
  using assms by (auto simp: sql_replace_rule_def jsonb_in_Marshal returning_id_Inr
      dest!: find_Some_mem split: if_splits option.splits)

lemma wrap64_next: "in_int64 (x + 1) \<Longrightarrow> wrap64 (x + 1) = x + 1"
  by simp

lemma replace_rule_body_Inr:
  assumes "replace_rule_body pg actor c rid input s = (Inr res, s')"
  shows "rule_replaced actor c rid input (started s) (tables s) res (tables s')"
proof -
  from assms obtain b s1 olds i s2 ev' where
    a: "run_stmt pg (sql_rule_for_update rid) s = (Inr b, s1)" "br_Revision b = rd_ExpectedRevision input"
      "Unmarshal_strings (br_Selectors b) = Some olds"
    and b: "run_stmt pg (sql_replace_rule rid (rd_ExpectedRevision input)
            (Marshal (string_array (rd_Selectors input))) (rd_DesiredState input)
            (rd_ParentSPIFFEID input) (rd_TTL input)) s1 = (Inr i, s2)"
    and res: "res = \<lparr>mr_ID = rid, mr_OrganizationID = br_organizationID b, mr_WorkloadID = br_workloadID b,
           mr_DesiredState = rd_DesiredState input, mr_Revision = wrap64 (br_Revision b + 1),
           mr_TTL = rd_TTL input, mr_SelectorCount = int (length (rd_Selectors input)),
           mr_ReconcileStatus = ''pending''\<rparr>"
    and c: "Append (tx_queryer pg) (rule_event actor c (br_organizationID b)
            ''registration_rule.replace_desired_state'' rid
            (replace_metadata actor b (int (length olds)) res)) s2 = (Inr ev', s')"
    by (auto simp: replace_rule_body_def decode_selectors_def Let_def split: option.splits)
  from a(1) sql_rule_for_update_Inr obtain r where
    r: "find (\<lambda>r. uuid_in rid = Some (rr_id r)) (registration_rules (tables s)) = Some r"
      "b = \<lparr>br_organizationID = rr_org r, br_workloadID = rr_workload r, br_State = rr_desired r,
           br_Revision = rr_revision r, br_TTL = rr_ttl r, br_Selectors = rr_selectors r\<rparr>"
      "tables s1 = tables s" "started s1 = started s"
    by (fastforce simp: run_stmt_Inr)
  from find_Some_mem[OF r(1)] have rid: "r \<in> set (registration_rules (tables s))" "uuid_in rid = Some (rr_id r)"
    by simp_all
  from b have s2: "started s2 = started s" using r(4) run_stmt_tick by metis
  have up: "update_rules (\<lambda>x. rr_id x = rr_id r \<and> rr_revision x = rr_revision r)
      (replaced_row (string_array (map coerce (rd_Selectors input))) (rd_DesiredState input)
         (rd_ParentSPIFFEID input) (rd_TTL input) (started s)) (tables s) = Inr (tables s2)"
    using b rid a(2) r by (auto simp: run_stmt_Inr dest!: sql_replace_rule_Inr)
  then have "in_int64 (rr_revision r + 1)"
    using rid by (auto simp: update_rules_Inr list_all_iff replaced_row_def)
  with res r(2) have res': "res = \<lparr>mr_ID = rid, mr_OrganizationID = rr_org r, mr_WorkloadID = rr_workload r,
          mr_DesiredState = rd_DesiredState input, mr_Revision = rr_revision r + 1,
          mr_TTL = rd_TTL input, mr_SelectorCount = int (length (rd_Selectors input)),
          mr_ReconcileStatus = ''pending''\<rparr>"
    by simp
  from tx_Append_logs[OF c] obtain row where
    row: "event_row (rule_event actor c (br_organizationID b) ''registration_rule.replace_desired_state'' rid
        (replace_metadata actor b (int (length olds)) res)) (ae_id row) (started s) = Some row"
      "logged (tables s2) row (tables s')"
    using s2 by auto
  show ?thesis
    unfolding rule_replaced_def using r(1) a(2,3) res' up row unfolding r(2)
    by (intro exI[of _ r] exI[of _ olds] exI[of _ "tables s2"] exI[of _ row]) simp
qed

interpretation replace_rule: tx_body "replace_rule_body pg actor c rid input" "rule_replaced actor c rid input"
  for pg actor c rid input
  by unfold_locales (rule replace_rule_body_Inr)

end
