(* ===== verification/Registration_Facts.thy ===== *)
theory Registration_Facts
  imports Registration
begin

text \<open>
  What the registration component promises: the outcome of the two mutations on the tables, the
  optimistic concurrency control on the revision, what validation lets through, and what the
  store hands to the reconciler.
\<close>

section \<open>The handlers\<close>

lemma CreateDesired_Inr:
  assumes "CreateDesired pg actor c input s = (Inr res, s')"
  shows "reg_validateActor actor = None" "c \<noteq> []" "reg_validateCreateInput input = None"
    and "rule_created pg actor c input (pg_now pg (tick s)) (tables s) res (tables s')"
  using assms create_rule.success by (auto simp: CreateDesired_def)

lemma ReplaceDesired_Inr:
  assumes "ReplaceDesired pg actor c rid input s = (Inr res, s')"
  shows "reg_validateActor actor = None" "c \<noteq> []" "validateReplaceInput rid input = None"
    and "rule_replaced actor c rid input (pg_now pg (tick s)) (tables s) res (tables s')"
  using assms replace_rule.success by (auto simp: ReplaceDesired_def)

lemma CreateDesired_Inl:
  assumes "CreateDesired pg actor c input s = (Inl e, s')"
  shows "tables s' = tables s \<or> e = DbError ''commit registration create'' ConnFailed
    \<and> (\<exists>res n. pg_commit pg n = AckLost \<and> rule_created pg actor c input (pg_now pg (tick s)) (tables s) res (tables s'))"
proof -
  from assms consider "s' = s"
    | "with_tx pg (DbError ''begin registration create transaction'') (DbError ''commit registration create'')
         (create_rule_body pg actor c input) s = (Inl e, s')"
    unfolding CreateDesired_def by (auto simp: action_Inl simp del: list.simps)
  then show ?thesis using create_rule.failure by cases blast+
qed

lemma ReplaceDesired_Inl:
  assumes "ReplaceDesired pg actor c rid input s = (Inl e, s')"
  shows "tables s' = tables s \<or> e = DbError ''commit registration replace'' ConnFailed
    \<and> (\<exists>res n. pg_commit pg n = AckLost \<and> rule_replaced actor c rid input (pg_now pg (tick s)) (tables s) res (tables s'))"
proof -
  from assms consider "s' = s"
    | "with_tx pg (DbError ''begin registration replace transaction'') (DbError ''commit registration replace'')
         (replace_rule_body pg actor c rid input) s = (Inl e, s')"
    unfolding ReplaceDesired_def by (auto simp: action_Inl simp del: list.simps)
  then show ?thesis using replace_rule.failure by cases blast+
qed

lemma ReplaceDesired_blocked:
  assumes "\<And>res t'. \<not> rule_replaced actor c rid input (pg_now pg (tick s)) (tables s) res t'"
    and "ReplaceDesired pg actor c rid input s = (r, s')"
  shows "(\<exists>e. r = Inl e) \<and> tables s' = tables s"
  using ReplaceDesired_Inr(4) ReplaceDesired_Inl assms by (cases r) blast+

section \<open>The tables after a change\<close>

lemma rule_event_row:
  assumes "event_row (rule_event actor c org action target m) i at = Some row" "encodable 0 m"
  shows "ae_actor_type row = ra_Type actor \<and> ae_actor_id row = ra_ID actor \<and> ae_action row = action
    \<and> ae_target_type row = ''registration_rule'' \<and> ae_target_id row = target \<and> ae_correlation row = c
    \<and> ae_created row = at \<and> ae_metadata row = utf8_json m \<and> ae_org row = uuid_in org"
  using event_row_fields[OF assms(1)] assms(2)
  by (auto simp: rule_event_def organization_in_def jsonb_in_Marshal split: if_splits)

lemma schema_rule_created:
  "schema_ok t \<Longrightarrow> rule_created pg actor c input now t res t' \<Longrightarrow> schema_ok t'"
  unfolding rule_created_def using schema_insert_rule schema_logged by blast

lemma schema_rule_replaced:
  "schema_ok t \<Longrightarrow> rule_replaced actor c rid input now t res t' \<Longrightarrow> schema_ok t'"
  unfolding rule_replaced_def using schema_update_rules schema_logged by blast

lemma replaced_row_revision: "rr_revision (replaced_row sels d p ttl now x) = rr_revision x + 1"
  by (simp add: replaced_row_def)

text \<open>After a replacement the rule has the next revision, and no other row has its ID.\<close>

lemma rule_replaced_revision:
  assumes "rule_replaced actor c rid input now t res t'"
  obtains r where "r \<in> set (registration_rules t)" "uuid_in rid = Some (rr_id r)"
    "rr_revision r = rd_ExpectedRevision input" "mr_Revision res = rr_revision r + 1"
    "registration_rules t' = update_rows (\<lambda>x. rr_id x = rr_id r \<and> rr_revision x = rr_revision r)
       (replaced_row (string_array (map coerce (rd_Selectors input))) (rd_DesiredState input)
         (rd_ParentSPIFFEID input) (rd_TTL input) now) (registration_rules t)"
    "distinct (map rr_id (registration_rules t))"
proof -
  from assms obtain r olds mid ev where
    f: "find (\<lambda>r. uuid_in rid = Some (rr_id r)) (registration_rules t) = Some r"
    and r: "rr_revision r = rd_ExpectedRevision input" "mr_Revision res = rr_revision r + 1"
    and u: "update_rules (\<lambda>x. rr_id x = rr_id r \<and> rr_revision x = rr_revision r)
          (replaced_row (string_array (map coerce (rd_Selectors input))) (rd_DesiredState input)
             (rd_ParentSPIFFEID input) (rd_TTL input) now) t = Inr mid"
    and l: "logged mid ev t'"
    unfolding rule_replaced_def by (elim exE conjE) (rule that, assumption, assumption, simp, assumption, assumption)
  from u have d: "distinct (map rr_id (registration_rules t))"
    by (simp add: update_rules_Inr rule_uniques_def replaced_row_def)
  show ?thesis
    using that[OF _ _ r _ d] find_Some_mem[OF f] u logged_with_event[OF l]
    by (simp add: update_rules_Inr)
qed

section \<open>Example runs\<close>

definition example_actor :: reg_actor where
  "example_actor = \<lparr>ra_Type = ''operator'', ra_ID = ''alice'', ra_Role = ''operator''\<rparr>"

definition example_create :: CreateDesiredInput where
  "example_create = \<lparr>cd_WorkloadID = uuid_n 91, cd_Selectors = [''unix:uid:1000''],
     cd_ParentSPIFFEID = ''spiffe://td.example/agent'', cd_TTL = 600\<rparr>"

definition example_replace :: ReplaceDesiredInput where
  "example_replace = \<lparr>rd_ExpectedRevision = 1, rd_DesiredState = ''absent'', rd_Selectors = [''unix:uid:1000''],
     rd_ParentSPIFFEID = ''spiffe://td.example/agent'', rd_TTL = 900\<rparr>"

definition example_rule :: rule_row where
  "example_rule = \<lparr>rr_id = uuid_n 80, rr_org = uuid_n 90, rr_workload = uuid_n 91,
     rr_selectors = string_array [''unix:uid:1000''], rr_desired = ''present'', rr_revision = 1, rr_updated = 0,
     rr_parent = Some ''spiffe://td.example/agent'', rr_ttl = 600, rr_entry = Some ''e1'',
     rr_status = ''converged'', rr_reconciled = Some 0, rr_error = None\<rparr>"

definition rule_db :: db where
  "rule_db = example_db\<lparr>tables := example_tables\<lparr>registration_rules := [example_rule]\<rparr>\<rparr>"

lemma example_create_run:
  "\<exists>s'. CreateDesired example_pg example_actor ''c1'' example_create example_db =
     (Inr \<lparr>mr_ID = uuid_n 2, mr_OrganizationID = uuid_n 90, mr_WorkloadID = uuid_n 91, mr_DesiredState = ''present'',
        mr_Revision = 1, mr_TTL = 600, mr_SelectorCount = 1, mr_ReconcileStatus = ''pending''\<rparr>, s')"
proof -
  have "fst (CreateDesired example_pg example_actor ''c1'' example_create example_db) =
     Inr \<lparr>mr_ID = uuid_n 2, mr_OrganizationID = uuid_n 90, mr_WorkloadID = uuid_n 91, mr_DesiredState = ''present'',
        mr_Revision = 1, mr_TTL = 600, mr_SelectorCount = 1, mr_ReconcileStatus = ''pending''\<rparr>"
    by code_simp
  then show ?thesis by (cases "CreateDesired example_pg example_actor ''c1'' example_create example_db") auto
qed

lemma example_replace_run:
  "\<exists>s'. ReplaceDesired example_pg example_actor ''c2'' (uuid_n 80) example_replace rule_db =
     (Inr \<lparr>mr_ID = uuid_n 80, mr_OrganizationID = uuid_n 90, mr_WorkloadID = uuid_n 91, mr_DesiredState = ''absent'',
        mr_Revision = 2, mr_TTL = 900, mr_SelectorCount = 1, mr_ReconcileStatus = ''pending''\<rparr>, s')"
proof -
  have "fst (ReplaceDesired example_pg example_actor ''c2'' (uuid_n 80) example_replace rule_db) =
     Inr \<lparr>mr_ID = uuid_n 80, mr_OrganizationID = uuid_n 90, mr_WorkloadID = uuid_n 91, mr_DesiredState = ''absent'',
        mr_Revision = 2, mr_TTL = 900, mr_SelectorCount = 1, mr_ReconcileStatus = ''pending''\<rparr>"
    by code_simp
  then show ?thesis
    by (cases "ReplaceDesired example_pg example_actor ''c2'' (uuid_n 80) example_replace rule_db") auto
qed

section \<open>Atomicity\<close>

lemma CreateDesired_atomic:
  assumes "CreateDesired pg actor c cin s = (Inl e, s')"
  shows "tables s' = tables s
      \<or> e = DbError ''commit registration create'' ConnFailed \<and> (\<exists>n. pg_commit pg n = AckLost)
        \<and> (\<exists>row ev. tables s' = (tables s)\<lparr>registration_rules := registration_rules (tables s) @ [row],
               audit_events := audit_events (tables s) @ [ev]\<rparr>
             \<and> ae_target_id ev = rr_id row \<and> ae_actor_id ev = ra_ID actor)"
  using CreateDesired_Inl[OF assms]
proof (elim disjE conjE exE)
  fix res n
  assume e: "e = DbError ''commit registration create'' ConnFailed" "pg_commit pg n = AckLost"
    and "rule_created pg actor c cin (pg_now pg (tick s)) (tables s) res (tables s')"
  then obtain row mid ev org where i: "insert_rule row (tables s) = Inr mid" "rr_id row = mr_ID res"
    "logged mid ev (tables s')"
    "event_row (rule_event actor c org ''registration_rule.create_desired_state''
        (mr_ID res) (create_metadata actor res)) (ae_id ev) (pg_now pg (tick s)) = Some ev"
    unfolding rule_created_def by (elim exE conjE) (rule that, assumption, simp, assumption+)
  with e rule_event_row[OF i(4)] logged_with_event[OF i(3)] show ?thesis
    by (intro disjI2 conjI exI[of _ n] exI[of _ row] exI[of _ ev]) (auto simp: insert_rule_Inr with_event_def)
qed simp

lemma ReplaceDesired_atomic:
  assumes "ReplaceDesired pg actor c rid rin s = (Inl e, s')"
  shows "tables s' = tables s
      \<or> e = DbError ''commit registration replace'' ConnFailed \<and> (\<exists>n. pg_commit pg n = AckLost)
        \<and> (\<exists>f ev. tables s' = (tables s)\<lparr>
               registration_rules := map (\<lambda>x. if uuid_in rid = Some (rr_id x) \<and> rr_revision x = rd_ExpectedRevision rin
                 then f x else x) (registration_rules (tables s)),
               audit_events := audit_events (tables s) @ [ev]\<rparr>
             \<and> (\<forall>x. rr_revision (f x) = rr_revision x + 1)
             \<and> ae_target_id ev = rid \<and> ae_actor_id ev = ra_ID actor)"
  using ReplaceDesired_Inl[OF assms]
proof (elim disjE conjE exE)
  fix res n
  let ?f = "replaced_row (string_array (map coerce (rd_Selectors rin))) (rd_DesiredState rin)
           (rd_ParentSPIFFEID rin) (rd_TTL rin) (pg_now pg (tick s))"
  assume e: "e = DbError ''commit registration replace'' ConnFailed" "pg_commit pg n = AckLost"
    and "rule_replaced actor c rid rin (pg_now pg (tick s)) (tables s) res (tables s')"
  then obtain r mid ev m where
    f: "find (\<lambda>r. uuid_in rid = Some (rr_id r)) (registration_rules (tables s)) = Some r"
    and r: "rr_revision r = rd_ExpectedRevision rin"
    and u: "update_rules (\<lambda>x. rr_id x = rr_id r \<and> rr_revision x = rr_revision r) ?f (tables s) = Inr mid"
    and l: "logged mid ev (tables s')" and en: "encodable 0 m"
    and ev: "event_row (rule_event actor c (rr_org r) ''registration_rule.replace_desired_state'' rid m)
        (ae_id ev) (pg_now pg (tick s)) = Some ev"
    unfolding rule_replaced_def
    by (elim exE conjE) (rule that, assumption, assumption, assumption, assumption,
        rule encodable_replace_metadata, assumption)
  have "uuid_in rid = Some (rr_id r)" using find_Some_mem[OF f] by simp
  with r have rows: "update_rows (\<lambda>x. rr_id x = rr_id r \<and> rr_revision x = rr_revision r) ?f (registration_rules (tables s))
      = map (\<lambda>x. if uuid_in rid = Some (rr_id x) \<and> rr_revision x = rd_ExpectedRevision rin then ?f x else x)
          (registration_rules (tables s))"
    unfolding update_rows_def by (intro map_cong refl) auto
  have "mid = (tables s)\<lparr>registration_rules := map (\<lambda>x. if uuid_in rid = Some (rr_id x)
      \<and> rr_revision x = rd_ExpectedRevision rin then ?f x else x) (registration_rules (tables s))\<rparr>"
    using u unfolding update_rules_Inr rows by blast
  then have "tables s' = (tables s)\<lparr>registration_rules := map (\<lambda>x. if uuid_in rid = Some (rr_id x)
      \<and> rr_revision x = rd_ExpectedRevision rin then ?f x else x) (registration_rules (tables s)),
      audit_events := audit_events (tables s) @ [ev]\<rparr>"
    using logged_with_event[OF l] by (simp add: with_event_def)
  moreover have "\<forall>x. rr_revision (?f x) = rr_revision x + 1" by (simp add: replaced_row_def)
  moreover have "ae_target_id ev = rid \<and> ae_actor_id ev = ra_ID actor" using rule_event_row[OF ev en] by blast
  ultimately show ?thesis using e by blast
qed simp

section \<open>Properties\<close>

text \<open>
  C10. What \<open>CreateDesired\<close> does when it succeeds: it appends one rule for the workload, at
  revision 1, desired present and pending, with no SPIRE entry, with the requested selectors
  (re-encoded as UTF-8), parent and TTL; the workload had no rule before; it appends one audit
  event attributed to the actor, carrying the correlation ID and naming the new rule; and it
  changes nothing else.
\<close>

theorem CreateDesired_effect:
  assumes "CreateDesired pg actor c input s = (Inr res, s')"
  shows "\<exists>w row ev. w \<in> set (workloads (tables s)) \<and> uuid_in (cd_WorkloadID input) = Some (wl_id w)
    \<and> wl_id w \<notin> set (map rr_workload (registration_rules (tables s)))
    \<and> tables s' = (tables s)\<lparr>registration_rules := registration_rules (tables s) @ [row],
                               audit_events := audit_events (tables s) @ [ev]\<rparr>
    \<and> rr_id row = mr_ID res \<and> rr_workload row = wl_id w \<and> uuid_in (wl_org w) = Some (rr_org row)
    \<and> rr_selectors row = string_array (map coerce (cd_Selectors input)) \<and> rr_desired row = ''present''
    \<and> rr_revision row = 1 \<and> rr_parent row = Some (cd_ParentSPIFFEID input) \<and> rr_ttl row = cd_TTL input
    \<and> rr_entry row = None \<and> rr_status row = ''pending'' \<and> rr_error row = None
    \<and> ae_actor_type ev = ''operator'' \<and> ae_actor_id ev = ra_ID actor \<and> ae_correlation ev = c
    \<and> ae_action ev = ''registration_rule.create_desired_state'' \<and> ae_target_type ev = ''registration_rule''
    \<and> ae_target_id ev = mr_ID res \<and> ae_metadata ev = utf8_json (create_metadata actor res)
    \<and> ae_org ev = Some (rr_org row)"
proof -
  note v = CreateDesired_Inr[OF assms]
  have op: "ra_Type actor = ''operator''" using v(1) by (auto simp: reg_validateActor_def split: if_splits)
  from v(4) obtain w org mid ev where
    f: "find (\<lambda>w. uuid_in (cd_WorkloadID input) = Some (wl_id w)) (workloads (tables s)) = Some w"
    and o: "uuid_in (wl_org w) = Some org"
    and i: "insert_rule \<lparr>rr_id = mr_ID res, rr_org = org, rr_workload = wl_id w,
          rr_selectors = string_array (map coerce (cd_Selectors input)), rr_desired = ''present'',
          rr_revision = 1, rr_updated = pg_now pg (tick s), rr_parent = Some (cd_ParentSPIFFEID input),
          rr_ttl = cd_TTL input, rr_entry = None, rr_status = ''pending'', rr_reconciled = None,
          rr_error = None\<rparr> (tables s) = Inr mid"
    and l: "logged mid ev (tables s')"
    and e: "event_row (rule_event actor c (wl_org w) ''registration_rule.create_desired_state''
          (mr_ID res) (create_metadata actor res)) (ae_id ev) (pg_now pg (tick s)) = Some ev"
    unfolding rule_created_def by blast
  from i have "wl_id w \<notin> set (map rr_workload (registration_rules (tables s)))"
    by (simp add: insert_rule_Inr rule_uniques_def)
  moreover note find_Some_mem[OF f] rule_event_row[OF e] logged_with_event[OF l]
  ultimately show ?thesis
    using i o op by (intro exI[of _ w] exI exI[of _ ev]) (auto simp: insert_rule_Inr with_event_def)
qed

theorem CreateDesired_effect_witness:
  "\<exists>s' row. CreateDesired example_pg example_actor ''c1'' example_create example_db = (Inr
      \<lparr>mr_ID = uuid_n 2, mr_OrganizationID = uuid_n 90, mr_WorkloadID = uuid_n 91, mr_DesiredState = ''present'',
        mr_Revision = 1, mr_TTL = 600, mr_SelectorCount = 1, mr_ReconcileStatus = ''pending''\<rparr>, s')
    \<and> row \<in> set (registration_rules (tables s')) \<and> rr_id row = uuid_n 2"
proof -
  obtain s' where r: "CreateDesired example_pg example_actor ''c1'' example_create example_db = (Inr
      \<lparr>mr_ID = uuid_n 2, mr_OrganizationID = uuid_n 90, mr_WorkloadID = uuid_n 91, mr_DesiredState = ''present'',
        mr_Revision = 1, mr_TTL = 600, mr_SelectorCount = 1, mr_ReconcileStatus = ''pending''\<rparr>, s')"
    using example_create_run by blast
  from CreateDesired_effect[OF r] obtain row where
    "registration_rules (tables s') = registration_rules (tables example_db) @ [row]" "rr_id row = uuid_n 2"
    by auto
  with r show ?thesis by auto
qed

text \<open>
  C9. What \<open>ReplaceDesired\<close> does when it succeeds: the one rule with that ID, which was at the
  expected revision, moves to the next revision with the requested state, selectors, parent and
  TTL, becomes pending with its error cleared, and keeps its identity, its workload and its SPIRE
  entry binding; every other rule is untouched; one audit event attributed to the actor is
  appended; and nothing else changes.
\<close>

theorem ReplaceDesired_effect:
  assumes "ReplaceDesired pg actor c rid input s = (Inr res, s')"
  shows "\<exists>r ev olds. r \<in> set (registration_rules (tables s)) \<and> uuid_in rid = Some (rr_id r)
    \<and> rr_revision r = rd_ExpectedRevision input \<and> mr_Revision res = rr_revision r + 1
    \<and> Unmarshal_strings (rr_selectors r) = Some olds
    \<and> tables s' = (tables s)\<lparr>
        registration_rules := map (\<lambda>x. if x = r then r\<lparr>
            rr_selectors := string_array (map coerce (rd_Selectors input)),
            rr_desired := rd_DesiredState input, rr_revision := rr_revision r + 1,
            rr_parent := Some (rd_ParentSPIFFEID input), rr_ttl := rd_TTL input,
            rr_status := ''pending'', rr_error := None, rr_updated := pg_now pg (tick s)\<rparr> else x)
          (registration_rules (tables s)),
        audit_events := audit_events (tables s) @ [ev]\<rparr>
    \<and> ae_actor_type ev = ''operator'' \<and> ae_actor_id ev = ra_ID actor \<and> ae_correlation ev = c
    \<and> ae_action ev = ''registration_rule.replace_desired_state'' \<and> ae_target_type ev = ''registration_rule''
    \<and> ae_target_id ev = rid \<and> ae_org ev = uuid_in (rr_org r)
    \<and> ae_metadata ev = utf8_json (replace_metadata actor \<lparr>br_organizationID = rr_org r,
        br_workloadID = rr_workload r, br_State = rr_desired r, br_Revision = rr_revision r,
        br_TTL = rr_ttl r, br_Selectors = rr_selectors r\<rparr> (int (length olds)) res)"
proof -
  note v = ReplaceDesired_Inr[OF assms]
  have op: "ra_Type actor = ''operator''" using v(1) by (auto simp: reg_validateActor_def split: if_splits)
  let ?f = "replaced_row (string_array (map coerce (rd_Selectors input))) (rd_DesiredState input)
             (rd_ParentSPIFFEID input) (rd_TTL input) (pg_now pg (tick s))"
  from v(4) obtain r olds mid ev where
    f: "find (\<lambda>r. uuid_in rid = Some (rr_id r)) (registration_rules (tables s)) = Some r"
    and r: "rr_revision r = rd_ExpectedRevision input" "Unmarshal_strings (rr_selectors r) = Some olds"
      "mr_Revision res = rr_revision r + 1"
    and u: "update_rules (\<lambda>x. rr_id x = rr_id r \<and> rr_revision x = rr_revision r) ?f (tables s) = Inr mid"
    and l: "logged mid ev (tables s')"
    and e: "event_row (rule_event actor c (rr_org r) ''registration_rule.replace_desired_state'' rid
          (replace_metadata actor \<lparr>br_organizationID = rr_org r, br_workloadID = rr_workload r,
              br_State = rr_desired r, br_Revision = rr_revision r, br_TTL = rr_ttl r,
              br_Selectors = rr_selectors r\<rparr> (int (length olds)) res)) (ae_id ev) (pg_now pg (tick s)) = Some ev"
    unfolding rule_replaced_def by (elim exE conjE) (rule that, assumption, assumption, assumption, simp, assumption+)
  note m = find_Some_mem[OF f]
  have d: "distinct (map rr_id (registration_rules (tables s)))"
    using u by (simp add: update_rules_Inr rule_uniques_def replaced_row_def)
  have "update_rows (\<lambda>x. rr_id x = rr_id r \<and> rr_revision x = rr_revision r) ?f (registration_rules (tables s))
      = map (\<lambda>x. if x = r then ?f r else x) (registration_rules (tables s))"
    unfolding update_rows_def using find_unique_key[OF d] m by (intro map_cong) auto
  moreover note rule_event_row[OF e] logged_with_event[OF l]
  ultimately show ?thesis
    using m r u op by (intro exI[of _ r] exI[of _ ev] exI[of _ olds])
      (simp add: update_rules_Inr with_event_def replaced_row_def)
qed

theorem ReplaceDesired_effect_witness:
  "\<exists>res s' ev. ReplaceDesired example_pg example_actor ''c2'' (uuid_n 80) example_replace rule_db = (Inr res, s')
    \<and> mr_Revision res = 2 \<and> audit_events (tables s') = [ev] \<and> ae_actor_id ev = ''alice''"
proof -
  obtain res s' where run: "ReplaceDesired example_pg example_actor ''c2'' (uuid_n 80) example_replace rule_db = (Inr res, s')"
    and two: "mr_Revision res = 2" using example_replace_run by force
  from ReplaceDesired_effect[OF run] obtain ev where
    "audit_events (tables s') = audit_events (tables rule_db) @ [ev]" "ae_actor_id ev = ra_ID example_actor"
    by auto
  with run two show ?thesis
    by (auto simp: rule_db_def example_db_def example_tables_def example_actor_def)
qed

text \<open>
  C11. Mutations are atomic with their audit event: when \<open>CreateDesired\<close> or \<open>ReplaceDesired\<close>
  returns an error, then either no table has changed at all, or the error is that of the commit,
  its acknowledgement was lost, and the whole change has been made, the rule together with its one
  audit event. In particular no failed audit append leaves a changed rule behind.
\<close>

theorem registration_mutations_atomic:
  "(\<forall>e s'. CreateDesired pg actor c cin s = (Inl e, s') \<longrightarrow> tables s' = tables s
      \<or> e = DbError ''commit registration create'' ConnFailed \<and> (\<exists>n. pg_commit pg n = AckLost)
        \<and> (\<exists>row ev. tables s' = (tables s)\<lparr>registration_rules := registration_rules (tables s) @ [row],
               audit_events := audit_events (tables s) @ [ev]\<rparr>
             \<and> ae_target_id ev = rr_id row \<and> ae_actor_id ev = ra_ID actor))
   \<and> (\<forall>e s'. ReplaceDesired pg actor c rid rin s = (Inl e, s') \<longrightarrow> tables s' = tables s
      \<or> e = DbError ''commit registration replace'' ConnFailed \<and> (\<exists>n. pg_commit pg n = AckLost)
        \<and> (\<exists>f ev. tables s' = (tables s)\<lparr>
               registration_rules := map (\<lambda>x. if uuid_in rid = Some (rr_id x) \<and> rr_revision x = rd_ExpectedRevision rin
                 then f x else x) (registration_rules (tables s)),
               audit_events := audit_events (tables s) @ [ev]\<rparr>
             \<and> (\<forall>x. rr_revision (f x) = rr_revision x + 1)
             \<and> ae_target_id ev = rid \<and> ae_actor_id ev = ra_ID actor))"
  using CreateDesired_atomic ReplaceDesired_atomic by blast

text \<open>A server whose first fault is the acknowledgement of the fifth round trip.\<close>

definition lossy_pg :: pg where
  "lossy_pg = example_pg\<lparr>pg_commit := (\<lambda>n. AckLost)\<rparr>"

theorem registration_mutations_atomic_witness:
  "\<exists>s' row ev. CreateDesired lossy_pg example_actor ''c1'' example_create example_db
      = (Inl (DbError ''commit registration create'' ConnFailed), s')
    \<and> tables s' = example_tables\<lparr>registration_rules := [row], audit_events := [ev]\<rparr> \<and> ae_target_id ev = rr_id row"
proof -
  have "fst (CreateDesired lossy_pg example_actor ''c1'' example_create example_db)
      = Inl (DbError ''commit registration create'' ConnFailed)"
    "length (registration_rules (tables (snd (CreateDesired lossy_pg example_actor ''c1'' example_create example_db)))) = 1"
    by code_simp+
  then obtain s' where run: "CreateDesired lossy_pg example_actor ''c1'' example_create example_db
      = (Inl (DbError ''commit registration create'' ConnFailed), s')" "length (registration_rules (tables s')) = 1"
    by (cases "CreateDesired lossy_pg example_actor ''c1'' example_create example_db") auto
  then have "tables s' \<noteq> tables example_db" by (auto simp: example_db_def example_tables_def)
  with registration_mutations_atomic[of lossy_pg example_actor "''c1''" example_create example_db "[]" undefined] run
  show ?thesis by (auto simp: example_db_def example_tables_def)
qed

text \<open>
  Optimistic concurrency: a replacement whose expected revision is not the rule's revision is
  refused with the conflict error and changes nothing, whatever else it asks for.
\<close>

theorem ReplaceDesired_stale_revision:
  assumes "reg_validateActor actor = None" "c \<noteq> []" "validateReplaceInput rid input = None"
    and "find (\<lambda>r. uuid_in rid = Some (rr_id r)) (registration_rules (tables s)) = Some r"
    and "rr_revision r \<noteq> rd_ExpectedRevision input"
    and "\<not> pg_fault pg (tick s)" "\<not> pg_fault pg (Suc (tick s))"
  shows "\<exists>s'. ReplaceDesired pg actor c rid input s = (Inl ErrConflict, s') \<and> tables s' = tables s"
proof -
  let ?s0 = "s\<lparr>tick := Suc (tick s), started := pg_now pg (tick s)\<rparr>"
  obtain i where i: "uuid_in rid = Some i" using find_Some_mem[OF assms(4)] by auto
  with assms(4) have "find (\<lambda>r. rr_id r = i) (registration_rules (tables s)) = Some r"
    by (simp add: eq_commute[of i])
  with i assms(7) have "run_stmt pg (sql_rule_for_update rid) ?s0 = (Inr \<lparr>br_organizationID = rr_org r,
      br_workloadID = rr_workload r, br_State = rr_desired r, br_Revision = rr_revision r, br_TTL = rr_ttl r,
      br_Selectors = rr_selectors r\<rparr>, ?s0\<lparr>tick := Suc (Suc (tick s))\<rparr>)"
    by (simp add: run_stmt_def sql_rule_for_update_def Let_def)
  with assms(5) have "replace_rule_body pg actor c rid input ?s0 = (Inl ErrConflict, ?s0\<lparr>tick := Suc (Suc (tick s))\<rparr>)"
    by (simp add: replace_rule_body_def action_defs guards_def)
  from with_tx_body_error[where body = "replace_rule_body pg actor c rid input" and s = s, OF assms(6) this]
    assms(1-3) show ?thesis
    by (simp add: ReplaceDesired_def and_then_def check_none_def guards_def returns_def)
qed

theorem ReplaceDesired_stale_revision_witness:
  "\<exists>s'. ReplaceDesired example_pg example_actor ''c2'' (uuid_n 80) (example_replace\<lparr>rd_ExpectedRevision := 7\<rparr>) rule_db
     = (Inl ErrConflict, s') \<and> tables s' = tables rule_db"
proof (rule ReplaceDesired_stale_revision[where r = example_rule])
  show "reg_validateActor example_actor = None" "validateReplaceInput (uuid_n 80) (example_replace\<lparr>rd_ExpectedRevision := 7\<rparr>) = None"
    by code_simp+
  show "find (\<lambda>r. uuid_in (uuid_n 80) = Some (rr_id r)) (registration_rules (tables rule_db)) = Some example_rule"
    by code_simp
  show "rr_revision example_rule \<noteq> rd_ExpectedRevision (example_replace\<lparr>rd_ExpectedRevision := 7\<rparr>)" by code_simp
qed (simp_all add: example_pg_def)



end
