(* ===== verification/Registration_Store.thy ===== *)
theory Registration_Store
  imports Registration_Facts
begin

text \<open>
  What validation lets into the registration table, and what the store of \<open>postgres.go\<close> gives
  the reconciler: \<open>List\<close>, \<open>MarkConverged\<close> and \<open>MarkError\<close>.
\<close>

section \<open>Validation\<close>

text \<open>A selector: a type of 1 to 64 plain bytes, a colon, and a value without control characters.\<close>

definition selector_ok :: "string \<Rightarrow> bool" where
  "selector_ok raw \<longleftrightarrow> (\<exists>kind val. raw = kind @ '':'' @ val \<and> CHR '':'' \<notin> set kind
     \<and> 1 \<le> length kind \<and> length kind \<le> 64 \<and> (\<forall>c \<in> set kind. is_alnum c \<or> c \<in> set ''._-'')
     \<and> val \<noteq> [] \<and> length val \<le> 512 \<and> \<not> has_control val)"

lemma selectorType_match:
  "MatchString selectorTypeExpr kind \<longleftrightarrow>
     1 \<le> length kind \<and> length kind \<le> 64 \<and> (\<forall>c \<in> set kind. is_alnum c \<or> c \<in> set ''._-'')"
  (is "?l \<longleftrightarrow> ?r")
proof
  assume ?l
  with MatchString_length[OF this] MatchString_bytes[OF this] show ?r by (auto simp: selectorTypeExpr_def)
next
  assume ?r
  then have "length kind \<in> set [1..<Suc 64]" by simp
  with \<open>?r\<close> show ?l unfolding selectorTypeExpr_def MatchString.simps list_ex_iff
    by (intro bexI[of _ "length kind"]) (auto simp: list_all_iff)
qed

lemma selector_ok_cut:
  "selector_ok raw \<longleftrightarrow> (case Cut raw CHR '':'' of (kind, val, ok) \<Rightarrow> ok \<and> MatchString selectorTypeExpr kind
     \<and> val \<noteq> [] \<and> length val \<le> MaxSelectorValueBytes \<and> \<not> has_control val)"
proof -
  obtain k v ok where cut: "Cut raw CHR '':'' = (k, v, ok)" by (cases "Cut raw CHR '':''")
  show ?thesis
  proof
    assume "selector_ok raw"
    then obtain kind val where raw: "raw = kind @ '':'' @ val" "CHR '':'' \<notin> set kind"
      and r: "1 \<le> length kind" "length kind \<le> 64" "\<forall>c \<in> set kind. is_alnum c \<or> c \<in> set ''._-''"
        "val \<noteq> []" "length val \<le> 512" "\<not> has_control val"
      unfolding selector_ok_def by blast
    from Cut_append[OF raw(2), of val] raw(1) r show "case Cut raw CHR '':'' of (kind, val, ok) \<Rightarrow>
        ok \<and> MatchString selectorTypeExpr kind \<and> val \<noteq> [] \<and> length val \<le> MaxSelectorValueBytes \<and> \<not> has_control val"
      by (simp add: selectorType_match MaxSelectorValueBytes_def)
  next
    assume "case Cut raw CHR '':'' of (kind, val, ok) \<Rightarrow>
        ok \<and> MatchString selectorTypeExpr kind \<and> val \<noteq> [] \<and> length val \<le> MaxSelectorValueBytes \<and> \<not> has_control val"
    with cut have "ok" and r: "MatchString selectorTypeExpr k" "v \<noteq> []" "length v \<le> 512" "\<not> has_control v"
      by (auto simp: MaxSelectorValueBytes_def)
    with cut have "raw = k @ '':'' @ v \<and> CHR '':'' \<notin> set k" using Cut_found by fastforce
    with r show "selector_ok raw" unfolding selector_ok_def selectorType_match by blast
  qed
qed

lemma check_selectors_None:
  "check_selectors seen sels = None \<longleftrightarrow> (\<forall>raw \<in> set sels. selector_ok raw) \<and> distinct sels \<and> set sels \<inter> set seen = {}"
proof (induction sels arbitrary: seen)
  case Nil
  then show ?case by simp
next
  case (Cons raw sels)
  then show ?case by (auto simp: selector_ok_cut split: prod.splits)
qed

section \<open>The store\<close>

lemma map_filter_all:
  "(\<And>x. x \<in> set xs \<Longrightarrow> f x = Some (g x)) \<Longrightarrow> List.map_filter f xs = map g xs"
  by (induction xs) (auto simp: List.map_filter_simps)

lemma scan_rules_Some: "scan_rules rs = Some xs \<longleftrightarrow> list_all2 (\<lambda>r x. scan_rule r = Some x) rs xs"
  by (induction rs arbitrary: xs) (auto simp: list_all2_Cons1 split: option.splits)

lemma scan_rules_None: "scan_rules rs = None \<longleftrightarrow> (\<exists>r \<in> set rs. scan_rule r = None)"
  by (induction rs) (auto split: option.splits)

lemma update_rules_schema: "schema_ok t \<Longrightarrow> returning_id p f t = Inr (i, t') \<Longrightarrow> schema_ok t'"
  using schema_update_rules by (auto simp: returning_id_Inr)

text \<open>What marking does, when it takes effect: on success, or with its acknowledgement lost.\<close>

lemma reg_MarkConverged_cases:
  assumes "reg_MarkConverged pg rid entry s = (r, s')"
  shows "(\<exists>e. r = Inl e) \<and> tables s' = tables s
    \<or> uuid_in rid \<noteq> None \<and> (r = Inr () \<or> pg_commit pg (tick s) = AckLost)
      \<and> (\<exists>i. returning_id (\<lambda>x. uuid_in rid = Some (rr_id x)) (converged_row entry (pg_now pg (tick s))) (tables s)
           = Inr (i, tables s'))"
proof -
  let ?q = "sql_mark_converged rid entry"
  have q: "uuid_in rid \<noteq> None \<and> returning_id (\<lambda>x. uuid_in rid = Some (rr_id x)) (converged_row entry now) t = Inr (i, t')"
    if "?q u now t = Inr (i, t')" for u now t i t'
    using that by (auto simp: sql_mark_converged_def eq_commute split: if_splits option.splits)
  from assms consider i where "pool_stmt pg ?q s = (Inr i, s')" "r = Inr ()"
    | e where "pool_stmt pg ?q s = (Inl e, s')" "\<exists>e. r = Inl e"
    by (cases r) (auto simp: reg_MarkConverged_def action_Inl returns_def)
  then show ?thesis
  proof cases
    case 1
    then show ?thesis using q by (auto simp: pool_stmt_Inr)
  next
    case 2
    from pool_stmt_Inl[OF 2(1)] q 2(2) show ?thesis by blast
  qed
qed

lemma reg_MarkError_cases:
  assumes "reg_MarkError pg rid code s = (r, s')"
  shows "(\<exists>e. r = Inl e) \<and> tables s' = tables s
    \<or> uuid_in rid \<noteq> None \<and> (r = Inr () \<or> pg_commit pg (tick s) = AckLost)
      \<and> (\<exists>i. returning_id (\<lambda>x. uuid_in rid = Some (rr_id x)) (error_row code (pg_now pg (tick s))) (tables s)
           = Inr (i, tables s'))"
proof -
  let ?q = "sql_mark_error rid code"
  have q: "uuid_in rid \<noteq> None \<and> returning_id (\<lambda>x. uuid_in rid = Some (rr_id x)) (error_row code now) t = Inr (i, t')"
    if "?q u now t = Inr (i, t')" for u now t i t'
    using that by (auto simp: sql_mark_error_def eq_commute split: if_splits option.splits)
  from assms consider i where "pool_stmt pg ?q s = (Inr i, s')" "r = Inr ()"
    | e where "pool_stmt pg ?q s = (Inl e, s')" "\<exists>e. r = Inl e"
    by (cases r) (auto simp: reg_MarkError_def action_Inl returns_def)
  then show ?thesis
  proof cases
    case 1
    then show ?thesis using q by (auto simp: pool_stmt_Inr)
  next
    case 2
    from pool_stmt_Inl[OF 2(1)] q 2(2) show ?thesis by blast
  qed
qed

lemma schema_marked:
  "schema_ok (tables s) \<Longrightarrow> schema_ok (tables (snd (reg_MarkConverged pg rid entry s)))"
  "schema_ok (tables s) \<Longrightarrow> schema_ok (tables (snd (reg_MarkError pg rid code s)))"
  using reg_MarkConverged_cases[of pg rid entry s] reg_MarkError_cases[of pg rid code s] update_rules_schema
  by (metis prod.collapse)+

text \<open>With the schema's foreign key every rule joins its workload, so the query returns them all.\<close>

definition listed_rows :: "tables \<Rightarrow> (rule_row \<times> string) list" where
  "listed_rows t = map (\<lambda>r. (r, wl_spiffe_id (the (find (\<lambda>w. wl_id w = rr_workload r) (workloads t)))))
     (sort_key (\<lambda>r. (rr_org r, rr_id r)) (registration_rules t))"

lemma rule_joins:
  assumes "schema_ok t" "r \<in> set (registration_rules t)"
  obtains w where "find (\<lambda>w. wl_id w = rr_workload r) (workloads t) = Some w" "w \<in> set (workloads t)" "wl_id w = rr_workload r"
proof -
  from assms have "rr_workload r \<in> wl_id ` set (workloads t)"
    by (auto simp: schema_ok_def rule_fks_def list_all_iff)
  then have "find (\<lambda>w. wl_id w = rr_workload r) (workloads t) \<noteq> None" by (auto simp: find_None_iff_set)
  then show ?thesis using that find_Some_mem by fastforce
qed

lemma list_rules_run:
  assumes "schema_ok (tables s)" "\<not> pg_fault pg (tick s)" "pg_commit pg (tick s) = Committed"
  shows "pool_stmt pg sql_list_rules s
     = (Inr (listed_rows (tables s)), s\<lparr>tick := Suc (tick s), started := pg_now pg (tick s)\<rparr>)"
proof -
  have "List.map_filter (\<lambda>r. map_option (\<lambda>w. (r, wl_spiffe_id w))
        (find (\<lambda>w. wl_id w = rr_workload r) (workloads (tables s))))
        (sort_key (\<lambda>r. (rr_org r, rr_id r)) (registration_rules (tables s))) = listed_rows (tables s)"
    unfolding listed_rows_def by (rule map_filter_all) (auto elim: rule_joins[OF assms(1)])
  with assms(2,3) show ?thesis by (simp add: pool_stmt_def sql_list_rules_def Let_def)
qed

lemma scan_listed:
  assumes "schema_ok t" "r \<in> set (registration_rules t)"
    and "scan_rule (r, wl_spiffe_id (the (find (\<lambda>w. wl_id w = rr_workload r) (workloads t)))) = Some x"
  shows "RuleID x = rr_id r \<and> Unmarshal_strings (rr_selectors r) = Some (Selectors x)
    \<and> DesiredState x = rr_desired r \<and> Revision x = rr_revision r \<and> ParentSPIFFEID x = rr_parent r
    \<and> X509SVIDTTLSeconds x = rr_ttl r \<and> SPIREEntryID x = rr_entry r \<and> ReconcileStatus x = rr_status r
    \<and> (\<exists>w \<in> set (workloads t). wl_id w = rr_workload r \<and> WorkloadSPIFFEID x = wl_spiffe_id w)"
proof -
  obtain w where "find (\<lambda>w. wl_id w = rr_workload r) (workloads t) = Some w" "w \<in> set (workloads t)"
    "wl_id w = rr_workload r" by (rule rule_joins[OF assms(1,2)])
  with assms(3) show ?thesis by (auto simp: scan_rule_def)
qed

section \<open>Properties\<close>

text \<open>
  C15. Exactly what the registration API accepts: a desired state is accepted if and only if
  it is \<open>present\<close> or \<open>absent\<close>, the TTL is between 60 and 86400 seconds, the parent is an accepted
  SPIFFE ID, and there are 1 to 32 pairwise distinct selectors, each a type of 1 to 64 letters,
  digits, dots, underscores or dashes, a colon, and a value of 1 to 512 bytes without control
  characters.
\<close>

theorem validateDesiredFields_accepts:
  "validateDesiredFields desired sels parent ttl = None \<longleftrightarrow>
     desired \<in> {''present'', ''absent''} \<and> 60 \<le> ttl \<and> ttl \<le> 86400 \<and> reg_validateSPIFFEID parent = None
     \<and> 1 \<le> length sels \<and> length sels \<le> 32 \<and> distinct sels
     \<and> (\<forall>raw \<in> set sels. \<exists>kind val. raw = kind @ '':'' @ val \<and> CHR '':'' \<notin> set kind
          \<and> 1 \<le> length kind \<and> length kind \<le> 64 \<and> (\<forall>c \<in> set kind. is_alnum c \<or> c \<in> set ''._-'')
          \<and> val \<noteq> [] \<and> length val \<le> 512 \<and> \<not> has_control val)"
proof -
  have "validateDesiredFields desired sels parent ttl = None \<longleftrightarrow>
     (desired = ''present'' \<or> desired = ''absent'') \<and> 60 \<le> ttl \<and> ttl \<le> 86400 \<and> reg_validateSPIFFEID parent = None
     \<and> sels \<noteq> [] \<and> length sels \<le> 32 \<and> check_selectors [] sels = None"
    by (auto simp: validateDesiredFields_def MinX509SVIDTTLSeconds_def MaxX509SVIDTTLSeconds_def MaxSelectors_def
        split: option.splits)
  then show ?thesis
    unfolding check_selectors_None selector_ok_def by (auto simp: Suc_le_eq)
qed

theorem validateDesiredFields_accepts_witness:
  "validateDesiredFields ''present'' [''unix:uid:1000''] ''spiffe://td.example/agent'' 600 = None
   \<and> validateDesiredFields ''present'' [''unix:uid:1000''] ''spiffe://td.example/agent'' 59 \<noteq> None
   \<and> (\<exists>kind val. ''unix:uid:1000'' = kind @ '':'' @ val \<and> CHR '':'' \<notin> set kind)"
proof -
  have ok: "validateDesiredFields ''present'' [''unix:uid:1000''] ''spiffe://td.example/agent'' 600 = None"
    by code_simp
  have "\<forall>raw \<in> set [''unix:uid:1000'']. \<exists>kind val. raw = kind @ '':'' @ val \<and> CHR '':'' \<notin> set kind"
    using validateDesiredFields_accepts[THEN iffD1, OF ok] by metis
  moreover have "validateDesiredFields ''present'' [''unix:uid:1000''] ''spiffe://td.example/agent'' 59 \<noteq> None"
    using validateDesiredFields_accepts[of "''present''" _ _ 59] by simp
  ultimately show ?thesis using ok by simp
qed

text \<open>
  C16. What the reconciler is given: with the schema's constraints and no fault, \<open>List\<close> returns
  every registration rule, in the order of organization and rule ID, each with the SPIFFE ID of
  its workload, unless some row's selectors are not an array of strings: then the whole list is
  refused with a decoding error. It changes nothing.
\<close>

theorem List_every_rule_or_none:
  assumes "schema_ok (tables s)" "\<not> pg_fault pg (tick s)" "pg_commit pg (tick s) = Committed"
  shows "tables (snd (reg_List pg s)) = tables s
    \<and> (if \<forall>r \<in> set (registration_rules (tables s)). Unmarshal_strings (rr_selectors r) \<noteq> None
       then \<exists>rules. fst (reg_List pg s) = Inr rules
         \<and> list_all2 (\<lambda>r x. RuleID x = rr_id r \<and> Unmarshal_strings (rr_selectors r) = Some (Selectors x)
              \<and> DesiredState x = rr_desired r \<and> Revision x = rr_revision r \<and> ParentSPIFFEID x = rr_parent r
              \<and> X509SVIDTTLSeconds x = rr_ttl r \<and> SPIREEntryID x = rr_entry r \<and> ReconcileStatus x = rr_status r
              \<and> (\<exists>w \<in> set (workloads (tables s)). wl_id w = rr_workload r \<and> WorkloadSPIFFEID x = wl_spiffe_id w))
             (sort_key (\<lambda>r. (rr_org r, rr_id r)) (registration_rules (tables s))) rules
       else fst (reg_List pg s) = Inl RuleSelectorsUndecodable)"
proof (cases "scan_rules (listed_rows (tables s))")
  case None
  then have "\<not> (\<forall>r \<in> set (registration_rules (tables s)). Unmarshal_strings (rr_selectors r) \<noteq> None)"
    by (auto simp: scan_rules_None scan_rule_def listed_rows_def)
  with None list_rules_run[OF assms] show ?thesis by (simp add: reg_List_def action_defs)
next
  case (Some rules)
  then have "scan_rules (listed_rows (tables s)) \<noteq> None" by simp
  then have "\<forall>r \<in> set (registration_rules (tables s)). Unmarshal_strings (rr_selectors r) \<noteq> None"
    by (auto simp: scan_rules_None scan_rule_def listed_rows_def)
  moreover have "list_all2 (\<lambda>r x. RuleID x = rr_id r \<and> Unmarshal_strings (rr_selectors r) = Some (Selectors x)
              \<and> DesiredState x = rr_desired r \<and> Revision x = rr_revision r \<and> ParentSPIFFEID x = rr_parent r
              \<and> X509SVIDTTLSeconds x = rr_ttl r \<and> SPIREEntryID x = rr_entry r \<and> ReconcileStatus x = rr_status r
              \<and> (\<exists>w \<in> set (workloads (tables s)). wl_id w = rr_workload r \<and> WorkloadSPIFFEID x = wl_spiffe_id w))
      (sort_key (\<lambda>r. (rr_org r, rr_id r)) (registration_rules (tables s))) rules"
    using Some[unfolded scan_rules_Some listed_rows_def list_all2_map1]
    by (rule list.rel_mono_strong) (rule scan_listed[OF assms(1)], simp_all)
  ultimately show ?thesis
    using Some list_rules_run[OF assms] by (simp add: reg_List_def action_defs)
qed

theorem List_every_rule_or_none_witness:
  "(\<exists>x. fst (reg_List example_pg rule_db) = Inr [x] \<and> WorkloadSPIFFEID x = ''spiffe://td.example/api'')"
proof -
  have "schema_ok (tables rule_db)" by code_simp
  from List_every_rule_or_none[OF this, of example_pg]
  have "\<exists>x. fst (reg_List example_pg rule_db) = Inr [x]
      \<and> (\<exists>w \<in> set (workloads (tables rule_db)). WorkloadSPIFFEID x = wl_spiffe_id w)"
    by (auto simp: example_pg_def rule_db_def example_tables_def example_rule_def string_array_def
        list_all2_Cons1 Unmarshal_JStr[of "[''unix:uid:1000'']", simplified])
  then show ?thesis by (simp add: rule_db_def example_tables_def example_workload_def)
qed

text \<open>
  C19. Marking a rule converged does not look at its revision: if an operator replaces the
  desired state after the reconciler has listed the rule, and the reconciler then marks the
  rule converged, the stored rule carries the operator's new revision and new desired state with
  the status \<open>converged\<close>, although nothing has applied that state.
\<close>

theorem MarkConverged_hides_newer_revision:
  assumes "ReplaceDesired pg actor c rid input s = (Inr res, s1)"
    and "reg_MarkConverged pg2 rid entry s1 = (Inr (), s2)"
  shows "\<exists>r \<in> set (registration_rules (tables s2)). uuid_in rid = Some (rr_id r)
    \<and> rr_revision r = mr_Revision res \<and> rr_desired r = rd_DesiredState input
    \<and> rr_selectors r = string_array (map coerce (rd_Selectors input)) \<and> rr_status r = ''converged''
    \<and> rr_entry r = entry \<and> rr_error r = None"
proof -
  from rule_replaced_revision[OF ReplaceDesired_Inr(4)[OF assms(1)]] obtain r f where
    r: "r \<in> set (registration_rules (tables s))" "uuid_in rid = Some (rr_id r)" "mr_Revision res = rr_revision r + 1"
    and f: "f = replaced_row (string_array (map coerce (rd_Selectors input))) (rd_DesiredState input)
         (rd_ParentSPIFFEID input) (rd_TTL input) (pg_now pg (tick s))"
    and up: "registration_rules (tables s1) = update_rows (\<lambda>x. rr_id x = rr_id r \<and> rr_revision x = rr_revision r) f
       (registration_rules (tables s))"
    by (rule rule_replaced_revision[OF ReplaceDesired_Inr(4)[OF assms(1)]]) (rule that, assumption, assumption, assumption, rule refl, assumption)
  from r(1) up have m: "f r \<in> set (registration_rules (tables s1))" by (auto simp: update_rows_def)
  from reg_MarkConverged_cases[OF assms(2)] obtain i where
    "returning_id (\<lambda>x. uuid_in rid = Some (rr_id x)) (converged_row entry (pg_now pg2 (tick s1))) (tables s1) = Inr (i, tables s2)"
    by auto
  then have "registration_rules (tables s2) = update_rows (\<lambda>x. uuid_in rid = Some (rr_id x))
      (converged_row entry (pg_now pg2 (tick s1))) (registration_rules (tables s1))"
    by (auto simp: returning_id_Inr update_rules_Inr)
  with m r(2) have "converged_row entry (pg_now pg2 (tick s1)) (f r) \<in> set (registration_rules (tables s2))"
    by (force simp: update_rows_def f replaced_row_def)
  then show ?thesis
    by (rule bexI[rotated]) (simp add: converged_row_def f replaced_row_def r)
qed

theorem MarkConverged_hides_newer_revision_witness:
  "\<exists>res s1 s2. ReplaceDesired example_pg example_actor ''c2'' (uuid_n 80) example_replace rule_db = (Inr res, s1)
     \<and> reg_MarkConverged example_pg (uuid_n 80) (Some ''e1'') s1 = (Inr (), s2)
     \<and> (\<exists>r \<in> set (registration_rules (tables s2)). rr_desired r = ''absent'' \<and> rr_status r = ''converged'')"
proof -
  obtain res s1 where
    run: "ReplaceDesired example_pg example_actor ''c2'' (uuid_n 80) example_replace rule_db = (Inr res, s1)"
    using example_replace_run by blast
  have "fst (reg_MarkConverged example_pg (uuid_n 80) (Some ''e1'')
      (snd (ReplaceDesired example_pg example_actor ''c2'' (uuid_n 80) example_replace rule_db))) = Inr ()"
    by code_simp
  then obtain s2 where run2: "reg_MarkConverged example_pg (uuid_n 80) (Some ''e1'') s1 = (Inr (), s2)"
    unfolding run snd_conv by (metis prod.collapse)
  have "rd_DesiredState example_replace = ''absent''" by (simp add: example_replace_def)
  with MarkConverged_hides_newer_revision[OF run run2] run run2 show ?thesis by metis
qed

text \<open>
  A second rule for a workload is refused, but not as a conflict: when the workload already
  has a rule, \<open>CreateDesired\<close> returns an error and changes nothing, and the error is neither
  \<open>ErrConflict\<close> nor \<open>ErrNotFound\<close> (without faults it is the wrapped unique violation), so the
  HTTP boundary cannot tell it from an internal failure.
\<close>

theorem CreateDesired_duplicate_workload:
  assumes "find (\<lambda>w. uuid_in (cd_WorkloadID input) = Some (wl_id w)) (workloads (tables s)) = Some w"
    and "r \<in> set (registration_rules (tables s))" "rr_workload r = wl_id w"
    and "CreateDesired pg actor c input s = (result, s')"
  shows "tables s' = tables s \<and> (\<exists>e. result = Inl e \<and> e \<noteq> ErrConflict \<and> e \<noteq> ErrNotFound)"
proof -
  have no: "\<not> rule_created pg actor c input now (tables s) res t'" for now res t'
  proof
    assume "rule_created pg actor c input now (tables s) res t'"
    then obtain row mid where "insert_rule row (tables s) = Inr mid" "rr_workload row = wl_id w"
      unfolding rule_created_def using assms(1) by (elim exE conjE) (rule that, assumption, simp)
    with assms(2,3) show False by (auto simp: insert_rule_Inr rule_uniques_def rev_image_eqI)
  qed
  then have bad: "\<exists>e. result = Inl e" and same: "tables s' = tables s"
    using CreateDesired_Inr(4) CreateDesired_Inl assms(4) by (cases result; blast)+
  have "e \<noteq> ErrConflict \<and> e \<noteq> ErrNotFound" if "result = Inl e" for e
  proof -
    have body: "d \<noteq> ErrConflict \<and> d \<noteq> ErrNotFound" if "create_rule_body pg actor c input s1 = (Inl d, s2)"
      "tables s1 = tables s" for d s1 s2
      using that assms(1)
      by (auto simp: create_rule_body_def action_Inl Let_def run_stmt_def sql_workload_organization_def
          find_None_iff_set split: if_splits option.splits sum.splits dest!: find_Some_mem)
    from assms(4) that consider "\<exists>x. e = ErrInvalidInput x" | d where "e = DbError d ConnFailed"
      | s2 where "create_rule_body pg actor c input (s\<lparr>tick := Suc (tick s), started := pg_now pg (tick s)\<rparr>) = (Inl e, s2)"
      by (auto simp: CreateDesired_def action_Inl with_tx_def Let_def
          split: if_splits sum.splits prod.splits commit_outcome.splits)
    then show ?thesis using body by cases auto
  qed
  with bad same show ?thesis by blast
qed

theorem CreateDesired_duplicate_workload_witness:
  "\<exists>s'. CreateDesired example_pg example_actor ''c1'' example_create rule_db
     = (Inl (DbError ''create registration desired state'' unique_violation), s') \<and> tables s' = tables rule_db"
proof -
  have f: "find (\<lambda>w. uuid_in (cd_WorkloadID example_create) = Some (wl_id w)) (workloads (tables rule_db)) = Some example_workload"
    by code_simp
  have "example_rule \<in> set (registration_rules (tables rule_db))" "rr_workload example_rule = wl_id example_workload"
    by (simp_all add: rule_db_def example_tables_def example_rule_def example_workload_def)
  note dup = CreateDesired_duplicate_workload[OF f this]
  have "fst (CreateDesired example_pg example_actor ''c1'' example_create rule_db)
     = Inl (DbError ''create registration desired state'' unique_violation)" by code_simp
  then obtain s' where run: "CreateDesired example_pg example_actor ''c1'' example_create rule_db
     = (Inl (DbError ''create registration desired state'' unique_violation), s')"
    by (cases "CreateDesired example_pg example_actor ''c1'' example_create rule_db") auto
  with dup[OF run] show ?thesis by blast
qed

end
