(* ===== verification/Policy.thy ===== *)
theory Policy
  imports SpiffeID AuditLog
begin

text \<open>
  \<open>internal/policy\<close>: the normalisation and validation of policy mutations (\<open>management.go\<close>)
  and the three transactions \<open>Create\<close>, \<open>AppendVersion\<close> and \<open>Activate\<close> with their SQL statements
  (\<open>postgres_management.go\<close>).

  The relations \<open>policy_created\<close>, \<open>version_appended\<close> and \<open>version_activated\<close> say what a
  successful mutation changes; the three transaction bodies are interpreted as \<open>tx_body\<close>.
\<close>

section \<open>Validation\<close>

datatype pol_reason = OperatorAttribution | PolicyCorrelation | OrganizationIDNotUUID | NameInvalid
  | PolicyIDNotUUID | IDsNotUUID | PolicyRevisionNotPositive | SourceInvalid spiffe_error
  | DestinationInvalid spiffe_error | ActionInvalid | EffectInvalid | ChangeReasonInvalid | NotActivatable

datatype pol_error = PolicyInvalid pol_reason | PolicyForbidden | PolicyNotFound | PolicyConflict
  | PolicyDb string pg_error | PolicyAudit audit_error

definition namePattern :: pattern where
  "namePattern = [(is_alnum, 1, 1), (\<lambda>c. is_alnum c \<or> c \<in> set '' _.-'', 2, 127)]"

definition MaxChangeReasonBytes :: nat where "MaxChangeReasonBytes = 1024"
definition ActionConnect :: string where "ActionConnect = ''connect''"
definition EffectAllow :: string where "EffectAllow = ''allow''"
definition EffectDeny :: string where "EffectDeny = ''deny''"

record pol_actor =
  pa_Type :: string
  pa_ID :: string
  pa_Role :: string

record RuleInput =
  SourceSPIFFEID :: string
  DestinationSPIFFEID :: string
  RuleAction :: string
  Effect :: string
  ChangeReason :: string

record CreateInput =
  ci_OrganizationID :: string
  ci_Name :: string
  ci_InitialVersion :: RuleInput

record AppendVersionInput =
  ai_ExpectedRevision :: int
  ai_Version :: RuleInput

record ActivateInput =
  av_ExpectedRevision :: int
  av_VersionID :: string

record PolicyResult =
  pr_ID :: string
  pr_OrganizationID :: string
  pr_Name :: string
  pr_Status :: string
  pr_Revision :: int
  pr_ActiveVersionID :: "string option"

record VersionResult =
  vr_ID :: string
  vr_PolicyID :: string
  vr_VersionNumber :: int
  vr_PolicyRevision :: int
  vr_Effect :: string

record CreateResult =
  cr_Policy :: PolicyResult
  cr_Version :: VersionResult

definition pol_validateActor :: "pol_actor \<Rightarrow> pol_error option" where
  "pol_validateActor actor =
     (if pa_Type actor \<noteq> ''operator'' \<or> TrimSpace (pa_ID actor) = [] then Some (PolicyInvalid OperatorAttribution)
      else if pa_Role actor \<noteq> ''operator'' then Some PolicyForbidden
      else None)"

definition normalizeRuleInput :: "RuleInput \<Rightarrow> RuleInput" where
  "normalizeRuleInput input = input\<lparr>RuleAction := ToLower (TrimSpace (RuleAction input)),
     Effect := ToLower (TrimSpace (Effect input)), ChangeReason := TrimSpace (ChangeReason input)\<rparr>"

definition normalizeCreateInput :: "CreateInput \<Rightarrow> CreateInput" where
  "normalizeCreateInput input = input\<lparr>ci_Name := TrimSpace (ci_Name input),
     ci_InitialVersion := normalizeRuleInput (ci_InitialVersion input)\<rparr>"

definition normalizeAppendInput :: "AppendVersionInput \<Rightarrow> AppendVersionInput" where
  "normalizeAppendInput input = input\<lparr>ai_Version := normalizeRuleInput (ai_Version input)\<rparr>"

definition validateRuleInput :: "RuleInput \<Rightarrow> pol_reason option" where
  "validateRuleInput input =
     (case pol_validateSPIFFEID (SourceSPIFFEID input) of
        Some e \<Rightarrow> Some (SourceInvalid e)
      | None \<Rightarrow>
          (case pol_validateSPIFFEID (DestinationSPIFFEID input) of
             Some e \<Rightarrow> Some (DestinationInvalid e)
           | None \<Rightarrow>
               if RuleAction input \<noteq> ActionConnect then Some ActionInvalid
               else if Effect input \<noteq> EffectAllow \<and> Effect input \<noteq> EffectDeny then Some EffectInvalid
               else if length (ChangeReason input) = 0 \<or> MaxChangeReasonBytes < length (ChangeReason input)
                 \<or> has_control (ChangeReason input) then Some ChangeReasonInvalid
               else None))"

definition pol_validateCreateInput :: "CreateInput \<Rightarrow> pol_reason option" where
  "pol_validateCreateInput input =
     (if \<not> MatchString uuid_items (ci_OrganizationID input) then Some OrganizationIDNotUUID
      else if \<not> MatchString namePattern (ci_Name input) then Some NameInvalid
      else validateRuleInput (ci_InitialVersion input))"

definition validateAppendInput :: "string \<Rightarrow> AppendVersionInput \<Rightarrow> pol_reason option" where
  "validateAppendInput policyID input =
     (if \<not> MatchString uuid_items policyID then Some PolicyIDNotUUID
      else if ai_ExpectedRevision input < 1 then Some PolicyRevisionNotPositive
      else validateRuleInput (ai_Version input))"

definition validateActivateInput :: "string \<Rightarrow> ActivateInput \<Rightarrow> pol_reason option" where
  "validateActivateInput policyID input =
     (if \<not> MatchString uuid_items policyID \<or> \<not> MatchString uuid_items (av_VersionID input) then Some IDsNotUUID
      else if av_ExpectedRevision input < 1 then Some PolicyRevisionNotPositive
      else None)"

section \<open>The statements\<close>

definition sql_organization_exists :: "string \<Rightarrow> bool stmt" where
  "sql_organization_exists organizationID u now t =
     (case uuid_in organizationID of
        None \<Rightarrow> Inl invalid_text | Some i \<Rightarrow> Inr (i \<in> set (organizations t), t))"

definition sql_insert_policy :: "string \<Rightarrow> string \<Rightarrow> string stmt" where
  "sql_insert_policy organizationID policyName u now t =
     (if \<not> text_ok policyName then Inl bad_encoding
      else (case uuid_in organizationID of
          None \<Rightarrow> Inl invalid_text
        | Some org \<Rightarrow>
            (case insert_policy \<lparr>ap_id = u, ap_org = org, ap_name = policyName, ap_status = ''draft'',
                 ap_active = None, ap_revision = 1, ap_updated = now\<rparr> t of
               Inl e \<Rightarrow> Inl e | Inr t' \<Rightarrow> Inr (u, t'))))"

definition version_texts :: "RuleInput \<Rightarrow> string \<Rightarrow> string list" where
  "version_texts r createdBy = [SourceSPIFFEID r, DestinationSPIFFEID r, RuleAction r, Effect r, createdBy, ChangeReason r]"

definition version_of :: "string \<Rightarrow> string \<Rightarrow> int \<Rightarrow> RuleInput \<Rightarrow> string \<Rightarrow> version_row" where
  "version_of i policyID version r createdBy = \<lparr>pv_id = i, pv_policy = policyID, pv_version = version,
     pv_source = SourceSPIFFEID r, pv_destination = DestinationSPIFFEID r, pv_action = RuleAction r,
     pv_effect = Effect r, pv_created_by = createdBy, pv_reason = ChangeReason r\<rparr>"

definition sql_insert_version :: "string \<Rightarrow> int \<Rightarrow> RuleInput \<Rightarrow> string \<Rightarrow> string stmt" where
  "sql_insert_version policyID version r createdBy u now t =
     (if \<not> list_all text_ok (version_texts r createdBy) then Inl bad_encoding
      else (case uuid_in policyID of
          None \<Rightarrow> Inl invalid_text
        | Some p \<Rightarrow>
            (case insert_version (version_of u p version r createdBy) t of
               Inl e \<Rightarrow> Inl e | Inr t' \<Rightarrow> Inr (u, t'))))"

definition sql_policy_revision_for_update :: "string \<Rightarrow> (string \<times> int) stmt" where
  "sql_policy_revision_for_update policyID u now t =
     (case uuid_in policyID of
        None \<Rightarrow> Inl invalid_text
      | Some i \<Rightarrow> (case find (\<lambda>p. ap_id p = i) (access_policies t) of
            None \<Rightarrow> Inl NoRows | Some p \<Rightarrow> Inr ((ap_org p, ap_revision p), t)))"

definition max_version :: "version_row list \<Rightarrow> int" where
  "max_version vs = (case map pv_version vs of [] \<Rightarrow> 0 | n # ns \<Rightarrow> fold max ns n)"

definition sql_next_version :: "string \<Rightarrow> int stmt" where
  "sql_next_version policyID u now t =
     (case uuid_in policyID of
        None \<Rightarrow> Inl invalid_text
      | Some i \<Rightarrow>
          (let n = max_version (filter (\<lambda>v. pv_policy v = i) (access_policy_versions t)) + 1 in
           if in_int64 n then Inr (n, t) else Inl out_of_range))"

text \<open>\<open>Exec\<close> gives the number of rows the update matched.\<close>

definition affecting :: "(policy_row \<Rightarrow> bool) \<Rightarrow> (policy_row \<Rightarrow> policy_row) \<Rightarrow> tables \<Rightarrow> pg_error + nat \<times> tables" where
  "affecting p f t = (case update_policies p f t of
      Inl e \<Rightarrow> Inl e | Inr t' \<Rightarrow> Inr (length (filter p (access_policies t)), t'))"

definition advanced_row :: "int \<Rightarrow> policy_row \<Rightarrow> policy_row" where
  "advanced_row now p = p\<lparr>ap_revision := ap_revision p + 1, ap_updated := now\<rparr>"

definition sql_advance_policy :: "string \<Rightarrow> int \<Rightarrow> nat stmt" where
  "sql_advance_policy policyID revision u now t =
     (case uuid_in policyID of
        None \<Rightarrow> Inl invalid_text
      | Some i \<Rightarrow> affecting (\<lambda>p. ap_id p = i \<and> ap_revision p = revision) (advanced_row now) t)"

definition sql_policy_for_update :: "string \<Rightarrow> (string \<times> string \<times> string \<times> int \<times> string option) stmt" where
  "sql_policy_for_update policyID u now t =
     (case uuid_in policyID of
        None \<Rightarrow> Inl invalid_text
      | Some i \<Rightarrow> (case find (\<lambda>p. ap_id p = i) (access_policies t) of
            None \<Rightarrow> Inl NoRows
          | Some p \<Rightarrow> Inr ((ap_org p, ap_name p, ap_status p, ap_revision p, ap_active p), t)))"

definition stored_rule :: "version_row \<Rightarrow> RuleInput" where
  "stored_rule v = \<lparr>SourceSPIFFEID = pv_source v, DestinationSPIFFEID = pv_destination v,
     RuleAction = pv_action v, Effect = pv_effect v, ChangeReason = pv_reason v\<rparr>"

definition sql_version_of_policy :: "string \<Rightarrow> string \<Rightarrow> (int \<times> RuleInput) stmt" where
  "sql_version_of_policy versionID policyID u now t =
     (case (uuid_in versionID, uuid_in policyID) of
        (Some v, Some p) \<Rightarrow>
          (case find (\<lambda>r. pv_id r = v \<and> pv_policy r = p) (access_policy_versions t) of
             None \<Rightarrow> Inl NoRows | Some r \<Rightarrow> Inr ((pv_version r, stored_rule r), t))
      | _ \<Rightarrow> Inl invalid_text)"

definition activated_row :: "string \<Rightarrow> int \<Rightarrow> policy_row \<Rightarrow> policy_row" where
  "activated_row versionID now p = p\<lparr>ap_active := Some versionID, ap_status := ''active'',
     ap_revision := ap_revision p + 1, ap_updated := now\<rparr>"

definition sql_activate_version :: "string \<Rightarrow> int \<Rightarrow> string \<Rightarrow> nat stmt" where
  "sql_activate_version policyID revision versionID u now t =
     (case (uuid_in policyID, uuid_in versionID) of
        (Some i, Some v) \<Rightarrow> affecting (\<lambda>p. ap_id p = i \<and> ap_revision p = revision) (activated_row v now) t
      | _ \<Rightarrow> Inl invalid_text)"

section \<open>The mutations\<close>

definition isUniqueViolation :: "pg_error \<Rightarrow> bool" where
  "isUniqueViolation e \<longleftrightarrow> e = SqlState ''23505''"

definition policy_event :: "pol_actor \<Rightarrow> string \<Rightarrow> string \<Rightarrow> string \<Rightarrow> string \<Rightarrow> json \<Rightarrow> Event" where
  "policy_event actor correlationID organizationID action targetID metadata =
     \<lparr>EventID = [], EventOrganizationID = Some organizationID, EventActorType = pa_Type actor,
      EventActorID = pa_ID actor, Action = action, TargetType = ''access_policy'', TargetID = targetID,
      CorrelationID = correlationID, Metadata = Marshal metadata, CreatedAt = 0\<rparr>"

definition appendAudit ::
    "pg \<Rightarrow> pol_actor \<Rightarrow> string \<Rightarrow> string \<Rightarrow> string \<Rightarrow> string \<Rightarrow> json \<Rightarrow> (db, pol_error, unit) action" where
  "appendAudit pg actor correlationID organizationID action targetID metadata =
     and_then (wrap_err PolicyAudit (Append (tx_queryer pg)
         (policy_event actor correlationID organizationID action targetID metadata)))
       (\<lambda>_. returns ())"

definition policy_create_metadata :: "pol_actor \<Rightarrow> CreateResult \<Rightarrow> json" where
  "policy_create_metadata actor r = json_map [(''operation'', JStr ''create_with_version''),
     (''operator_role'', JStr (pa_Role actor)), (''policy_status'', JStr (pr_Status (cr_Policy r))),
     (''policy_revision'', json_int (pr_Revision (cr_Policy r))),
     (''version_number'', json_int (vr_VersionNumber (cr_Version r))), (''effect'', JStr (vr_Effect (cr_Version r)))]"

definition create_policy_body ::
    "pg \<Rightarrow> pol_actor \<Rightarrow> string \<Rightarrow> CreateInput \<Rightarrow> (db, pol_error, CreateResult) action" where
  "create_policy_body pg actor correlationID input =
     and_then (wrap_err (PolicyDb ''resolve policy organization'')
         (run_stmt pg (sql_organization_exists (ci_OrganizationID input))))
       (\<lambda>organizationExists.
     and_then (guards organizationExists PolicyNotFound) (\<lambda>_.
     and_then (wrap_err (\<lambda>e. if isUniqueViolation e then PolicyConflict
                              else PolicyDb ''create access policy'' e)
         (run_stmt pg (sql_insert_policy (ci_OrganizationID input) (ci_Name input))))
       (\<lambda>policyID.
     and_then (wrap_err (PolicyDb ''create initial policy version'')
         (run_stmt pg (sql_insert_version policyID 1 (ci_InitialVersion input) (pa_ID actor))))
       (\<lambda>versionID.
     let result = \<lparr>cr_Policy = \<lparr>pr_ID = policyID, pr_OrganizationID = ci_OrganizationID input,
             pr_Name = ci_Name input, pr_Status = ''draft'', pr_Revision = 1, pr_ActiveVersionID = None\<rparr>,
           cr_Version = \<lparr>vr_ID = versionID, vr_PolicyID = policyID, vr_VersionNumber = 1,
             vr_PolicyRevision = 1, vr_Effect = Effect (ci_InitialVersion input)\<rparr>\<rparr> in
     and_then (appendAudit pg actor correlationID (ci_OrganizationID input)
         ''access_policy.create_with_version'' policyID (policy_create_metadata actor result))
       (\<lambda>_. returns result)))))"

definition Policy_Create ::
    "pg \<Rightarrow> pol_actor \<Rightarrow> string \<Rightarrow> CreateInput \<Rightarrow> (db, pol_error, CreateResult) action" where
  "Policy_Create pg actor correlationID input0 =
     and_then (check_none (\<lambda>e. e) (pol_validateActor actor)) (\<lambda>_.
     and_then (guards (correlationID \<noteq> []) (PolicyInvalid PolicyCorrelation)) (\<lambda>_.
     let input = normalizeCreateInput input0 in
     and_then (check_none PolicyInvalid (pol_validateCreateInput input)) (\<lambda>_.
     with_tx pg (PolicyDb ''begin policy create transaction'') (PolicyDb ''commit policy create'')
       (create_policy_body pg actor correlationID input))))"

definition append_metadata :: "pol_actor \<Rightarrow> VersionResult \<Rightarrow> json" where
  "append_metadata actor r = json_map [(''operation'', JStr ''append_version''),
     (''operator_role'', JStr (pa_Role actor)), (''policy_revision'', json_int (vr_PolicyRevision r)),
     (''version_number'', json_int (vr_VersionNumber r)), (''effect'', JStr (vr_Effect r))]"

definition append_version_body ::
    "pg \<Rightarrow> pol_actor \<Rightarrow> string \<Rightarrow> string \<Rightarrow> AppendVersionInput \<Rightarrow> (db, pol_error, VersionResult) action" where
  "append_version_body pg actor correlationID policyID input =
     and_then (wrap_err (\<lambda>e. if e = NoRows then PolicyNotFound
                              else PolicyDb ''load access policy for version append'' e)
         (run_stmt pg (sql_policy_revision_for_update policyID)))
       (\<lambda>(organizationID, currentRevision).
     and_then (guards (currentRevision = ai_ExpectedRevision input) PolicyConflict) (\<lambda>_.
     and_then (wrap_err (PolicyDb ''calculate next policy version'') (run_stmt pg (sql_next_version policyID)))
       (\<lambda>nextVersion.
     and_then (wrap_err (\<lambda>e. if isUniqueViolation e then PolicyConflict
                              else PolicyDb ''append policy version'' e)
         (run_stmt pg (sql_insert_version policyID nextVersion (ai_Version input) (pa_ID actor))))
       (\<lambda>versionID.
     let result = \<lparr>vr_ID = versionID, vr_PolicyID = policyID, vr_VersionNumber = nextVersion,
           vr_PolicyRevision = wrap64 (currentRevision + 1), vr_Effect = Effect (ai_Version input)\<rparr> in
     and_then (wrap_err (PolicyDb ''advance policy revision'')
         (run_stmt pg (sql_advance_policy policyID (ai_ExpectedRevision input))))
       (\<lambda>rowsAffected.
     and_then (guards (rowsAffected = 1) PolicyConflict) (\<lambda>_.
     and_then (appendAudit pg actor correlationID organizationID ''access_policy.append_version'' policyID
         (append_metadata actor result))
       (\<lambda>_. returns result)))))))"

definition AppendVersion ::
    "pg \<Rightarrow> pol_actor \<Rightarrow> string \<Rightarrow> string \<Rightarrow> AppendVersionInput \<Rightarrow> (db, pol_error, VersionResult) action" where
  "AppendVersion pg actor correlationID policyID input0 =
     and_then (check_none (\<lambda>e. e) (pol_validateActor actor)) (\<lambda>_.
     and_then (guards (correlationID \<noteq> []) (PolicyInvalid PolicyCorrelation)) (\<lambda>_.
     let input = normalizeAppendInput input0 in
     and_then (check_none PolicyInvalid (validateAppendInput policyID input)) (\<lambda>_.
     with_tx pg (PolicyDb ''begin policy version transaction'') (PolicyDb ''commit policy version append'')
       (append_version_body pg actor correlationID policyID input))))"

definition activate_metadata :: "pol_actor \<Rightarrow> PolicyResult \<Rightarrow> string \<Rightarrow> int \<Rightarrow> json" where
  "activate_metadata actor r versionID versionNumber = json_map [(''operation'', JStr ''activate_version''),
     (''operator_role'', JStr (pa_Role actor)), (''policy_revision'', json_int (pr_Revision r)),
     (''version_id'', JStr versionID), (''version_number'', json_int versionNumber)]"

definition activate_body ::
    "pg \<Rightarrow> pol_actor \<Rightarrow> string \<Rightarrow> string \<Rightarrow> ActivateInput \<Rightarrow> (db, pol_error, PolicyResult) action" where
  "activate_body pg actor correlationID policyID input =
     and_then (wrap_err (\<lambda>e. if e = NoRows then PolicyNotFound
                              else PolicyDb ''load policy for activation'' e)
         (run_stmt pg (sql_policy_for_update policyID)))
       (\<lambda>(organizationID, policyName, status, revision, activeVersionID).
     and_then (guards (revision = av_ExpectedRevision input) PolicyConflict) (\<lambda>_.
     and_then (wrap_err (\<lambda>e. if e = NoRows then PolicyNotFound
                              else PolicyDb ''load policy version for activation'' e)
         (run_stmt pg (sql_version_of_policy (av_VersionID input) policyID)))
       (\<lambda>(versionNumber, storedRule).
     and_then (check_none (\<lambda>_. PolicyInvalid NotActivatable) (validateRuleInput storedRule)) (\<lambda>_.
     and_then (wrap_err (PolicyDb ''activate policy version'')
         (run_stmt pg (sql_activate_version policyID (av_ExpectedRevision input) (av_VersionID input))))
       (\<lambda>rowsAffected.
     and_then (guards (rowsAffected = 1) PolicyConflict) (\<lambda>_.
     let result = \<lparr>pr_ID = policyID, pr_OrganizationID = organizationID, pr_Name = policyName,
           pr_Status = ''active'', pr_Revision = wrap64 (av_ExpectedRevision input + 1),
           pr_ActiveVersionID = Some (av_VersionID input)\<rparr> in
     and_then (appendAudit pg actor correlationID organizationID ''access_policy.activate_version'' policyID
         (activate_metadata actor result (av_VersionID input) versionNumber))
       (\<lambda>_. returns result)))))))"

definition Activate ::
    "pg \<Rightarrow> pol_actor \<Rightarrow> string \<Rightarrow> string \<Rightarrow> ActivateInput \<Rightarrow> (db, pol_error, PolicyResult) action" where
  "Activate pg actor correlationID policyID input =
     and_then (check_none (\<lambda>e. e) (pol_validateActor actor)) (\<lambda>_.
     and_then (guards (correlationID \<noteq> []) (PolicyInvalid PolicyCorrelation)) (\<lambda>_.
     and_then (check_none PolicyInvalid (validateActivateInput policyID input)) (\<lambda>_.
     with_tx pg (PolicyDb ''begin policy activation transaction'') (PolicyDb ''commit policy activation'')
       (activate_body pg actor correlationID policyID input))))"

end
