(* ===== verification/Policy_Facts.thy ===== *)
theory Policy_Facts
  imports Policy
begin

text \<open>
  What the policy component promises: the change each of the three transactions makes, the
  concurrency control on the policy's revision, the immutability of versions, and the invariant
  that every active version belongs to its policy and is one the validator accepts.
\<close>

section \<open>What a mutation changes\<close>

definition policy_created ::
    "pg \<Rightarrow> pol_actor \<Rightarrow> string \<Rightarrow> CreateInput \<Rightarrow> int \<Rightarrow> tables \<Rightarrow> CreateResult \<Rightarrow> tables \<Rightarrow> bool" where
  "policy_created pg actor correlationID input now t res t' \<longleftrightarrow> (\<exists>org pid mid1 mid2 ev k.
     uuid_in (ci_OrganizationID input) = Some org \<and> org \<in> set (organizations t)
     \<and> pr_ID (cr_Policy res) = pg_uuid pg k
     \<and> insert_policy \<lparr>ap_id = pr_ID (cr_Policy res), ap_org = org, ap_name = ci_Name input, ap_status = ''draft'',
          ap_active = None, ap_revision = 1, ap_updated = now\<rparr> t = Inr mid1
     \<and> uuid_in (pr_ID (cr_Policy res)) = Some pid
     \<and> insert_version (version_of (vr_ID (cr_Version res)) pid 1 (ci_InitialVersion input) (pa_ID actor)) mid1 = Inr mid2
     \<and> logged mid2 ev t'
     \<and> event_row (policy_event actor correlationID (ci_OrganizationID input) ''access_policy.create_with_version''
          (pr_ID (cr_Policy res)) (policy_create_metadata actor res)) (ae_id ev) now = Some ev
     \<and> res = \<lparr>cr_Policy = \<lparr>pr_ID = pr_ID (cr_Policy res), pr_OrganizationID = ci_OrganizationID input,
             pr_Name = ci_Name input, pr_Status = ''draft'', pr_Revision = 1, pr_ActiveVersionID = None\<rparr>,
           cr_Version = \<lparr>vr_ID = vr_ID (cr_Version res), vr_PolicyID = pr_ID (cr_Policy res), vr_VersionNumber = 1,
             vr_PolicyRevision = 1, vr_Effect = Effect (ci_InitialVersion input)\<rparr>\<rparr>)"

definition next_version :: "tables \<Rightarrow> string \<Rightarrow> int" where
  "next_version t policyID = max_version (filter (\<lambda>v. pv_policy v = policyID) (access_policy_versions t)) + 1"

definition version_appended ::
    "pol_actor \<Rightarrow> string \<Rightarrow> string \<Rightarrow> AppendVersionInput \<Rightarrow> int \<Rightarrow> tables \<Rightarrow> VersionResult \<Rightarrow> tables \<Rightarrow> bool" where
  "version_appended actor correlationID policyID input now t res t' \<longleftrightarrow> (\<exists>p mid1 mid2 ev.
     find (\<lambda>p. uuid_in policyID = Some (ap_id p)) (access_policies t) = Some p
     \<and> ap_revision p = ai_ExpectedRevision input
     \<and> insert_version (version_of (vr_ID res) (ap_id p) (next_version t (ap_id p)) (ai_Version input) (pa_ID actor)) t = Inr mid1
     \<and> update_policies (\<lambda>x. ap_id x = ap_id p \<and> ap_revision x = ap_revision p) (advanced_row now) mid1 = Inr mid2
     \<and> logged mid2 ev t'
     \<and> event_row (policy_event actor correlationID (ap_org p) ''access_policy.append_version'' policyID
          (append_metadata actor res)) (ae_id ev) now = Some ev
     \<and> res = \<lparr>vr_ID = vr_ID res, vr_PolicyID = policyID, vr_VersionNumber = next_version t (ap_id p),
           vr_PolicyRevision = ap_revision p + 1, vr_Effect = Effect (ai_Version input)\<rparr>)"

definition version_activated ::
    "pol_actor \<Rightarrow> string \<Rightarrow> string \<Rightarrow> ActivateInput \<Rightarrow> int \<Rightarrow> tables \<Rightarrow> PolicyResult \<Rightarrow> tables \<Rightarrow> bool" where
  "version_activated actor correlationID policyID input now t res t' \<longleftrightarrow> (\<exists>p v mid ev.
     find (\<lambda>p. uuid_in policyID = Some (ap_id p)) (access_policies t) = Some p
     \<and> ap_revision p = av_ExpectedRevision input
     \<and> v \<in> set (access_policy_versions t) \<and> uuid_in (av_VersionID input) = Some (pv_id v)
     \<and> pv_policy v = ap_id p \<and> validateRuleInput (stored_rule v) = None
     \<and> update_policies (\<lambda>x. ap_id x = ap_id p \<and> ap_revision x = ap_revision p) (activated_row (pv_id v) now) t = Inr mid
     \<and> logged mid ev t'
     \<and> event_row (policy_event actor correlationID (ap_org p) ''access_policy.activate_version'' policyID
          (activate_metadata actor res (av_VersionID input) (pv_version v))) (ae_id ev) now = Some ev
     \<and> res = \<lparr>pr_ID = policyID, pr_OrganizationID = ap_org p, pr_Name = ap_name p, pr_Status = ''active'',
           pr_Revision = ap_revision p + 1, pr_ActiveVersionID = Some (av_VersionID input)\<rparr>)"

section \<open>The bodies make these changes\<close>

lemma encodable_policy_metadata [simp]:
  "encodable 0 (policy_create_metadata actor cr)" "encodable 0 (append_metadata actor vr)"
  "encodable 0 (activate_metadata actor pr v n)"
  by (auto simp: policy_create_metadata_def append_metadata_def activate_metadata_def maxNestingDepth_def
      intro!: encodable_json_map)

lemma policy_metadata_not_Nil [simp]:
  "Marshal (policy_create_metadata actor cr) \<noteq> []" "Marshal (append_metadata actor vr) \<noteq> []"
  "Marshal (activate_metadata actor pr v n) \<noteq> []"
  by (simp_all add: policy_create_metadata_def append_metadata_def activate_metadata_def)

lemma policy_event_metadata [simp]: "Metadata (policy_event actor c org action target m) = Marshal m"
  by (simp add: policy_event_def)

lemma appendAudit_logs:
  assumes "appendAudit pg actor c org action target m s = (Inr x, s')" "Marshal m \<noteq> []"
  shows "\<exists>row. event_row (policy_event actor c org action target m) (ae_id row) (started s) = Some row
    \<and> logged (tables s) row (tables s')"
  using assms tx_Append_logs by (fastforce simp: appendAudit_def)

lemma sql_insert_policy_Inr:
  "sql_insert_policy org pname u now t = Inr (i, t') \<Longrightarrow> i = u \<and> (\<exists>org'. uuid_in org = Some org'
     \<and> insert_policy \<lparr>ap_id = u, ap_org = org', ap_name = pname, ap_status = ''draft'', ap_active = None,
          ap_revision = 1, ap_updated = now\<rparr> t = Inr t')"
  by (auto simp: sql_insert_policy_def split: if_splits option.splits sum.splits)

lemma sql_insert_version_Inr:
  "sql_insert_version pid n r by' u now t = Inr (i, t') \<Longrightarrow> i = u \<and> (\<exists>p. uuid_in pid = Some p
     \<and> insert_version (version_of u p n r by') t = Inr t')"
  by (auto simp: sql_insert_version_def split: if_splits option.splits sum.splits)

lemma sql_organization_exists_Inr:
  "sql_organization_exists org u now t = Inr (b, t') \<Longrightarrow> t' = t \<and> (\<exists>i. uuid_in org = Some i \<and> b = (i \<in> set (organizations t)))"
  by (auto simp: sql_organization_exists_def split: option.splits)

lemma create_policy_body_Inr:
  assumes "create_policy_body pg actor c input s = (Inr res, s')"
  shows "policy_created pg actor c input (started s) (tables s) res (tables s')"
proof -
  from assms obtain s1 pid s2 vid s3 x where
    a: "run_stmt pg (sql_organization_exists (ci_OrganizationID input)) s = (Inr True, s1)"
    and b: "run_stmt pg (sql_insert_policy (ci_OrganizationID input) (ci_Name input)) s1 = (Inr pid, s2)"
    and c: "run_stmt pg (sql_insert_version pid 1 (ci_InitialVersion input) (pa_ID actor)) s2 = (Inr vid, s3)"
    and res: "res = \<lparr>cr_Policy = \<lparr>pr_ID = pid, pr_OrganizationID = ci_OrganizationID input,
             pr_Name = ci_Name input, pr_Status = ''draft'', pr_Revision = 1, pr_ActiveVersionID = None\<rparr>,
           cr_Version = \<lparr>vr_ID = vid, vr_PolicyID = pid, vr_VersionNumber = 1,
             vr_PolicyRevision = 1, vr_Effect = Effect (ci_InitialVersion input)\<rparr>\<rparr>"
    and d: "appendAudit pg actor c (ci_OrganizationID input) ''access_policy.create_with_version'' pid
        (policy_create_metadata actor res) s3 = (Inr x, s')"
    by (auto simp: create_policy_body_def Let_def)
  have st: "started s1 = started s" "started s2 = started s" "started s3 = started s"
    using a b c run_stmt_tick by metis+
  from a have o: "tables s1 = tables s" "\<exists>i. uuid_in (ci_OrganizationID input) = Some i \<and> i \<in> set (organizations (tables s))"
    by (auto simp: run_stmt_Inr dest!: sql_organization_exists_Inr)
  from b o st obtain org where i: "uuid_in (ci_OrganizationID input) = Some org" "org \<in> set (organizations (tables s))"
    "insert_policy \<lparr>ap_id = pid, ap_org = org, ap_name = ci_Name input, ap_status = ''draft'', ap_active = None,
       ap_revision = 1, ap_updated = started s\<rparr> (tables s) = Inr (tables s2)"
    by (auto simp: run_stmt_Inr dest!: sql_insert_policy_Inr)
  from c obtain p where v: "uuid_in pid = Some p"
    "insert_version (version_of vid p 1 (ci_InitialVersion input) (pa_ID actor)) (tables s2) = Inr (tables s3)"
    by (auto simp: run_stmt_Inr dest!: sql_insert_version_Inr)
  from appendAudit_logs[OF d] st(3) obtain row where
    "event_row (policy_event actor c (ci_OrganizationID input) ''access_policy.create_with_version'' pid
        (policy_create_metadata actor res)) (ae_id row) (started s) = Some row" "logged (tables s3) row (tables s')" by auto
  moreover have "pid = pg_uuid pg (tick s1)" using b by (auto simp: run_stmt_Inr dest!: sql_insert_policy_Inr)
  ultimately show ?thesis using i v res unfolding policy_created_def by auto
qed

interpretation create_policy: tx_body "create_policy_body pg actor c input" "policy_created pg actor c input"
  for pg actor c input
  by unfold_locales (rule create_policy_body_Inr)

lemma affecting_Inr: "affecting p f t = Inr (n, t') \<longleftrightarrow> update_policies p f t = Inr t' \<and> n = length (filter p (access_policies t))"
  by (auto simp: affecting_def split: sum.splits)

lemma sql_policy_revision_Inr:
  "sql_policy_revision_for_update pid u now t = Inr (x, t') \<Longrightarrow> t' = t
     \<and> (\<exists>p. find (\<lambda>p. uuid_in pid = Some (ap_id p)) (access_policies t) = Some p \<and> x = (ap_org p, ap_revision p))"
  by (auto simp: sql_policy_revision_for_update_def find_uuid split: option.splits)

lemma sql_policy_for_update_Inr:
  "sql_policy_for_update pid u now t = Inr (x, t') \<Longrightarrow> t' = t
     \<and> (\<exists>p. find (\<lambda>p. uuid_in pid = Some (ap_id p)) (access_policies t) = Some p
          \<and> x = (ap_org p, ap_name p, ap_status p, ap_revision p, ap_active p))"
  by (auto simp: sql_policy_for_update_def find_uuid split: option.splits)

lemma sql_next_version_Inr:
  "sql_next_version pid u now t = Inr (n, t') \<Longrightarrow> uuid_in pid = Some i \<Longrightarrow> t' = t \<and> n = next_version t i"
  by (auto simp: sql_next_version_def next_version_def Let_def split: if_splits)

lemma sql_version_of_policy_Inr:
  "sql_version_of_policy vid pid u now t = Inr (x, t') \<Longrightarrow> uuid_in pid = Some i \<Longrightarrow> t' = t
     \<and> (\<exists>v \<in> set (access_policy_versions t). uuid_in vid = Some (pv_id v) \<and> pv_policy v = i
          \<and> x = (pv_version v, stored_rule v))"
  by (auto simp: sql_version_of_policy_def split: option.splits dest!: find_Some_mem)

text \<open>An advance that matches a row keeps the revision in the range of a bigint.\<close>

lemma advance_in_range:
  assumes "update_policies (\<lambda>x. ap_id x = ap_id p \<and> ap_revision x = ap_revision p) f t = Inr t'"
    and "p \<in> set (access_policies t)" "ap_revision (f p) = ap_revision p + 1"
  shows "wrap64 (ap_revision p + 1) = ap_revision p + 1"
  using assms by (auto simp: update_policies_Inr list_all_iff)

lemma append_version_body_Inr:
  assumes "append_version_body pg actor c pid input s = (Inr res, s')"
  shows "version_appended actor c pid input (started s) (tables s) res (tables s')"
proof -
  from assms obtain org cur s1 n s2 vid s3 s4 x where
    a: "run_stmt pg (sql_policy_revision_for_update pid) s = (Inr (org, cur), s1)" "cur = ai_ExpectedRevision input"
    and b: "run_stmt pg (sql_next_version pid) s1 = (Inr n, s2)"
    and c: "run_stmt pg (sql_insert_version pid n (ai_Version input) (pa_ID actor)) s2 = (Inr vid, s3)"
    and d: "run_stmt pg (sql_advance_policy pid (ai_ExpectedRevision input)) s3 = (Inr 1, s4)"
    and res: "res = \<lparr>vr_ID = vid, vr_PolicyID = pid, vr_VersionNumber = n,
           vr_PolicyRevision = wrap64 (cur + 1), vr_Effect = Effect (ai_Version input)\<rparr>"
    and e: "appendAudit pg actor c org ''access_policy.append_version'' pid (append_metadata actor res) s4 = (Inr x, s')"
    by (auto simp: append_version_body_def Let_def split: prod.splits)
  have st: "started s1 = started s" "started s2 = started s" "started s3 = started s" "started s4 = started s"
    using a b c d run_stmt_tick by metis+
  from a(1) obtain p where p: "tables s1 = tables s"
    "find (\<lambda>p. uuid_in pid = Some (ap_id p)) (access_policies (tables s)) = Some p" "org = ap_org p" "cur = ap_revision p"
    by (auto simp: run_stmt_Inr dest!: sql_policy_revision_Inr)
  from find_Some_mem[OF p(2)] have pm: "p \<in> set (access_policies (tables s))" "uuid_in pid = Some (ap_id p)" by simp_all
  from b p(1) pm(2) have n: "tables s2 = tables s" "n = next_version (tables s) (ap_id p)"
    by (auto simp: run_stmt_Inr dest!: sql_next_version_Inr)
  from c pm(2) n(1) have v: "insert_version (version_of vid (ap_id p) n (ai_Version input) (pa_ID actor)) (tables s) = Inr (tables s3)"
    by (auto simp: run_stmt_Inr dest!: sql_insert_version_Inr)
  from d pm(2) a(2) p(4) st(3) have u: "update_policies (\<lambda>x. ap_id x = ap_id p \<and> ap_revision x = ap_revision p)
      (advanced_row (started s)) (tables s3) = Inr (tables s4)"
    by (auto simp: run_stmt_Inr sql_advance_policy_def affecting_Inr split: option.splits)
  have "p \<in> set (access_policies (tables s3))" using pm(1) v by (auto simp: insert_version_Inr)
  from advance_in_range[OF u this] have "wrap64 (cur + 1) = ap_revision p + 1" by (simp add: p(4) advanced_row_def)
  with res n(2) have r: "res = \<lparr>vr_ID = vr_ID res, vr_PolicyID = pid, vr_VersionNumber = next_version (tables s) (ap_id p),
           vr_PolicyRevision = ap_revision p + 1, vr_Effect = Effect (ai_Version input)\<rparr>" by simp
  from appendAudit_logs[OF e] st(4) p(3) obtain row where
    l: "event_row (policy_event actor c (ap_org p) ''access_policy.append_version'' pid (append_metadata actor res))
        (ae_id row) (started s) = Some row" "logged (tables s4) row (tables s')" by auto
  from res v n(2) have v': "insert_version (version_of (vr_ID res) (ap_id p) (next_version (tables s) (ap_id p))
      (ai_Version input) (pa_ID actor)) (tables s) = Inr (tables s3)" by simp
  show ?thesis
    unfolding version_appended_def using p(2,4) a(2) v' u l r
    by (intro exI[of _ p] exI[of _ "tables s3"] exI[of _ "tables s4"] exI[of _ row]) simp
qed

interpretation append_version: tx_body "append_version_body pg actor c pid input" "version_appended actor c pid input"
  for pg actor c pid input
  by unfold_locales (rule append_version_body_Inr)

lemma activate_body_Inr:
  assumes "activate_body pg actor c pid input s = (Inr res, s')"
  shows "version_activated actor c pid input (started s) (tables s) res (tables s')"
proof -
  from assms obtain org pname st0 rv act s1 vn rule s2 s3 x where
    a: "run_stmt pg (sql_policy_for_update pid) s = (Inr (org, pname, st0, rv, act), s1)" "rv = av_ExpectedRevision input"
    and b: "run_stmt pg (sql_version_of_policy (av_VersionID input) pid) s1 = (Inr (vn, rule), s2)"
    and ok: "validateRuleInput rule = None"
    and d: "run_stmt pg (sql_activate_version pid (av_ExpectedRevision input) (av_VersionID input)) s2 = (Inr 1, s3)"
    and res: "res = \<lparr>pr_ID = pid, pr_OrganizationID = org, pr_Name = pname,
           pr_Status = ''active'', pr_Revision = wrap64 (av_ExpectedRevision input + 1),
           pr_ActiveVersionID = Some (av_VersionID input)\<rparr>"
    and e: "appendAudit pg actor c org ''access_policy.activate_version'' pid
        (activate_metadata actor res (av_VersionID input) vn) s3 = (Inr x, s')"
    by (auto simp: activate_body_def Let_def split: prod.splits)
  have st: "started s1 = started s" "started s2 = started s" "started s3 = started s"
    using a b d run_stmt_tick by metis+
  from a(1) obtain p where p: "tables s1 = tables s"
    "find (\<lambda>p. uuid_in pid = Some (ap_id p)) (access_policies (tables s)) = Some p" "org = ap_org p" "pname = ap_name p"
    "rv = ap_revision p"
    by (auto simp: run_stmt_Inr dest!: sql_policy_for_update_Inr)
  from find_Some_mem[OF p(2)] have pm: "p \<in> set (access_policies (tables s))" "uuid_in pid = Some (ap_id p)" by simp_all
  from b p(1) pm(2) obtain v where v: "tables s2 = tables s" "v \<in> set (access_policy_versions (tables s))"
    "uuid_in (av_VersionID input) = Some (pv_id v)" "pv_policy v = ap_id p" "vn = pv_version v" "rule = stored_rule v"
    by (auto simp: run_stmt_Inr dest!: sql_version_of_policy_Inr)
  from d pm(2) v(1,3) a(2) p(5) st(2) have u: "update_policies (\<lambda>x. ap_id x = ap_id p \<and> ap_revision x = ap_revision p)
      (activated_row (pv_id v) (started s)) (tables s) = Inr (tables s3)"
    by (auto simp: run_stmt_Inr sql_activate_version_def affecting_Inr split: option.splits)
  from advance_in_range[OF u pm(1)] have "wrap64 (ap_revision p + 1) = ap_revision p + 1" by (simp add: activated_row_def)
  with res a(2) p(3-5) have r: "res = \<lparr>pr_ID = pid, pr_OrganizationID = ap_org p, pr_Name = ap_name p,
           pr_Status = ''active'', pr_Revision = ap_revision p + 1, pr_ActiveVersionID = Some (av_VersionID input)\<rparr>"
    by simp
  from appendAudit_logs[OF e] st(3) p(3) v(5) obtain row where
    "event_row (policy_event actor c (ap_org p) ''access_policy.activate_version'' pid
        (activate_metadata actor res (av_VersionID input) (pv_version v))) (ae_id row) (started s) = Some row"
    "logged (tables s3) row (tables s')" by auto
  with p(2,5) a(2) v ok u r show ?thesis
    unfolding version_activated_def
    by (intro exI[of _ p] exI[of _ v] exI[of _ "tables s3"] exI[of _ row]) simp
qed

interpretation activate: tx_body "activate_body pg actor c pid input" "version_activated actor c pid input"
  for pg actor c pid input
  by unfold_locales (rule activate_body_Inr)

end
