(* ===== verification/Policy_Laws.thy ===== *)
theory Policy_Laws
  imports Policy_Facts
begin

text \<open>
  The three policy handlers as seen from outside, the invariant of the policy tables, and the
  properties of the component.
\<close>

section \<open>The handlers\<close>

lemma Policy_Create_Inr:
  assumes "Policy_Create pg actor c input s = (Inr res, s')"
  shows "pol_validateActor actor = None" "c \<noteq> []" "pol_validateCreateInput (normalizeCreateInput input) = None"
    and "policy_created pg actor c (normalizeCreateInput input) (pg_now pg (tick s)) (tables s) res (tables s')"
  using assms create_policy.success by (auto simp: Policy_Create_def Let_def)

lemma AppendVersion_Inr:
  assumes "AppendVersion pg actor c pid input s = (Inr res, s')"
  shows "pol_validateActor actor = None" "c \<noteq> []" "validateAppendInput pid (normalizeAppendInput input) = None"
    and "version_appended actor c pid (normalizeAppendInput input) (pg_now pg (tick s)) (tables s) res (tables s')"
  using assms append_version.success by (auto simp: AppendVersion_def Let_def)

lemma Activate_Inr:
  assumes "Activate pg actor c pid input s = (Inr res, s')"
  shows "pol_validateActor actor = None" "c \<noteq> []" "validateActivateInput pid input = None"
    and "version_activated actor c pid input (pg_now pg (tick s)) (tables s) res (tables s')"
  using assms activate.success by (auto simp: Activate_def)

lemma Policy_Create_Inl:
  assumes "Policy_Create pg actor c input s = (Inl e, s')"
  shows "tables s' = tables s \<or> e = PolicyDb ''commit policy create'' ConnFailed \<and> (\<exists>res n. pg_commit pg n = AckLost
     \<and> pol_validateCreateInput (normalizeCreateInput input) = None
     \<and> policy_created pg actor c (normalizeCreateInput input) (pg_now pg (tick s)) (tables s) res (tables s'))"
proof -
  from assms consider "s' = s"
    | "pol_validateCreateInput (normalizeCreateInput input) = None"
      "with_tx pg (PolicyDb ''begin policy create transaction'') (PolicyDb ''commit policy create'')
         (create_policy_body pg actor c (normalizeCreateInput input)) s = (Inl e, s')"
    unfolding Policy_Create_def Let_def by (auto simp: action_Inl simp del: list.simps)
  then show ?thesis using create_policy.failure by cases blast+
qed

lemma AppendVersion_Inl:
  assumes "AppendVersion pg actor c pid input s = (Inl e, s')"
  shows "tables s' = tables s \<or> e = PolicyDb ''commit policy version append'' ConnFailed \<and> (\<exists>res n. pg_commit pg n = AckLost
     \<and> validateAppendInput pid (normalizeAppendInput input) = None
     \<and> version_appended actor c pid (normalizeAppendInput input) (pg_now pg (tick s)) (tables s) res (tables s'))"
proof -
  from assms consider "s' = s"
    | "validateAppendInput pid (normalizeAppendInput input) = None"
      "with_tx pg (PolicyDb ''begin policy version transaction'') (PolicyDb ''commit policy version append'')
         (append_version_body pg actor c pid (normalizeAppendInput input)) s = (Inl e, s')"
    unfolding AppendVersion_def Let_def by (auto simp: action_Inl simp del: list.simps)
  then show ?thesis using append_version.failure by cases blast+
qed

lemma Activate_Inl:
  assumes "Activate pg actor c pid input s = (Inl e, s')"
  shows "tables s' = tables s \<or> e = PolicyDb ''commit policy activation'' ConnFailed \<and> (\<exists>res n. pg_commit pg n = AckLost
     \<and> version_activated actor c pid input (pg_now pg (tick s)) (tables s) res (tables s'))"
proof -
  from assms consider "s' = s"
    | "with_tx pg (PolicyDb ''begin policy activation transaction'') (PolicyDb ''commit policy activation'')
         (activate_body pg actor c pid input) s = (Inl e, s')"
    unfolding Activate_def by (auto simp: action_Inl simp del: list.simps)
  then show ?thesis using activate.failure by cases blast+
qed

section \<open>The invariant of the policy tables\<close>

text \<open>
  Every active version is a version of its own policy; every stored version is one the validator
  accepts; and the versions of a policy are numbered 1, 2, 3, ... in the order they were appended.
\<close>

definition versions_of :: "tables \<Rightarrow> string \<Rightarrow> version_row list" where
  "versions_of t policyID = filter (\<lambda>v. pv_policy v = policyID) (access_policy_versions t)"

definition numbered :: "version_row list \<Rightarrow> bool" where
  "numbered vs \<longleftrightarrow> map pv_version vs = map int [1..<Suc (length vs)]"

definition policies_ok :: "tables \<Rightarrow> bool" where
  "policies_ok t \<longleftrightarrow>
     (\<forall>p \<in> set (access_policies t). case ap_active p of None \<Rightarrow> True
        | Some i \<Rightarrow> (\<exists>v \<in> set (access_policy_versions t). pv_id v = i \<and> pv_policy v = ap_id p))
     \<and> (\<forall>v \<in> set (access_policy_versions t). validateRuleInput (stored_rule v) = None)
     \<and> (\<forall>p \<in> set (access_policies t). numbered (versions_of t (ap_id p)))"

lemma fold_max_upt: "fold max (map int [2..<Suc n]) 1 = (if n = 0 then 1 else int n)"
  by (induction n) (auto simp: numeral_2_eq_2)

lemma numbered_simps [simp]:
  "numbered []" "numbered vs \<Longrightarrow> numbered (vs @ [v]) \<longleftrightarrow> pv_version v = int (length vs) + 1"
  by (auto simp: numbered_def)

lemma numbered_max:
  assumes "numbered vs"
  shows "max_version vs = int (length vs)"
proof (cases "length vs")
  case 0
  with assms show ?thesis by (simp add: max_version_def)
next
  case (Suc m)
  have "[1..<Suc (length vs)] = 1 # [2..<Suc (length vs)]"
    unfolding Suc by (simp add: upt_conv_Cons numeral_2_eq_2 del: upt_Suc)
  with assms[unfolded numbered_def] fold_max_upt[of "length vs"] Suc show ?thesis by (simp add: max_version_def del: upt_Suc)
qed

lemma stored_version_of [simp]:
  "stored_rule (version_of i p n r by') = r" "pv_id (version_of i p n r by') = i"
  "pv_policy (version_of i p n r by') = p" "pv_version (version_of i p n r by') = n"
  by (simp_all add: stored_rule_def version_of_def)

lemma policies_ok_logged: "policies_ok t \<Longrightarrow> logged t ev t' \<Longrightarrow> policies_ok t'"
  by (auto simp: policies_ok_def versions_of_def dest!: logged_with_event split: option.splits)

lemma policies_ok_insert_version:
  assumes "policies_ok t" "validateRuleInput r = None" "insert_version (version_of i p n r by') t = Inr t'"
    and "n = int (length (versions_of t p)) + 1"
  shows "policies_ok t'"
proof -
  have t': "access_policies t' = access_policies t"
    "access_policy_versions t' = access_policy_versions t @ [version_of i p n r by']"
    using assms(3) by (auto simp: insert_version_Inr)
  have "numbered (versions_of t' q)" if "numbered (versions_of t q)" for q
    using that assms(4) by (auto simp: versions_of_def t')
  with assms(1,2) t' show ?thesis unfolding policies_ok_def by (fastforce split: option.splits)
qed

lemma policies_ok_update:
  assumes "policies_ok t" "update_policies q f t = Inr t'" "\<And>p. ap_id (f p) = ap_id p"
    and "\<And>p. p \<in> set (access_policies t) \<Longrightarrow> q p \<Longrightarrow> ap_active (f p) \<noteq> ap_active p \<Longrightarrow>
      \<exists>v \<in> set (access_policy_versions t). ap_active (f p) = Some (pv_id v) \<and> pv_policy v = ap_id p"
  shows "policies_ok t'"
proof -
  have t': "access_policy_versions t' = access_policy_versions t" "access_policies t' = update_rows q f (access_policies t)"
    using assms(2) by (auto simp: update_policies_Inr)
  have v: "versions_of t' = versions_of t" by (simp add: fun_eq_iff versions_of_def t')
  have "case ap_active (f p) of None \<Rightarrow> True
      | Some i \<Rightarrow> (\<exists>v \<in> set (access_policy_versions t). pv_id v = i \<and> pv_policy v = ap_id p)"
    if "p \<in> set (access_policies t)" "q p" for p
    using assms(1) assms(4)[OF that] that(1) unfolding policies_ok_def
    by (cases "ap_active (f p) = ap_active p") (auto split: option.splits)
  with assms(1,3) show ?thesis
    unfolding policies_ok_def v t' by (auto simp: update_rows_def cong: option.case_cong)
qed

lemma policies_ok_created:
  assumes "policy_created pg actor c input now t res t'" "schema_ok t" "policies_ok t"
    and "validateRuleInput (ci_InitialVersion input) = None" "\<forall>n. uuid_in (pg_uuid pg n) = Some (pg_uuid pg n)"
  shows "policies_ok t'"
proof -
  from assms(1) obtain k where "pr_ID (cr_Policy res) = pg_uuid pg k" unfolding policy_created_def by blast
  with assms(5) have canon: "uuid_in (pr_ID (cr_Policy res)) = Some (pr_ID (cr_Policy res))" by simp
  from assms(1) obtain row pid' mid1 mid2 ev vid where
    p0: "insert_policy row t = Inr mid1" "ap_id row = pr_ID (cr_Policy res)" "ap_active row = None"
    and pid': "uuid_in (pr_ID (cr_Policy res)) = Some pid'"
    and v': "insert_version (version_of vid pid' 1 (ci_InitialVersion input) (pa_ID actor)) mid1 = Inr mid2"
    and l: "logged mid2 ev t'"
    unfolding policy_created_def by (elim exE conjE) (rule that, assumption, simp (no_asm), simp (no_asm))
  define pid where "pid = pr_ID (cr_Policy res)"
  note p = p0[folded pid_def]
  from v' pid' canon pid_def have v: "insert_version (version_of vid pid 1 (ci_InitialVersion input) (pa_ID actor)) mid1 = Inr mid2"
    by simp
  have m: "access_policies mid1 = access_policies t @ [row]" "access_policy_versions mid1 = access_policy_versions t"
    and new: "pid \<notin> set (map ap_id (access_policies t))"
    using p by (auto simp: insert_policy_Inr policy_uniques_def)
  have none: "versions_of t pid = []"
    using assms(2) new by (auto simp: versions_of_def filter_empty_conv schema_ok_def version_fks_def list_all_iff)
  have vs: "versions_of mid1 = versions_of t" by (simp add: fun_eq_iff versions_of_def m)
  have "policies_ok mid1"
    using assms(3) none p(2,3) unfolding policies_ok_def vs m by simp
  then have "policies_ok mid2"
    by (rule policies_ok_insert_version[OF _ assms(4) v]) (simp add: vs none)
  then show ?thesis using l by (rule policies_ok_logged)
qed

lemma policies_ok_appended:
  assumes "version_appended actor c pid input now t res t'" "policies_ok t"
    and "validateRuleInput (ai_Version input) = None"
  shows "policies_ok t'"
proof -
  from assms(1) obtain p mid1 mid2 ev where
    p: "find (\<lambda>p. uuid_in pid = Some (ap_id p)) (access_policies t) = Some p"
    and v: "insert_version (version_of (vr_ID res) (ap_id p) (next_version t (ap_id p)) (ai_Version input) (pa_ID actor)) t = Inr mid1"
    and u: "update_policies (\<lambda>x. ap_id x = ap_id p \<and> ap_revision x = ap_revision p) (advanced_row now) mid1 = Inr mid2"
    and l: "logged mid2 ev t'"
    unfolding version_appended_def by (elim exE conjE) (rule that)
  have "next_version t (ap_id p) = int (length (versions_of t (ap_id p))) + 1"
    using assms(2) find_Some_mem[OF p] numbered_max
    by (auto simp: next_version_def policies_ok_def versions_of_def)
  from policies_ok_insert_version[OF assms(2,3) v this] have "policies_ok mid1" .
  from policies_ok_update[OF this u] have "policies_ok mid2" by (simp add: advanced_row_def)
  then show ?thesis using l by (rule policies_ok_logged)
qed

lemma policies_ok_activated:
  assumes "version_activated actor c pid input now t res t'" "policies_ok t"
  shows "policies_ok t'"
proof -
  from assms(1) obtain p :: policy_row and v mid ev where
    v: "v \<in> set (access_policy_versions t)" "pv_policy v = ap_id p"
    and u: "update_policies (\<lambda>x. ap_id x = ap_id p \<and> ap_revision x = ap_revision p) (activated_row (pv_id v) now) t = Inr mid"
    and l: "logged mid ev t'"
    unfolding version_activated_def by (elim exE conjE) (rule that; assumption)
  from policies_ok_update[OF assms(2) u] v have "policies_ok mid" by (auto simp: activated_row_def)
  then show ?thesis using l by (rule policies_ok_logged)
qed

lemma schema_policy_created: "schema_ok t \<Longrightarrow> policy_created pg actor c input now t res t' \<Longrightarrow> schema_ok t'"
  unfolding policy_created_def using schema_insert_policy schema_insert_version schema_logged by blast

lemma schema_version_appended: "schema_ok t \<Longrightarrow> version_appended actor c pid input now t res t' \<Longrightarrow> schema_ok t'"
  unfolding version_appended_def
  by (elim exE conjE, erule schema_logged[rotated], erule schema_update_policies[rotated],
      simp add: advanced_row_def, erule schema_insert_version)

lemma schema_version_activated: "schema_ok t \<Longrightarrow> version_activated actor c pid input now t res t' \<Longrightarrow> schema_ok t'"
  unfolding version_activated_def
  by (elim exE conjE, erule schema_logged[rotated], erule schema_update_policies[rotated],
      simp add: activated_row_def)

end
