(* ===== verification/Policy_Properties.thy ===== *)
theory Policy_Properties
  imports Policy_Laws
begin

text \<open>The properties of the policy component, with concrete runs for their witnesses.\<close>

section \<open>Lemmas\<close>

lemma policy_event_row:
  assumes "event_row (policy_event actor c org action target m) i at = Some row" "encodable 0 m"
  shows "ae_actor_type row = pa_Type actor \<and> ae_actor_id row = pa_ID actor \<and> ae_action row = action
    \<and> ae_target_type row = ''access_policy'' \<and> ae_target_id row = target \<and> ae_correlation row = c
    \<and> ae_created row = at \<and> ae_metadata row = utf8_json m \<and> ae_org row = uuid_in org"
  using event_row_fields[OF assms(1)] assms(2)
  by (auto simp: policy_event_def organization_in_def jsonb_in_Marshal split: if_splits)

lemma pol_actor_operator: "pol_validateActor actor = None \<Longrightarrow> pa_Type actor = ''operator'' \<and> pa_Role actor = ''operator''"
  by (auto simp: pol_validateActor_def split: if_splits)

lemma update_one_policy:
  assumes "update_policies (\<lambda>x. ap_id x = ap_id p \<and> ap_revision x = ap_revision p) f t = Inr t'"
    and "p \<in> set (access_policies t)" "\<And>x. ap_id (f x) = ap_id x"
  shows "t' = t\<lparr>access_policies := map (\<lambda>x. if x = p then f p else x) (access_policies t)\<rparr>"
proof -
  have d: "distinct (map ap_id (access_policies t))"
    using assms(1,3) by (simp add: update_policies_Inr policy_uniques_def)
  have "update_rows (\<lambda>x. ap_id x = ap_id p \<and> ap_revision x = ap_revision p) f (access_policies t)
      = map (\<lambda>x. if x = p then f p else x) (access_policies t)"
    unfolding update_rows_def using find_unique_key[OF d] assms(2) by (intro map_cong) auto
  with assms(1) show ?thesis by (simp add: update_policies_Inr)
qed

lemma AppendVersion_blocked:
  assumes "\<And>res t'. \<not> version_appended actor c pid (normalizeAppendInput input) (pg_now pg (tick s)) (tables s) res t'"
    and "AppendVersion pg actor c pid input s = (r, s')"
  shows "(\<exists>e. r = Inl e) \<and> tables s' = tables s"
  using AppendVersion_Inr(4) AppendVersion_Inl assms by (cases r) blast+

lemma Activate_blocked:
  assumes "\<And>res t'. \<not> version_activated actor c pid input (pg_now pg (tick s)) (tables s) res t'"
    and "Activate pg actor c pid input s = (r, s')"
  shows "(\<exists>e. r = Inl e) \<and> tables s' = tables s"
  using Activate_Inr(4) Activate_Inl assms by (cases r) blast+

text \<open>Both mutations need the policy at the expected revision and leave it at the next one.\<close>

lemma version_appended_revision:
  assumes "version_appended actor c pid input now t res t'"
  shows "\<exists>p \<in> set (access_policies t). uuid_in pid = Some (ap_id p) \<and> ap_revision p = ai_ExpectedRevision input
    \<and> vr_PolicyRevision res = ap_revision p + 1"
proof -
  from assms obtain p :: policy_row where
    p: "find (\<lambda>p. uuid_in pid = Some (ap_id p)) (access_policies t) = Some p" "ap_revision p = ai_ExpectedRevision input"
    and r: "vr_PolicyRevision res = ap_revision p + 1"
    unfolding version_appended_def by (elim exE conjE) (rule that, assumption, assumption, metis VersionResult.select_convs(4))
  with find_Some_mem[OF p(1)] show ?thesis by blast
qed

lemma version_activated_revision:
  assumes "version_activated actor c pid input now t res t'"
  shows "\<exists>p \<in> set (access_policies t). uuid_in pid = Some (ap_id p) \<and> ap_revision p = av_ExpectedRevision input
    \<and> pr_Revision res = ap_revision p + 1"
proof -
  from assms obtain p :: policy_row where
    p: "find (\<lambda>p. uuid_in pid = Some (ap_id p)) (access_policies t) = Some p" "ap_revision p = av_ExpectedRevision input"
    and r: "pr_Revision res = ap_revision p + 1"
    unfolding version_activated_def by (elim exE conjE) (rule that, assumption, assumption, metis PolicyResult.select_convs(5))
  with find_Some_mem[OF p(1)] show ?thesis by blast
qed

section \<open>Example runs\<close>

definition example_manager :: pol_actor where
  "example_manager = \<lparr>pa_Type = ''operator'', pa_ID = ''alice'', pa_Role = ''operator''\<rparr>"

definition example_rule_input :: RuleInput where
  "example_rule_input = \<lparr>SourceSPIFFEID = ''spiffe://td.example/api'', DestinationSPIFFEID = ''spiffe://td.example/db'',
     RuleAction = '' Connect'', Effect = ''ALLOW'', ChangeReason = ''initial''\<rparr>"

definition example_policy :: CreateInput where
  "example_policy = \<lparr>ci_OrganizationID = uuid_n 90, ci_Name = ''api to db'', ci_InitialVersion = example_rule_input\<rparr>"

definition example_policy_row :: policy_row where
  "example_policy_row = \<lparr>ap_id = uuid_n 70, ap_org = uuid_n 90, ap_name = ''api to db'', ap_status = ''draft'',
     ap_active = None, ap_revision = 1, ap_updated = 0\<rparr>"

definition example_version_row :: version_row where
  "example_version_row = version_of (uuid_n 60) (uuid_n 70) 1 (normalizeRuleInput example_rule_input) ''alice''"

definition policy_db :: db where
  "policy_db = example_db\<lparr>tables := example_tables\<lparr>access_policies := [example_policy_row],
     access_policy_versions := [example_version_row]\<rparr>\<rparr>"

definition example_append :: AppendVersionInput where
  "example_append = \<lparr>ai_ExpectedRevision = 1, ai_Version = example_rule_input\<lparr>Effect := ''deny''\<rparr>\<rparr>"

definition example_activate :: ActivateInput where
  "example_activate = \<lparr>av_ExpectedRevision = 1, av_VersionID = uuid_n 60\<rparr>"

lemma example_create_policy_run:
  "\<exists>res s'. Policy_Create example_pg example_manager ''c1'' example_policy example_db = (Inr res, s')"
proof -
  have "\<not> isl (fst (Policy_Create example_pg example_manager ''c1'' example_policy example_db))" by code_simp
  then show ?thesis
    by (cases "Policy_Create example_pg example_manager ''c1'' example_policy example_db";
        cases "fst (Policy_Create example_pg example_manager ''c1'' example_policy example_db)") auto
qed

lemma example_append_run:
  "\<exists>res s'. AppendVersion example_pg example_manager ''c2'' (uuid_n 70) example_append policy_db = (Inr res, s')
     \<and> vr_VersionNumber res = 2 \<and> vr_PolicyRevision res = 2"
proof -
  have "map_sum (\<lambda>_. ()) (\<lambda>r. (vr_VersionNumber r, vr_PolicyRevision r))
      (fst (AppendVersion example_pg example_manager ''c2'' (uuid_n 70) example_append policy_db)) = Inr (2, 2)"
    by code_simp
  then show ?thesis
    by (cases "AppendVersion example_pg example_manager ''c2'' (uuid_n 70) example_append policy_db";
        cases "fst (AppendVersion example_pg example_manager ''c2'' (uuid_n 70) example_append policy_db)") auto
qed

lemma example_activate_run:
  "\<exists>res s'. Activate example_pg example_manager ''c3'' (uuid_n 70) example_activate policy_db = (Inr res, s')
     \<and> pr_Revision res = 2"
proof -
  have "map_sum (\<lambda>_. ()) pr_Revision
      (fst (Activate example_pg example_manager ''c3'' (uuid_n 70) example_activate policy_db)) = Inr 2"
    by code_simp
  then show ?thesis
    by (cases "Activate example_pg example_manager ''c3'' (uuid_n 70) example_activate policy_db";
        cases "fst (Activate example_pg example_manager ''c3'' (uuid_n 70) example_activate policy_db)") auto
qed

section \<open>Every outcome keeps the invariant\<close>

definition canonical_uuids :: "pg \<Rightarrow> bool" where
  "canonical_uuids pg \<longleftrightarrow> (\<forall>n. uuid_in (pg_uuid pg n) = Some (pg_uuid pg n))"

text \<open>
  Whatever a handler returns, its tables are those before it or the change of its success.
\<close>

lemma Policy_Create_tables:
  assumes "Policy_Create pg actor c input s = (r, s')"
  shows "tables s' = tables s \<or> (\<exists>res. pol_validateCreateInput (normalizeCreateInput input) = None
    \<and> policy_created pg actor c (normalizeCreateInput input) (pg_now pg (tick s)) (tables s) res (tables s'))"
proof (cases r)
  case (Inl e)
  from Policy_Create_Inl[OF assms[unfolded Inl]] show ?thesis by blast
next
  case (Inr res)
  from Policy_Create_Inr(3,4)[OF assms[unfolded Inr]] show ?thesis by blast
qed

lemma AppendVersion_tables:
  assumes "AppendVersion pg actor c pid input s = (r, s')"
  shows "tables s' = tables s \<or> (\<exists>res. validateAppendInput pid (normalizeAppendInput input) = None
    \<and> version_appended actor c pid (normalizeAppendInput input) (pg_now pg (tick s)) (tables s) res (tables s'))"
proof (cases r)
  case (Inl e)
  from AppendVersion_Inl[OF assms[unfolded Inl]] show ?thesis by blast
next
  case (Inr res)
  from AppendVersion_Inr(3,4)[OF assms[unfolded Inr]] show ?thesis by blast
qed

lemma Activate_tables:
  assumes "Activate pg actor c pid input s = (r, s')"
  shows "tables s' = tables s
    \<or> (\<exists>res. version_activated actor c pid input (pg_now pg (tick s)) (tables s) res (tables s'))"
proof (cases r)
  case (Inl e)
  from Activate_Inl[OF assms[unfolded Inl]] show ?thesis by blast
next
  case (Inr res)
  from Activate_Inr(4)[OF assms[unfolded Inr]] show ?thesis by blast
qed

lemma Policy_Create_keeps:
  assumes "canonical_uuids pg" "schema_ok (tables s)" "policies_ok (tables s)" "Policy_Create pg actor c input s = (r, s')"
  shows "schema_ok (tables s') \<and> policies_ok (tables s')"
  using Policy_Create_tables[OF assms(4)]
proof (elim disjE exE conjE)
  fix res
  assume v: "pol_validateCreateInput (normalizeCreateInput input) = None"
    and p: "policy_created pg actor c (normalizeCreateInput input) (pg_now pg (tick s)) (tables s) res (tables s')"
  have "validateRuleInput (ci_InitialVersion (normalizeCreateInput input)) = None"
    using v by (auto simp: pol_validateCreateInput_def split: if_splits)
  from policies_ok_created[OF p assms(2,3) this] schema_policy_created[OF assms(2) p] assms(1)
  show ?thesis by (simp add: canonical_uuids_def)
qed (simp add: assms)

lemma AppendVersion_keeps:
  assumes "schema_ok (tables s)" "policies_ok (tables s)" "AppendVersion pg actor c pid input s = (r, s')"
  shows "schema_ok (tables s') \<and> policies_ok (tables s')"
  using AppendVersion_tables[OF assms(3)]
proof (elim disjE exE conjE)
  fix res
  assume v: "validateAppendInput pid (normalizeAppendInput input) = None"
    and p: "version_appended actor c pid (normalizeAppendInput input) (pg_now pg (tick s)) (tables s) res (tables s')"
  have "validateRuleInput (ai_Version (normalizeAppendInput input)) = None"
    using v by (auto simp: validateAppendInput_def split: if_splits)
  from policies_ok_appended[OF p assms(2) this] schema_version_appended[OF assms(1) p] show ?thesis by simp
qed (simp add: assms)

lemma Activate_keeps:
  assumes "schema_ok (tables s)" "policies_ok (tables s)" "Activate pg actor c pid input s = (r, s')"
  shows "schema_ok (tables s') \<and> policies_ok (tables s')"
  using Activate_tables[OF assms(3)]
  by (elim disjE exE) (simp add: assms, simp add: policies_ok_activated[OF _ assms(2)] schema_version_activated[OF assms(1)])

lemma canonical_example: "canonical_uuids example_pg"
proof -
  have "list_all (\<lambda>n. uuid_in (uuid_n n) = Some (uuid_n n)) [0..<100]" by code_simp
  then have "uuid_in (uuid_n (n mod 100)) = Some (uuid_n (n mod 100))" for n by (auto simp: list_all_iff)
  moreover have "uuid_n (n mod 100) = uuid_n n" for n
  proof -
    have "n mod 100 div 10 mod 10 = n div 10 mod 10" "n mod 100 mod 10 = n mod 10"
      using mod_mult2_eq[of n 10 10] by (simp_all add: mod_mod_cancel)
    then show ?thesis unfolding uuid_n_def by simp
  qed
  ultimately show ?thesis by (simp add: canonical_uuids_def example_pg_def)
qed

section \<open>Properties\<close>

text \<open>
  C20. What \<open>Activate\<close> does when it succeeds: the policy with that ID, which was at the
  expected revision, becomes active with the requested version and moves to the next revision;
  the version exists, belongs to this very policy, and passes the rule validation again; no
  version and no other policy is touched; one audit event attributed to the actor is appended.
\<close>

theorem Activate_effect:
  assumes "Activate pg actor c pid input s = (Inr res, s')"
  shows "\<exists>p v ev. p \<in> set (access_policies (tables s)) \<and> uuid_in pid = Some (ap_id p)
    \<and> ap_revision p = av_ExpectedRevision input \<and> pr_Revision res = ap_revision p + 1
    \<and> v \<in> set (access_policy_versions (tables s)) \<and> uuid_in (av_VersionID input) = Some (pv_id v)
    \<and> pv_policy v = ap_id p \<and> validateRuleInput (stored_rule v) = None
    \<and> tables s' = (tables s)\<lparr>access_policies := map (\<lambda>x. if x = p
          then p\<lparr>ap_active := Some (pv_id v), ap_status := ''active'', ap_revision := ap_revision p + 1,
                 ap_updated := pg_now pg (tick s)\<rparr> else x) (access_policies (tables s)),
        audit_events := audit_events (tables s) @ [ev]\<rparr>
    \<and> ae_actor_type ev = ''operator'' \<and> ae_actor_id ev = pa_ID actor \<and> ae_correlation ev = c
    \<and> ae_action ev = ''access_policy.activate_version'' \<and> ae_target_id ev = pid
    \<and> ae_metadata ev = utf8_json (activate_metadata actor res (av_VersionID input) (pv_version v))"
proof -
  note h = Activate_Inr[OF assms]
  note op = pol_actor_operator[OF h(1)]
  from h(4) obtain p v mid ev where
    p: "find (\<lambda>p. uuid_in pid = Some (ap_id p)) (access_policies (tables s)) = Some p"
      "ap_revision p = av_ExpectedRevision input"
    and v: "v \<in> set (access_policy_versions (tables s))" "uuid_in (av_VersionID input) = Some (pv_id v)"
      "pv_policy v = ap_id p" "validateRuleInput (stored_rule v) = None"
    and u: "update_policies (\<lambda>x. ap_id x = ap_id p \<and> ap_revision x = ap_revision p)
        (activated_row (pv_id v) (pg_now pg (tick s))) (tables s) = Inr mid"
    and l: "logged mid ev (tables s')"
    and e: "event_row (policy_event actor c (ap_org p) ''access_policy.activate_version'' pid
          (activate_metadata actor res (av_VersionID input) (pv_version v))) (ae_id ev) (pg_now pg (tick s)) = Some ev"
    and r: "pr_Revision res = ap_revision p + 1"
    unfolding version_activated_def
    by (elim exE conjE) (rule that, assumption+, metis PolicyResult.select_convs(5))
  note m = find_Some_mem[OF p(1)]
  have "mid = (tables s)\<lparr>access_policies := map (\<lambda>x. if x = p then activated_row (pv_id v) (pg_now pg (tick s)) p else x)
      (access_policies (tables s))\<rparr>"
    using update_one_policy[OF u] m by (simp add: activated_row_def)
  then have "tables s' = (tables s)\<lparr>access_policies := map (\<lambda>x. if x = p
          then p\<lparr>ap_active := Some (pv_id v), ap_status := ''active'', ap_revision := ap_revision p + 1,
                 ap_updated := pg_now pg (tick s)\<rparr> else x) (access_policies (tables s)),
        audit_events := audit_events (tables s) @ [ev]\<rparr>"
    using logged_with_event[OF l] by (simp add: with_event_def activated_row_def)
  with m p(2) v r policy_event_row[OF e encodable_policy_metadata(3)] op show ?thesis
    by (intro exI[of _ p] exI[of _ v] exI[of _ ev]) simp
qed

theorem Activate_effect_witness:
  "\<exists>res s' v. Activate example_pg example_manager ''c3'' (uuid_n 70) example_activate policy_db = (Inr res, s')
     \<and> v \<in> set (access_policy_versions (tables policy_db)) \<and> validateRuleInput (stored_rule v) = None"
proof -
  obtain res s' where run: "Activate example_pg example_manager ''c3'' (uuid_n 70) example_activate policy_db = (Inr res, s')"
    using example_activate_run by blast
  with Activate_effect[OF run] show ?thesis by blast
qed

text \<open>
  C21. What \<open>AppendVersion\<close> does when it succeeds: it appends one version to the policy with that
  ID, which was at the expected revision, numbered one above the largest version number of the
  policy, with the normalised rule, which passes the validation an activation repeats; the
  policy moves to the next revision and keeps everything else, its active version included; one
  audit event attributed to the actor is appended.
\<close>

theorem AppendVersion_effect:
  assumes "AppendVersion pg actor c pid input s = (Inr res, s')"
  shows "\<exists>p v ev. p \<in> set (access_policies (tables s)) \<and> uuid_in pid = Some (ap_id p)
    \<and> ap_revision p = ai_ExpectedRevision input \<and> vr_PolicyRevision res = ap_revision p + 1
    \<and> pv_id v = vr_ID res \<and> pv_policy v = ap_id p \<and> pv_version v = vr_VersionNumber res
    \<and> pv_version v = max_version (filter (\<lambda>x. pv_policy x = ap_id p) (access_policy_versions (tables s))) + 1
    \<and> stored_rule v = normalizeRuleInput (ai_Version input) \<and> validateRuleInput (stored_rule v) = None
    \<and> pv_created_by v = pa_ID actor
    \<and> tables s' = (tables s)\<lparr>access_policies := map (\<lambda>x. if x = p
          then p\<lparr>ap_revision := ap_revision p + 1, ap_updated := pg_now pg (tick s)\<rparr> else x)
          (access_policies (tables s)),
        access_policy_versions := access_policy_versions (tables s) @ [v],
        audit_events := audit_events (tables s) @ [ev]\<rparr>
    \<and> ae_actor_type ev = ''operator'' \<and> ae_actor_id ev = pa_ID actor \<and> ae_correlation ev = c
    \<and> ae_action ev = ''access_policy.append_version'' \<and> ae_target_id ev = pid
    \<and> ae_metadata ev = utf8_json (append_metadata actor res)"
proof -
  note h = AppendVersion_Inr[OF assms]
  note op = pol_actor_operator[OF h(1)]
  let ?rule = "normalizeRuleInput (ai_Version input)"
  have ok: "validateRuleInput ?rule = None" "ai_Version (normalizeAppendInput input) = ?rule"
    "ai_ExpectedRevision (normalizeAppendInput input) = ai_ExpectedRevision input"
    using h(3) by (auto simp: validateAppendInput_def normalizeAppendInput_def split: if_splits)
  from h(4) obtain p mid1 mid2 ev where
    p: "find (\<lambda>p. uuid_in pid = Some (ap_id p)) (access_policies (tables s)) = Some p"
      "ap_revision p = ai_ExpectedRevision input"
    and i: "insert_version (version_of (vr_ID res) (ap_id p) (next_version (tables s) (ap_id p)) ?rule (pa_ID actor)) (tables s) = Inr mid1"
    and u: "update_policies (\<lambda>x. ap_id x = ap_id p \<and> ap_revision x = ap_revision p) (advanced_row (pg_now pg (tick s))) mid1 = Inr mid2"
    and l: "logged mid2 ev (tables s')"
    and e: "event_row (policy_event actor c (ap_org p) ''access_policy.append_version'' pid
          (append_metadata actor res)) (ae_id ev) (pg_now pg (tick s)) = Some ev"
    and r: "vr_PolicyRevision res = ap_revision p + 1" "vr_VersionNumber res = next_version (tables s) (ap_id p)"
    unfolding version_appended_def ok(2,3)
    by (elim exE conjE) (rule that, assumption+, metis VersionResult.select_convs(4), metis VersionResult.select_convs(3))
  note m = find_Some_mem[OF p(1)]
  define v where "v = version_of (vr_ID res) (ap_id p) (next_version (tables s) (ap_id p)) ?rule (pa_ID actor)"
  have mid1: "mid1 = (tables s)\<lparr>access_policy_versions := access_policy_versions (tables s) @ [v]\<rparr>"
    using i by (simp add: insert_version_Inr v_def)
  have "mid2 = mid1\<lparr>access_policies := map (\<lambda>x. if x = p then advanced_row (pg_now pg (tick s)) p else x)
      (access_policies mid1)\<rparr>"
    using update_one_policy[OF u] m by (simp add: mid1 advanced_row_def)
  then have "tables s' = (tables s)\<lparr>access_policies := map (\<lambda>x. if x = p
          then p\<lparr>ap_revision := ap_revision p + 1, ap_updated := pg_now pg (tick s)\<rparr> else x)
          (access_policies (tables s)),
        access_policy_versions := access_policy_versions (tables s) @ [v],
        audit_events := audit_events (tables s) @ [ev]\<rparr>"
    using logged_with_event[OF l] by (simp add: with_event_def advanced_row_def mid1)
  with m p(2) r ok(1) policy_event_row[OF e encodable_policy_metadata(2)] op show ?thesis
    by (intro exI[of _ p] exI[of _ v] exI[of _ ev])
      (simp add: v_def, simp add: version_of_def next_version_def)
qed

theorem AppendVersion_effect_witness:
  "\<exists>res s' v. AppendVersion example_pg example_manager ''c2'' (uuid_n 70) example_append policy_db = (Inr res, s')
     \<and> access_policy_versions (tables s') = [example_version_row, v] \<and> validateRuleInput (stored_rule v) = None"
proof -
  obtain res s' where run: "AppendVersion example_pg example_manager ''c2'' (uuid_n 70) example_append policy_db = (Inr res, s')"
    using example_append_run by blast
  from AppendVersion_effect[OF run] obtain v where
    "access_policy_versions (tables s') = access_policy_versions (tables policy_db) @ [v]" "validateRuleInput (stored_rule v) = None"
    by auto
  with run show ?thesis by (simp add: policy_db_def)
qed

text \<open>
  C22. What \<open>Create\<close> does when it succeeds: it appends one draft policy at revision 1 with no
  active version, under the trimmed name, which no policy of the organization had, and version 1
  of it with the normalised rule, which passes the rule validation; one audit event attributed
  to the actor is appended; nothing else changes.
\<close>

theorem Policy_Create_effect:
  assumes "Policy_Create pg actor c input s = (Inr res, s')"
  shows "\<exists>p v ev. ap_id p = pr_ID (cr_Policy res) \<and> uuid_in (ci_OrganizationID input) = Some (ap_org p)
    \<and> ap_org p \<in> set (organizations (tables s)) \<and> ap_name p = TrimSpace (ci_Name input)
    \<and> (ap_org p, ap_name p) \<notin> set (map (\<lambda>x. (ap_org x, ap_name x)) (access_policies (tables s)))
    \<and> ap_status p = ''draft'' \<and> ap_active p = None \<and> ap_revision p = 1
    \<and> pv_id v = vr_ID (cr_Version res) \<and> uuid_in (ap_id p) = Some (pv_policy v) \<and> pv_version v = 1
    \<and> stored_rule v = normalizeRuleInput (ci_InitialVersion input) \<and> validateRuleInput (stored_rule v) = None
    \<and> pv_created_by v = pa_ID actor
    \<and> tables s' = (tables s)\<lparr>access_policies := access_policies (tables s) @ [p],
        access_policy_versions := access_policy_versions (tables s) @ [v],
        audit_events := audit_events (tables s) @ [ev]\<rparr>
    \<and> ae_actor_type ev = ''operator'' \<and> ae_actor_id ev = pa_ID actor \<and> ae_correlation ev = c
    \<and> ae_action ev = ''access_policy.create_with_version'' \<and> ae_target_id ev = ap_id p
    \<and> ae_metadata ev = utf8_json (policy_create_metadata actor res)"
proof -
  note h = Policy_Create_Inr[OF assms]
  note op = pol_actor_operator[OF h(1)]
  let ?in = "normalizeCreateInput input"
  have inp: "validateRuleInput (ci_InitialVersion ?in) = None" "ci_Name ?in = TrimSpace (ci_Name input)"
    "ci_InitialVersion ?in = normalizeRuleInput (ci_InitialVersion input)" "ci_OrganizationID ?in = ci_OrganizationID input"
    using h(3) by (auto simp: pol_validateCreateInput_def normalizeCreateInput_def split: if_splits)
  from h(4) obtain org pid mid1 mid2 ev where
    o: "uuid_in (ci_OrganizationID input) = Some org" "org \<in> set (organizations (tables s))"
    and i: "insert_policy \<lparr>ap_id = pr_ID (cr_Policy res), ap_org = org, ap_name = ci_Name ?in, ap_status = ''draft'',
          ap_active = None, ap_revision = 1, ap_updated = pg_now pg (tick s)\<rparr> (tables s) = Inr mid1"
    and pid: "uuid_in (pr_ID (cr_Policy res)) = Some pid"
    and v: "insert_version (version_of (vr_ID (cr_Version res)) pid 1 (ci_InitialVersion ?in) (pa_ID actor)) mid1 = Inr mid2"
    and l: "logged mid2 ev (tables s')"
    and e: "event_row (policy_event actor c (ci_OrganizationID input) ''access_policy.create_with_version''
          (pr_ID (cr_Policy res)) (policy_create_metadata actor res)) (ae_id ev) (pg_now pg (tick s)) = Some ev"
    unfolding policy_created_def inp(4) by (elim exE conjE) (rule that)
  let ?p = "\<lparr>ap_id = pr_ID (cr_Policy res), ap_org = org, ap_name = ci_Name ?in, ap_status = ''draft'',
          ap_active = None, ap_revision = 1, ap_updated = pg_now pg (tick s)\<rparr>"
  let ?v = "version_of (vr_ID (cr_Version res)) pid 1 (ci_InitialVersion ?in) (pa_ID actor)"
  have "tables s' = (tables s)\<lparr>access_policies := access_policies (tables s) @ [?p],
        access_policy_versions := access_policy_versions (tables s) @ [?v],
        audit_events := audit_events (tables s) @ [ev]\<rparr>"
    using i v logged_with_event[OF l] by (simp add: insert_policy_Inr insert_version_Inr with_event_def)
  moreover have "(org, ci_Name ?in) \<notin> set (map (\<lambda>x. (ap_org x, ap_name x)) (access_policies (tables s)))"
    using i by (simp add: insert_policy_Inr policy_uniques_def)
  moreover have "pv_created_by ?v = pa_ID actor" by (simp add: version_of_def)
  moreover note policy_event_row[OF e encodable_policy_metadata(1)]
  ultimately show ?thesis
    using o pid inp op by (intro exI[of _ ?p] exI[of _ ?v] exI[of _ ev]) simp
qed

theorem Policy_Create_effect_witness:
  "\<exists>res s' p v. Policy_Create example_pg example_manager ''c1'' example_policy example_db = (Inr res, s')
     \<and> access_policies (tables s') = [p] \<and> access_policy_versions (tables s') = [v] \<and> ap_revision p = 1"
proof -
  obtain res s' where run: "Policy_Create example_pg example_manager ''c1'' example_policy example_db = (Inr res, s')"
    using example_create_policy_run by blast
  from Policy_Create_effect[OF run] obtain p v where
    "access_policies (tables s') = access_policies (tables example_db) @ [p]"
    "access_policy_versions (tables s') = access_policy_versions (tables example_db) @ [v]" "ap_revision p = 1"
    by auto
  with run show ?thesis by (simp add: example_db_def example_tables_def)
qed

text \<open>
  The invariant of the policy tables: \<open>Create\<close>, \<open>AppendVersion\<close> and \<open>Activate\<close>, whatever
  they are given and whatever they return, keep the schema's constraints and keep that every
  active version is a version of its own policy, that every stored version passes the rule
  validation, and that the versions of each policy are numbered 1, 2, 3, ... in order. The server's
  generated UUIDs are in canonical form.
\<close>

theorem policy_invariant:
  assumes "\<forall>n. uuid_in (pg_uuid pg n) = Some (pg_uuid pg n)" "schema_ok (tables s)" "policies_ok (tables s)"
    and "Policy_Create pg actor c cin s = (r1, s1)" "AppendVersion pg actor c pid ain s = (r2, s2)"
    and "Activate pg actor c pid vin s = (r3, s3)"
  shows "schema_ok (tables s1) \<and> policies_ok (tables s1) \<and> schema_ok (tables s2) \<and> policies_ok (tables s2)
    \<and> schema_ok (tables s3) \<and> policies_ok (tables s3)"
  using Policy_Create_keeps[OF _ assms(2-4)] AppendVersion_keeps[OF assms(2,3,5)] Activate_keeps[OF assms(2,3,6)] assms(1)
  by (simp add: canonical_uuids_def)

theorem policy_invariant_witness:
  "policies_ok (tables (snd (AppendVersion example_pg example_manager ''c2'' (uuid_n 70) example_append policy_db)))
   \<and> policies_ok (tables (snd (Activate example_pg example_manager ''c3'' (uuid_n 70) example_activate policy_db)))"
proof -
  have "schema_ok (tables policy_db)" "policies_ok (tables policy_db)" by code_simp+
  with policy_invariant[where pg = example_pg and s = policy_db and actor = example_manager and pid = "uuid_n 70"]
    canonical_example show ?thesis
    unfolding canonical_uuids_def by (metis prod.collapse)
qed

text \<open>
  C23. Policy mutations are atomic with their audit event: when one of the three returns an
  error, then either no table has changed, or the error is that of the commit, whose
  acknowledgement was lost, and exactly the change of a success has been made, the policy, its
  version and the audit event together.
\<close>

theorem policy_mutations_atomic:
  "(Policy_Create pg actor c cin s = (Inl e1, s1) \<longrightarrow> tables s1 = tables s
      \<or> e1 = PolicyDb ''commit policy create'' ConnFailed \<and> (\<exists>n. pg_commit pg n = AckLost)
        \<and> (\<exists>res. policy_created pg actor c (normalizeCreateInput cin) (pg_now pg (tick s)) (tables s) res (tables s1)))
   \<and> (AppendVersion pg actor c pid ain s = (Inl e2, s2) \<longrightarrow> tables s2 = tables s
      \<or> e2 = PolicyDb ''commit policy version append'' ConnFailed \<and> (\<exists>n. pg_commit pg n = AckLost)
        \<and> (\<exists>res. version_appended actor c pid (normalizeAppendInput ain) (pg_now pg (tick s)) (tables s) res (tables s2)))
   \<and> (Activate pg actor c pid vin s = (Inl e3, s3) \<longrightarrow> tables s3 = tables s
      \<or> e3 = PolicyDb ''commit policy activation'' ConnFailed \<and> (\<exists>n. pg_commit pg n = AckLost)
        \<and> (\<exists>res. version_activated actor c pid vin (pg_now pg (tick s)) (tables s) res (tables s3)))"
  by (intro conjI impI; drule Policy_Create_Inl AppendVersion_Inl Activate_Inl; elim disjE exE conjE; simp; blast)

theorem policy_mutations_atomic_witness:
  "\<exists>s3. Activate example_pg example_manager ''c3'' (uuid_n 70) (example_activate\<lparr>av_VersionID := uuid_n 61\<rparr>) policy_db
      = (Inl PolicyNotFound, s3) \<and> tables s3 = tables policy_db"
proof -
  have "fst (Activate example_pg example_manager ''c3'' (uuid_n 70) (example_activate\<lparr>av_VersionID := uuid_n 61\<rparr>) policy_db)
      = Inl PolicyNotFound" by code_simp
  then obtain s3 where run: "Activate example_pg example_manager ''c3'' (uuid_n 70) (example_activate\<lparr>av_VersionID := uuid_n 61\<rparr>)
      policy_db = (Inl PolicyNotFound, s3)" by (metis prod.collapse)
  with policy_mutations_atomic[of example_pg example_manager "''c3''" undefined policy_db undefined undefined "uuid_n 70" undefined
      undefined undefined "example_activate\<lparr>av_VersionID := uuid_n 61\<rparr>" PolicyNotFound s3]
  show ?thesis by (simp add: example_pg_def)
qed



end
