(* ===== verification/SpireMgmt.thy ===== *)
theory SpireMgmt
  imports SpiffeID Registration_Store
begin

text \<open>
  \<open>internal/spiremgmt/client.go\<close>: the client the reconciler manages SPIRE entries with. The
  entry service of the SPIRE API is not part of the program: it is the parameter
  \<open>entry_api\<close>, four remote calls that answer a message or a status error and may change the
  world. The types of the API messages are the fields the client reads and writes; a repeated
  message field holds no nil element.

  The lemmas give the inverse of the conversion to API messages and say when the client answers
  \<open>ErrNotFound\<close>.
\<close>

section \<open>The messages of the entry API\<close>

record proto_selector =
  ps_Type :: string
  ps_Value :: string

record proto_entry =
  pe_Id :: string
  pe_SpiffeId :: "SPIFFEID option"
  pe_ParentId :: "SPIFFEID option"
  pe_Selectors :: "proto_selector list"
  pe_X509SvidTtl :: int
  pe_Hint :: string

record entry_mask =
  em_SpiffeId :: bool
  em_ParentId :: bool
  em_Selectors :: bool
  em_X509SvidTtl :: bool
  em_Hint :: bool

text \<open>One result of a batch call, whose status and entry may be absent; a status is its code.\<close>

record entry_result =
  er_Status :: "int option"
  er_Entry :: "proto_entry option"

datatype rpc_error = RpcStatus int

record 'w entry_api =
  api_GetEntry :: "string \<Rightarrow> entry_mask \<Rightarrow> ('w, rpc_error, proto_entry) action"
  api_BatchCreateEntry :: "proto_entry list \<Rightarrow> entry_mask \<Rightarrow> ('w, rpc_error, entry_result list) action"
  api_BatchUpdateEntry :: "proto_entry list \<Rightarrow> entry_mask \<Rightarrow> entry_mask \<Rightarrow> ('w, rpc_error, entry_result list) action"
  api_BatchDeleteEntry :: "string list \<Rightarrow> ('w, rpc_error, int option list) action"

text \<open>The status codes of gRPC that the client tells apart.\<close>

definition codes_OK :: int where "codes_OK = 0"
definition codes_NotFound :: int where "codes_NotFound = 5"
definition codes_AlreadyExists :: int where "codes_AlreadyExists = 6"

section \<open>Entries\<close>

record Entry =
  EntryID :: string
  EntrySPIFFEID :: string
  EntryParentSPIFFEID :: string
  EntrySelectors :: "string list"
  EntryX509SVIDTTL :: int
  EntryHint :: string

datatype CreateDisposition = CreateDispositionCreated | CreateDispositionExisting

record spire_create =
  sc_Entry :: Entry
  sc_Disposition :: CreateDisposition

datatype spire_error = SpireNotFound | GetRPC rpc_error
  | WorkloadIDInvalid spiffe_error | ParentIDInvalid spiffe_error | SelectorMalformed string | NoSelector
  | CreateRPC rpc_error | CreateInvalidResult | CreateRejected int
  | UpdateWithoutID | UpdateRPC rpc_error | UpdateInvalidResult | UpdateRejected int
  | DeleteRPC rpc_error | DeleteInvalidResult | DeleteRejected int

definition parseSelector :: "string \<Rightarrow> spire_error + proto_selector" where
  "parseSelector raw =
     (case Cut raw CHR '':'' of (kind, val, ok) \<Rightarrow>
        if \<not> ok \<or> kind = [] \<or> val = [] then Inl (SelectorMalformed raw)
        else Inr \<lparr>ps_Type = kind, ps_Value = val\<rparr>)"

text \<open>The loop over the selectors stops at the first one that does not parse.\<close>

fun parse_selectors :: "string list \<Rightarrow> spire_error + proto_selector list" where
  "parse_selectors [] = Inr []"
| "parse_selectors (raw # rest) =
     (case parseSelector raw of
        Inl e \<Rightarrow> Inl e
      | Inr x \<Rightarrow> (case parse_selectors rest of Inl e \<Rightarrow> Inl e | Inr xs \<Rightarrow> Inr (x # xs)))"

definition toProtoEntry :: "Entry \<Rightarrow> spire_error + proto_entry" where
  "toProtoEntry entry =
     (case parseSPIFFEID (EntrySPIFFEID entry) of
        Inl e \<Rightarrow> Inl (WorkloadIDInvalid e)
      | Inr spiffeID \<Rightarrow>
          (case parseSPIFFEID (EntryParentSPIFFEID entry) of
             Inl e \<Rightarrow> Inl (ParentIDInvalid e)
           | Inr parentID \<Rightarrow>
               (case parse_selectors (EntrySelectors entry) of
                  Inl e \<Rightarrow> Inl e
                | Inr selectors \<Rightarrow>
                    if selectors = [] then Inl NoSelector
                    else Inr \<lparr>pe_Id = EntryID entry, pe_SpiffeId = Some spiffeID, pe_ParentId = Some parentID,
                      pe_Selectors = selectors, pe_X509SvidTtl = EntryX509SVIDTTL entry,
                      pe_Hint = EntryHint entry\<rparr>)))"

definition fromProtoEntry :: "proto_entry \<Rightarrow> Entry" where
  "fromProtoEntry entry = \<lparr>EntryID = pe_Id entry, EntrySPIFFEID = formatSPIFFEID (pe_SpiffeId entry),
     EntryParentSPIFFEID = formatSPIFFEID (pe_ParentId entry),
     EntrySelectors = map (\<lambda>x. ps_Type x @ '':'' @ ps_Value x) (pe_Selectors entry),
     EntryX509SVIDTTL = pe_X509SvidTtl entry, EntryHint = pe_Hint entry\<rparr>"

definition fullOutputMask :: entry_mask where
  "fullOutputMask = \<lparr>em_SpiffeId = True, em_ParentId = True, em_Selectors = True, em_X509SvidTtl = True,
     em_Hint = True\<rparr>"

definition update_input_mask :: entry_mask where
  "update_input_mask = \<lparr>em_SpiffeId = True, em_ParentId = True, em_Selectors = True, em_X509SvidTtl = True,
     em_Hint = True\<rparr>"

section \<open>The client\<close>

text \<open>The interface \<open>Client\<close>, and the client over the gRPC service that implements it.\<close>

record 'w spire_client =
  GetEntry :: "string \<Rightarrow> ('w, spire_error, Entry) action"
  CreateEntry :: "Entry \<Rightarrow> ('w, spire_error, spire_create) action"
  UpdateEntry :: "Entry \<Rightarrow> ('w, spire_error, Entry) action"
  DeleteEntry :: "string \<Rightarrow> ('w, spire_error, unit) action"

text \<open>\<open>status.Code\<close> of a non-nil error.\<close>

definition status_Code :: "rpc_error \<Rightarrow> int" where
  "status_Code e = (case e of RpcStatus c \<Rightarrow> c)"

definition grpc_GetEntry :: "'w entry_api \<Rightarrow> string \<Rightarrow> ('w, spire_error, Entry) action" where
  "grpc_GetEntry api i =
     and_then (wrap_err (\<lambda>e. if status_Code e = codes_NotFound then SpireNotFound else GetRPC e)
         (api_GetEntry api i fullOutputMask))
       (\<lambda>value. returns (fromProtoEntry value))"

text \<open>
  The only result of a batch: exactly one, with a status and an entry.
\<close>

definition single_result :: "'e \<Rightarrow> entry_result list \<Rightarrow> ('w, 'e, int \<times> proto_entry) action" where
  "single_result invalid results =
     (case results of
        [r] \<Rightarrow> (case (er_Status r, er_Entry r) of
            (Some code, Some entry) \<Rightarrow> returns (code, entry)
          | _ \<Rightarrow> throws invalid)
      | _ \<Rightarrow> throws invalid)"

definition grpc_CreateEntry :: "'w entry_api \<Rightarrow> Entry \<Rightarrow> ('w, spire_error, spire_create) action" where
  "grpc_CreateEntry api entry =
     (case toProtoEntry entry of
        Inl e \<Rightarrow> throws e
      | Inr value \<Rightarrow>
          and_then (wrap_err CreateRPC (api_BatchCreateEntry api [value] fullOutputMask)) (\<lambda>results.
          and_then (single_result CreateInvalidResult results) (\<lambda>(code, result).
          if code = codes_OK
          then returns \<lparr>sc_Entry = fromProtoEntry result, sc_Disposition = CreateDispositionCreated\<rparr>
          else if code = codes_AlreadyExists
          then returns \<lparr>sc_Entry = fromProtoEntry result, sc_Disposition = CreateDispositionExisting\<rparr>
          else throws (CreateRejected code))))"

definition grpc_UpdateEntry :: "'w entry_api \<Rightarrow> Entry \<Rightarrow> ('w, spire_error, Entry) action" where
  "grpc_UpdateEntry api entry =
     (if EntryID entry = [] then throws UpdateWithoutID
      else (case toProtoEntry entry of
        Inl e \<Rightarrow> throws e
      | Inr value \<Rightarrow>
          and_then (wrap_err UpdateRPC (api_BatchUpdateEntry api [value] update_input_mask fullOutputMask))
            (\<lambda>results.
          and_then (single_result UpdateInvalidResult results) (\<lambda>(code, result).
          if code \<noteq> codes_OK
          then throws (if code = codes_NotFound then SpireNotFound else UpdateRejected code)
          else returns (fromProtoEntry result)))))"

definition grpc_DeleteEntry :: "'w entry_api \<Rightarrow> string \<Rightarrow> ('w, spire_error, unit) action" where
  "grpc_DeleteEntry api i =
     and_then (wrap_err DeleteRPC (api_BatchDeleteEntry api [i])) (\<lambda>results.
       case results of
         [Some code] \<Rightarrow>
           if code = codes_NotFound then throws SpireNotFound
           else if code \<noteq> codes_OK then throws (DeleteRejected code)
           else returns ()
       | _ \<Rightarrow> throws DeleteInvalidResult)"

definition grpc_client :: "'w entry_api \<Rightarrow> 'w spire_client" where
  "grpc_client api = \<lparr>GetEntry = grpc_GetEntry api, CreateEntry = grpc_CreateEntry api,
     UpdateEntry = grpc_UpdateEntry api, DeleteEntry = grpc_DeleteEntry api\<rparr>"

text \<open>
  \<open>NewUnixClient\<close> refuses a relative socket path before it makes a connection; making one is
  the gRPC library's, the argument \<open>newClient\<close>.
\<close>

datatype unix_client_error = SocketPathNotAbsolute | NewClientFailed string

definition NewUnixClient :: "(string \<Rightarrow> string + 'c) \<Rightarrow> string \<Rightarrow> unix_client_error + 'c" where
  "NewUnixClient newClient socketPath =
     (if \<not> HasPrefix socketPath ''/'' then Inl SocketPathNotAbsolute
      else (case newClient (''unix:'' @ socketPath) of
          Inl e \<Rightarrow> Inl (NewClientFailed e) | Inr conn \<Rightarrow> Inr conn))"

section \<open>Conversion\<close>

lemma parseSelector_Inr:
  "parseSelector raw = Inr x \<longleftrightarrow> raw = ps_Type x @ '':'' @ ps_Value x \<and> CHR '':'' \<notin> set (ps_Type x)
     \<and> ps_Type x \<noteq> [] \<and> ps_Value x \<noteq> []"
proof
  assume "parseSelector raw = Inr x"
  then have "Cut raw CHR '':'' = (ps_Type x, ps_Value x, True)" "ps_Type x \<noteq> []" "ps_Value x \<noteq> []"
    by (auto simp: parseSelector_def split: prod.splits if_splits)
  with Cut_found[OF this(1)] show "raw = ps_Type x @ '':'' @ ps_Value x \<and> CHR '':'' \<notin> set (ps_Type x)
     \<and> ps_Type x \<noteq> [] \<and> ps_Value x \<noteq> []" by simp
next
  assume r: "raw = ps_Type x @ '':'' @ ps_Value x \<and> CHR '':'' \<notin> set (ps_Type x)
     \<and> ps_Type x \<noteq> [] \<and> ps_Value x \<noteq> []"
  have "Cut raw CHR '':'' = (ps_Type x, ps_Value x, True)"
    using r Cut_append[of "CHR '':''" "ps_Type x" "ps_Value x"] by simp
  then show "parseSelector raw = Inr x" using r by (simp add: parseSelector_def)
qed

lemma parse_selectors_Inr:
  "parse_selectors raws = Inr xs \<Longrightarrow> map (\<lambda>x. ps_Type x @ '':'' @ ps_Value x) xs = raws
     \<and> (\<forall>x \<in> set xs. CHR '':'' \<notin> set (ps_Type x) \<and> ps_Type x \<noteq> [] \<and> ps_Value x \<noteq> [])"
  by (induction raws arbitrary: xs) (auto simp: parseSelector_Inr split: sum.splits)

lemma parse_selectors_ok:
  "(\<And>raw. raw \<in> set raws \<Longrightarrow> \<exists>x. parseSelector raw = Inr x) \<Longrightarrow> \<exists>xs. parse_selectors raws = Inr xs"
  by (induction raws) (fastforce split: sum.splits)+

lemma parse_selectors_format:
  "(\<forall>x \<in> set xs. CHR '':'' \<notin> set (ps_Type x) \<and> ps_Type x \<noteq> [] \<and> ps_Value x \<noteq> []) \<Longrightarrow>
     parse_selectors (map (\<lambda>x. ps_Type x @ '':'' @ ps_Value x) xs) = Inr xs"
proof (induction xs)
  case (Cons x xs)
  then have "parseSelector (ps_Type x @ '':'' @ ps_Value x) = Inr x" by (simp add: parseSelector_Inr)
  with Cons show ?case by simp
qed simp

lemma status_Code_iff: "status_Code e = c \<longleftrightarrow> e = RpcStatus c"
  by (cases e) (simp add: status_Code_def)

lemma parse_selectors_Inl: "parse_selectors raws = Inl e \<Longrightarrow> \<exists>raw. e = SelectorMalformed raw"
  by (induction raws) (auto simp: parseSelector_def split: sum.splits prod.splits if_splits)

lemma toProtoEntry_Inr:
  "toProtoEntry e = Inr p \<longleftrightarrow> (\<exists>w d xs. parseSPIFFEID (EntrySPIFFEID e) = Inr w
     \<and> parseSPIFFEID (EntryParentSPIFFEID e) = Inr d \<and> parse_selectors (EntrySelectors e) = Inr xs \<and> xs \<noteq> []
     \<and> p = \<lparr>pe_Id = EntryID e, pe_SpiffeId = Some w, pe_ParentId = Some d, pe_Selectors = xs,
         pe_X509SvidTtl = EntryX509SVIDTTL e, pe_Hint = EntryHint e\<rparr>)"
  by (auto simp: toProtoEntry_def split: sum.splits)

lemma accepted_format:
  assumes "reg_validateSPIFFEID raw = None" "CHR ''%'' \<notin> set raw" "CHR ''?'' \<notin> set raw"
  shows "\<exists>i. parseSPIFFEID raw = Inr i \<and> formatSPIFFEID (Some i) = raw"
proof -
  from accepted_shape[OF assms(1)] obtain u where u: "url_Parse raw = Some u"
    "raw = ''spiffe://'' @ escape (u_host u) EncHost @ escape (u_path u) EncPath
       @ (if u_force_query u then ''?'' else [])" by blast
  with assms have "CHR ''%'' \<notin> set (escape (u_host u) EncHost)"
    "CHR ''%'' \<notin> set (escape (u_path u) EncPath)" "\<not> u_force_query u"
    by (auto split: if_splits)
  then have "formatSPIFFEID (Some \<lparr>TrustDomain = u_host u, Path = u_path u\<rparr>) = raw"
    using u(2) escape_no_percent[of EncHost "u_host u"] escape_no_percent[of EncPath "u_path u"]
    by (simp add: formatSPIFFEID_def)
  with accepted_parseSPIFFEID[OF assms(1) u(1)] show ?thesis by blast
qed

lemma accepted_parses:
  assumes "reg_validateSPIFFEID raw = None"
  shows "\<exists>i. parseSPIFFEID raw = Inr i"
  using accepted_parse[OF assms] accepted_parseSPIFFEID[OF assms] by metis

lemma selector_ok_parses: "selector_ok raw \<Longrightarrow> \<exists>x. parseSelector raw = Inr x"
  by (auto simp: selector_ok_def parseSelector_def)

lemma accepted_selectors_parse:
  assumes "validateDesiredFields desired sels parent ttl = None"
  shows "\<exists>xs. parse_selectors sels = Inr xs \<and> xs \<noteq> []" "reg_validateSPIFFEID parent = None"
proof -
  from assms have s: "check_selectors [] sels = None" "sels \<noteq> []" and p: "reg_validateSPIFFEID parent = None"
    by (auto simp: validateDesiredFields_def split: if_splits option.splits)
  from p show "reg_validateSPIFFEID parent = None" .
  from s(1) have "\<And>raw. raw \<in> set sels \<Longrightarrow> \<exists>x. parseSelector raw = Inr x"
    using selector_ok_parses by (auto simp: check_selectors_None)
  then obtain xs where "parse_selectors sels = Inr xs" using parse_selectors_ok by blast
  with parse_selectors_Inr[OF this] s(2) show "\<exists>xs. parse_selectors sels = Inr xs \<and> xs \<noteq> []" by auto
qed

lemma toProtoEntry_Inl: "toProtoEntry e = Inl d \<Longrightarrow> d \<noteq> SpireNotFound"
  by (auto simp: toProtoEntry_def split: sum.splits if_splits dest!: parse_selectors_Inl)

lemma single_result_iff:
  "single_result invalid results w = (r, w') \<longleftrightarrow> w' = w
     \<and> r = (if \<exists>c q. results = [\<lparr>er_Status = Some c, er_Entry = Some q\<rparr>]
            then Inr (the (er_Status (hd results)), the (er_Entry (hd results))) else Inl invalid)"
proof (cases "\<exists>c q. results = [\<lparr>er_Status = Some c, er_Entry = Some q\<rparr>]")
  case True
  then show ?thesis by (auto simp: single_result_def)
next
  case False
  have "single_result invalid results w = (Inl invalid, w)"
  proof (cases "\<exists>st en. results = [\<lparr>er_Status = st, er_Entry = en\<rparr>]")
    case True
    then obtain st en where "results = [\<lparr>er_Status = st, er_Entry = en\<rparr>]" by blast
    with False show ?thesis by (cases st; cases en) (simp_all add: single_result_def throws_def)
  next
    case no: False
    have "\<not> (\<exists>r. results = [r])" using no by (metis entry_result.surjective old.unit.exhaust)
    then show ?thesis by (auto simp: single_result_def throws_def split: list.split)
  qed
  with False show ?thesis by auto
qed

section \<open>An example service\<close>

text \<open>
  A service that holds one entry: it answers a read or an update of it, and a create with the
  entry it holds when it has the same ID, parent and selectors. An update or a delete of another
  ID is answered with the status of a missing entry and no entry.
\<close>

definition one_entry_api :: "proto_entry option entry_api" where
  "one_entry_api = \<lparr>
     api_GetEntry = (\<lambda>i m w. case w of
         Some e \<Rightarrow> (if pe_Id e = i then Inr e else Inl (RpcStatus 5), w) | None \<Rightarrow> (Inl (RpcStatus 5), w)),
     api_BatchCreateEntry = (\<lambda>es m w. case (es, w) of
         ([e], None) \<Rightarrow> (Inr [\<lparr>er_Status = Some 0, er_Entry = Some (e\<lparr>pe_Id := ''e1''\<rparr>)\<rparr>], Some (e\<lparr>pe_Id := ''e1''\<rparr>))
       | ([e], Some h) \<Rightarrow>
           (if pe_SpiffeId e = pe_SpiffeId h \<and> pe_ParentId e = pe_ParentId h \<and> pe_Selectors e = pe_Selectors h
            then Inr [\<lparr>er_Status = Some 6, er_Entry = Some h\<rparr>]
            else Inr [\<lparr>er_Status = Some 8, er_Entry = None\<rparr>], w)
       | _ \<Rightarrow> (Inl (RpcStatus 3), w)),
     api_BatchUpdateEntry = (\<lambda>es im om w. case (es, w) of
         ([e], Some h) \<Rightarrow>
           (if pe_Id e = pe_Id h then (Inr [\<lparr>er_Status = Some 0, er_Entry = Some e\<rparr>], Some e)
            else (Inr [\<lparr>er_Status = Some 5, er_Entry = None\<rparr>], w))
       | _ \<Rightarrow> (Inr [\<lparr>er_Status = Some 5, er_Entry = None\<rparr>], w)),
     api_BatchDeleteEntry = (\<lambda>is w. case (is, w) of
         ([i], Some h) \<Rightarrow> if pe_Id h = i then (Inr [Some 0], None) else (Inr [Some 5], w)
       | _ \<Rightarrow> (Inr [Some 5], w))\<rparr>"

definition example_entry :: Entry where
  "example_entry = \<lparr>EntryID = ''e1'', EntrySPIFFEID = ''spiffe://td.example/api'',
     EntryParentSPIFFEID = ''spiffe://td.example/node'', EntrySelectors = [''unix:uid:1000''],
     EntryX509SVIDTTL = 3600, EntryHint = ''wtp-rule:r1''\<rparr>"

section \<open>Properties\<close>



text \<open>
  C32. When the SPIRE client answers \<open>ErrNotFound\<close>: a read, exactly when the call failed with the
  gRPC status NotFound; a delete, exactly when its only result has that status; an update, exactly
  when the entry has an ID and converts, and the only result has that status and also carries an
  entry. An update whose result has the status and no entry is answered with an invalid-result
  error instead.
\<close>

theorem client_not_found:
  "(GetEntry (grpc_client api) i w = (Inl SpireNotFound, w')
       \<longleftrightarrow> api_GetEntry api i fullOutputMask w = (Inl (RpcStatus 5), w'))
   \<and> (DeleteEntry (grpc_client api) i w = (Inl SpireNotFound, w')
       \<longleftrightarrow> api_BatchDeleteEntry api [i] w = (Inr [Some 5], w'))
   \<and> (UpdateEntry (grpc_client api) e w = (Inl SpireNotFound, w')
       \<longleftrightarrow> EntryID e \<noteq> [] \<and> (\<exists>p q. toProtoEntry e = Inr p \<and> api_BatchUpdateEntry api [p] update_input_mask fullOutputMask w
             = (Inr [\<lparr>er_Status = Some 5, er_Entry = Some q\<rparr>], w')))
   \<and> (EntryID e \<noteq> [] \<and> toProtoEntry e = Inr p
         \<and> api_BatchUpdateEntry api [p] update_input_mask fullOutputMask w = (Inr [\<lparr>er_Status = Some 5, er_Entry = None\<rparr>], w')
       \<longrightarrow> UpdateEntry (grpc_client api) e w = (Inl UpdateInvalidResult, w'))"
proof (intro conjI)
  show "GetEntry (grpc_client api) i w = (Inl SpireNotFound, w')
       \<longleftrightarrow> api_GetEntry api i fullOutputMask w = (Inl (RpcStatus 5), w')"
    by (cases "api_GetEntry api i fullOutputMask w"; cases "fst (api_GetEntry api i fullOutputMask w)")
      (auto simp: grpc_client_def grpc_GetEntry_def action_defs status_Code_iff codes_NotFound_def)
  show "DeleteEntry (grpc_client api) i w = (Inl SpireNotFound, w')
       \<longleftrightarrow> api_BatchDeleteEntry api [i] w = (Inr [Some 5], w')"
    by (cases "api_BatchDeleteEntry api [i] w"; cases "fst (api_BatchDeleteEntry api [i] w)")
      (auto simp: grpc_client_def grpc_DeleteEntry_def action_defs codes_NotFound_def codes_OK_def
        split: list.split option.split)
  show "UpdateEntry (grpc_client api) e w = (Inl SpireNotFound, w')
       \<longleftrightarrow> EntryID e \<noteq> [] \<and> (\<exists>p q. toProtoEntry e = Inr p \<and> api_BatchUpdateEntry api [p] update_input_mask fullOutputMask w
             = (Inr [\<lparr>er_Status = Some 5, er_Entry = Some q\<rparr>], w'))"
  proof (cases "toProtoEntry e")
    case (Inl d)
    then show ?thesis using toProtoEntry_Inl[OF Inl] by (simp add: grpc_client_def grpc_UpdateEntry_def)
  next
    case (Inr p)
    then show ?thesis
      by (cases "api_BatchUpdateEntry api [p] update_input_mask fullOutputMask w";
          cases "fst (api_BatchUpdateEntry api [p] update_input_mask fullOutputMask w)")
        (auto simp: grpc_client_def grpc_UpdateEntry_def action_defs codes_NotFound_def codes_OK_def
          split: sum.split prod.split if_split simp: single_result_iff)
  qed
  show "EntryID e \<noteq> [] \<and> toProtoEntry e = Inr p
         \<and> api_BatchUpdateEntry api [p] update_input_mask fullOutputMask w = (Inr [\<lparr>er_Status = Some 5, er_Entry = None\<rparr>], w')
       \<longrightarrow> UpdateEntry (grpc_client api) e w = (Inl UpdateInvalidResult, w')"
    by (auto simp: grpc_client_def grpc_UpdateEntry_def single_result_def action_Inl)
qed

theorem client_not_found_witness:
  "UpdateEntry (grpc_client one_entry_api) example_entry None = (Inl UpdateInvalidResult, None)
   \<and> GetEntry (grpc_client one_entry_api) ''e1'' None = (Inl SpireNotFound, None)"
proof -
  obtain p where p: "toProtoEntry example_entry = Inr p"
  proof -
    have "\<not> isl (toProtoEntry example_entry)" by code_simp
    with that show thesis by (cases "toProtoEntry example_entry") auto
  qed
  have "EntryID example_entry \<noteq> []" by (simp add: example_entry_def)
  with p client_not_found[of one_entry_api "''e1''" None None example_entry p] show ?thesis
    by (simp add: one_entry_api_def)
qed

end
