(* ===== verification/Reconcile.thy ===== *)
theory Reconcile
  imports SpireMgmt
begin

text \<open>
  \<open>internal/reconcile/service.go\<close>: one pass of the reconciler over the registration rules. The
  service works over three interfaces, the rule store, the SPIRE client and the audit appender,
  and the random source its correlation IDs come from; they act on any world \<open>'w\<close>.

  Every method is an action on that world. \<open>on_result\<close> is a call whose error the code inspects.
\<close>

section \<open>The service\<close>

record 'w rule_store =
  store_List :: "('w, store_error, Rule list) action"
  store_MarkConverged :: "string \<Rightarrow> string option \<Rightarrow> ('w, store_error, unit) action"
  store_MarkError :: "string \<Rightarrow> string \<Rightarrow> ('w, store_error, unit) action"

record 'w Service =
  svc_rules :: "'w rule_store"
  svc_spire :: "'w spire_client"
  svc_audit :: "Event \<Rightarrow> ('w, audit_error, Event) action"
  svc_random :: "('w, unit, string) action"

record Summary =
  Total :: int
  Converged :: int
  Changed :: int
  Failed :: int

datatype rec_error = ParentRequired | TTLUnsupported | SelectorRequired | DesiredStateUnsupported string
  | NotOwned | SpireError spire_error | StoreError store_error | AuditError audit_error
  | Joined rec_error rec_error

datatype run_error = ListFailed store_error | RulesFailed "(string \<times> rec_error) list"

definition ownerHintPrefix :: string where "ownerHintPrefix = ''wtp-rule:''"

text \<open>\<open>New\<close> refuses a missing dependency.\<close>

definition reconcile_New :: "('w, unit, string) action \<Rightarrow> 'w rule_store option \<Rightarrow> 'w spire_client option
    \<Rightarrow> (Event \<Rightarrow> ('w, audit_error, Event) action) option \<Rightarrow> unit + 'w Service" where
  "reconcile_New random rules spire appender =
     (case (rules, spire, appender) of
        (Some r, Some c, Some a) \<Rightarrow> Inr \<lparr>svc_rules = r, svc_spire = c, svc_audit = a, svc_random = random\<rparr>
      | _ \<Rightarrow> Inl ())"

section \<open>Entries\<close>

definition desiredEntry :: "Rule \<Rightarrow> rec_error + Entry" where
  "desiredEntry rule =
     (case ParentSPIFFEID rule of
        None \<Rightarrow> Inl ParentRequired
      | Some parent \<Rightarrow>
          if parent = [] then Inl ParentRequired
          else if X509SVIDTTLSeconds rule < 60 \<or> X509SVIDTTLSeconds rule > 86400 then Inl TTLUnsupported
          else if Selectors rule = [] then Inl SelectorRequired
          else Inr \<lparr>EntryID = [], EntrySPIFFEID = WorkloadSPIFFEID rule, EntryParentSPIFFEID = parent,
            EntrySelectors = Selectors rule, EntryX509SVIDTTL = X509SVIDTTLSeconds rule,
            EntryHint = ownerHintPrefix @ RuleID rule\<rparr>)"

definition desiredWithoutID :: "Entry \<Rightarrow> Entry" where
  "desiredWithoutID entry = entry\<lparr>EntryID := []\<rparr>"

definition ownedByRule :: "Entry \<Rightarrow> string \<Rightarrow> bool" where
  "ownedByRule entry ruleID \<longleftrightarrow> EntryHint entry = ownerHintPrefix @ ruleID"

text \<open>\<open>sort.Strings\<close> orders strings by their bytes; the loop compares the copies index by index.\<close>

fun same_strings :: "string list \<Rightarrow> string list \<Rightarrow> bool" where
  "same_strings (l # left) (r # right) = (if l \<noteq> r then False else same_strings left right)"
| "same_strings _ _ = True"

definition entriesEquivalent :: "Entry \<Rightarrow> Entry \<Rightarrow> bool" where
  "entriesEquivalent actual desired =
     (if EntrySPIFFEID actual \<noteq> EntrySPIFFEID desired \<or> EntryParentSPIFFEID actual \<noteq> EntryParentSPIFFEID desired
        \<or> EntryX509SVIDTTL actual \<noteq> EntryX509SVIDTTL desired \<or> EntryHint actual \<noteq> EntryHint desired then False
      else (let left = sort (EntrySelectors actual); right = sort (EntrySelectors desired) in
        if length left \<noteq> length right then False else same_strings left right))"

section \<open>Recording\<close>

definition newCorrelationID :: "'w Service \<Rightarrow> 'w \<Rightarrow> string \<times> 'w" where
  "newCorrelationID svc w =
     (case svc_random svc w of
        (Inl _, w') \<Rightarrow> (''reconcile-correlation-unavailable'', w')
      | (Inr bytes, w') \<Rightarrow> (hex_EncodeToString bytes, w'))"

definition reconcile_metadata :: "string \<Rightarrow> string \<Rightarrow> json" where
  "reconcile_metadata operation entryID =
     json_map ([(''operation'', JStr operation)]
       @ (if entryID \<noteq> [] then [(''spire_entry_id'', JStr entryID)] else []))"

definition reconcile_event :: "Rule \<Rightarrow> string \<Rightarrow> string \<Rightarrow> string \<Rightarrow> Event" where
  "reconcile_event rule correlationID operation entryID =
     \<lparr>EventID = [], EventOrganizationID = Some (RuleOrganizationID rule), EventActorType = ''system'',
      EventActorID = ''spire-reconciler'', Action = ''spire.registration_reconcile'',
      TargetType = ''registration_rule'', TargetID = RuleID rule, CorrelationID = correlationID,
      Metadata = Marshal (reconcile_metadata operation entryID), CreatedAt = 0\<rparr>"

definition recordAudit :: "'w Service \<Rightarrow> Rule \<Rightarrow> string \<Rightarrow> string \<Rightarrow> string \<Rightarrow> ('w, rec_error, unit) action" where
  "recordAudit svc rule correlationID operation entryID =
     on_result (svc_audit svc (reconcile_event rule correlationID operation entryID))
       (\<lambda>e. throws (AuditError e)) (\<lambda>_. returns ())"

definition failRule :: "'w Service \<Rightarrow> Rule \<Rightarrow> string \<Rightarrow> rec_error \<Rightarrow> ('w, rec_error, 'a) action" where
  "failRule svc rule code cause =
     on_result (store_MarkError (svc_rules svc) (RuleID rule) code)
       (\<lambda>e. throws (Joined cause (StoreError e))) (\<lambda>_. throws cause)"

definition conflict :: "'w Service \<Rightarrow> Rule \<Rightarrow> string \<Rightarrow> string \<Rightarrow> ('w, rec_error, 'a) action" where
  "conflict svc rule entryID correlationID =
     on_result (recordAudit svc rule correlationID ''ownership_conflict'' entryID)
       throws (\<lambda>_. failRule svc rule ''ownership_mismatch'' NotOwned)"

definition markConverged :: "'w Service \<Rightarrow> Rule \<Rightarrow> string option \<Rightarrow> bool \<Rightarrow> ('w, rec_error, bool) action" where
  "markConverged svc rule entry changed =
     on_result (store_MarkConverged (svc_rules svc) (RuleID rule) entry)
       (\<lambda>e. throws (StoreError e)) (\<lambda>_. returns changed)"

text \<open>The two calls that end every success: the audit event, then the mark.\<close>

definition record_and_mark ::
    "'w Service \<Rightarrow> Rule \<Rightarrow> string \<Rightarrow> string \<Rightarrow> string \<Rightarrow> string option \<Rightarrow> bool \<Rightarrow> ('w, rec_error, bool) action" where
  "record_and_mark svc rule correlationID operation entryID entry changed =
     on_result (recordAudit svc rule correlationID operation entryID)
       throws (\<lambda>_. markConverged svc rule entry changed)"

section \<open>Reconciling a rule\<close>

definition createOrBind :: "'w Service \<Rightarrow> Rule \<Rightarrow> Entry \<Rightarrow> string \<Rightarrow> ('w, rec_error, bool) action" where
  "createOrBind svc rule desired correlationID =
     on_result (CreateEntry (svc_spire svc) desired)
       (\<lambda>e. failRule svc rule ''spire_create_failed'' (SpireError e))
       (\<lambda>result. if \<not> ownedByRule (sc_Entry result) (RuleID rule)
         then conflict svc rule (EntryID (sc_Entry result)) correlationID
         else if sc_Disposition result = CreateDispositionExisting
         then (let desired' = desired\<lparr>EntryID := EntryID (sc_Entry result)\<rparr> in
           if entriesEquivalent (sc_Entry result) desired'
           then record_and_mark svc rule correlationID ''bind_owned_existing'' (EntryID (sc_Entry result))
             (Some (EntryID (sc_Entry result))) False
           else on_result (UpdateEntry (svc_spire svc) desired')
             (\<lambda>e. if e = SpireNotFound then failRule svc rule ''spire_update_race'' (SpireError e)
               else failRule svc rule ''spire_update_failed'' (SpireError e))
             (\<lambda>updated. if \<not> ownedByRule updated (RuleID rule) then conflict svc rule (EntryID updated) correlationID
               else record_and_mark svc rule correlationID ''update_owned_existing'' (EntryID updated)
                 (Some (EntryID updated)) True))
         else record_and_mark svc rule correlationID ''create'' (EntryID (sc_Entry result))
           (Some (EntryID (sc_Entry result))) True)"

definition reconcilePresent :: "'w Service \<Rightarrow> Rule \<Rightarrow> string \<Rightarrow> ('w, rec_error, bool) action" where
  "reconcilePresent svc rule correlationID =
     (case desiredEntry rule of
        Inl e \<Rightarrow> failRule svc rule ''invalid_desired_state'' e
      | Inr desired \<Rightarrow>
          (case SPIREEntryID rule of
             None \<Rightarrow> createOrBind svc rule desired correlationID
           | Some entryID \<Rightarrow>
               on_result (GetEntry (svc_spire svc) entryID)
                 (\<lambda>e. if e = SpireNotFound then createOrBind svc rule desired correlationID
                   else failRule svc rule ''spire_unavailable'' (SpireError e))
                 (\<lambda>actual. if \<not> ownedByRule actual (RuleID rule) then conflict svc rule (EntryID actual) correlationID
                   else (let desired' = desired\<lparr>EntryID := EntryID actual\<rparr> in
                     if entriesEquivalent actual desired'
                     then (if ReconcileStatus rule \<noteq> ''converged''
                       then record_and_mark svc rule correlationID ''bind_owned_existing'' (EntryID actual)
                         (Some (EntryID actual)) False
                       else returns False)
                     else on_result (UpdateEntry (svc_spire svc) desired')
                       (\<lambda>e. if e = SpireNotFound then createOrBind svc rule (desiredWithoutID desired') correlationID
                         else failRule svc rule ''spire_update_failed'' (SpireError e))
                       (\<lambda>updated. if \<not> ownedByRule updated (RuleID rule)
                         then conflict svc rule (EntryID updated) correlationID
                         else record_and_mark svc rule correlationID ''update'' (EntryID updated)
                           (Some (EntryID updated)) True)))))"

definition reconcileAbsent :: "'w Service \<Rightarrow> Rule \<Rightarrow> string \<Rightarrow> ('w, rec_error, bool) action" where
  "reconcileAbsent svc rule correlationID =
     (case SPIREEntryID rule of
        None \<Rightarrow>
          (if ReconcileStatus rule \<noteq> ''converged''
           then record_and_mark svc rule correlationID ''absent_noop'' [] None False
           else returns False)
      | Some entryID \<Rightarrow>
          on_result (GetEntry (svc_spire svc) entryID)
            (\<lambda>e. if e = SpireNotFound
              then record_and_mark svc rule correlationID ''clear_stale_binding'' entryID None False
              else failRule svc rule ''spire_unavailable'' (SpireError e))
            (\<lambda>actual. if \<not> ownedByRule actual (RuleID rule) then conflict svc rule (EntryID actual) correlationID
              else on_result (DeleteEntry (svc_spire svc) (EntryID actual))
                (\<lambda>e. if e \<noteq> SpireNotFound then failRule svc rule ''spire_delete_failed'' (SpireError e)
                  else record_and_mark svc rule correlationID ''delete'' (EntryID actual) None True)
                (\<lambda>_. record_and_mark svc rule correlationID ''delete'' (EntryID actual) None True)))"

definition reconcileRule :: "'w Service \<Rightarrow> Rule \<Rightarrow> string \<Rightarrow> ('w, rec_error, bool) action" where
  "reconcileRule svc rule correlationID =
     (if DesiredState rule = ''present'' then reconcilePresent svc rule correlationID
      else if DesiredState rule = ''absent'' then reconcileAbsent svc rule correlationID
      else failRule svc rule ''invalid_desired_state'' (DesiredStateUnsupported (DesiredState rule)))"

section \<open>A pass\<close>

text \<open>The loop over the rules: a failure is counted and recorded, and the loop goes on.\<close>

fun run_rules :: "'w Service \<Rightarrow> string \<Rightarrow> Rule list \<Rightarrow> Summary \<times> (string \<times> rec_error) list \<Rightarrow> 'w
    \<Rightarrow> (Summary \<times> (string \<times> rec_error) list) \<times> 'w" where
  "run_rules svc correlationID [] acc w = (acc, w)"
| "run_rules svc correlationID (rule # rest) (summary, errs) w =
     (case reconcileRule svc rule correlationID w of
        (Inl e, w') \<Rightarrow> run_rules svc correlationID rest
          (summary\<lparr>Failed := Failed summary + 1\<rparr>, errs @ [(RuleID rule, e)]) w'
      | (Inr changed, w') \<Rightarrow> run_rules svc correlationID rest
          (summary\<lparr>Converged := Converged summary + 1,
             Changed := Changed summary + (if changed then 1 else 0)\<rparr>, errs) w')"

definition empty_summary :: Summary where
  "empty_summary = \<lparr>Total = 0, Converged = 0, Changed = 0, Failed = 0\<rparr>"

text \<open>\<open>errors.Join\<close> of no error is nil.\<close>

definition Run :: "'w Service \<Rightarrow> 'w \<Rightarrow> (Summary \<times> run_error option) \<times> 'w" where
  "Run svc w =
     (case store_List (svc_rules svc) w of
        (Inl e, w') \<Rightarrow> ((empty_summary, Some (ListFailed e)), w')
      | (Inr rules, w1) \<Rightarrow>
          (case newCorrelationID svc w1 of (correlationID, w2) \<Rightarrow>
          (case run_rules svc correlationID rules (empty_summary\<lparr>Total := int (length rules)\<rparr>, []) w2 of
             ((summary, errs), w3) \<Rightarrow>
               ((summary, if errs = [] then None else Some (RulesFailed errs)), w3))))"

lemmas reconcile_defs = reconcileRule_def reconcilePresent_def reconcileAbsent_def createOrBind_def Let_def
lemmas recording_defs = record_and_mark_def markConverged_def conflict_def failRule_def recordAudit_def

end
