(* ===== verification/Reconcile_Calls.thy ===== *)
theory Reconcile_Calls
  imports Reconcile
begin

text \<open>
  What the reconciler asks of the world. \<open>recording\<close> is a service that does what a given one
  does and notes every call with its answer; \<open>mirrors\<close> says that the notes change nothing.
  \<open>wp\<close> is the weakest precondition of an action over the world and the notes: its rules follow a
  method call by call, for any answers, so that a statement about all runs of the method is
  reduced to one small goal for each path.
\<close>

section \<open>Calls\<close>

datatype call = Listed "store_error + Rule list"
  | Got string "spire_error + Entry"
  | Created Entry "spire_error + spire_create"
  | Updated Entry "spire_error + Entry"
  | Deleted string "spire_error + unit"
  | Audited Event "audit_error + Event"
  | MarkedConverged string "string option" "store_error + unit"
  | MarkedError string string "store_error + unit"
  | Random "unit + string"

definition noting :: "(('e, 'a) result \<Rightarrow> call) \<Rightarrow> ('w, 'e, 'a) action \<Rightarrow> ('w \<times> call list, 'e, 'a) action" where
  "noting c m = (\<lambda>(w, calls). case m w of (r, w') \<Rightarrow> (r, (w', calls @ [c r])))"

definition recording :: "'w Service \<Rightarrow> ('w \<times> call list) Service" where
  "recording svc = \<lparr>
     svc_rules = \<lparr>store_List = noting Listed (store_List (svc_rules svc)),
       store_MarkConverged = (\<lambda>i e. noting (MarkedConverged i e) (store_MarkConverged (svc_rules svc) i e)),
       store_MarkError = (\<lambda>i c. noting (MarkedError i c) (store_MarkError (svc_rules svc) i c))\<rparr>,
     svc_spire = \<lparr>GetEntry = (\<lambda>i. noting (Got i) (GetEntry (svc_spire svc) i)),
       CreateEntry = (\<lambda>e. noting (Created e) (CreateEntry (svc_spire svc) e)),
       UpdateEntry = (\<lambda>e. noting (Updated e) (UpdateEntry (svc_spire svc) e)),
       DeleteEntry = (\<lambda>i. noting (Deleted i) (DeleteEntry (svc_spire svc) i))\<rparr>,
     svc_audit = (\<lambda>ev. noting (Audited ev) (svc_audit svc ev)),
     svc_random = noting Random (svc_random svc)\<rparr>"

lemma recording_sel [simp]:
  "store_List (svc_rules (recording svc)) = noting Listed (store_List (svc_rules svc))"
  "store_MarkConverged (svc_rules (recording svc)) i b = noting (MarkedConverged i b) (store_MarkConverged (svc_rules svc) i b)"
  "store_MarkError (svc_rules (recording svc)) i c = noting (MarkedError i c) (store_MarkError (svc_rules svc) i c)"
  "GetEntry (svc_spire (recording svc)) i = noting (Got i) (GetEntry (svc_spire svc) i)"
  "CreateEntry (svc_spire (recording svc)) e = noting (Created e) (CreateEntry (svc_spire svc) e)"
  "UpdateEntry (svc_spire (recording svc)) e = noting (Updated e) (UpdateEntry (svc_spire svc) e)"
  "DeleteEntry (svc_spire (recording svc)) i = noting (Deleted i) (DeleteEntry (svc_spire svc) i)"
  "svc_audit (recording svc) ev = noting (Audited ev) (svc_audit svc ev)"
  "svc_random (recording svc) = noting Random (svc_random svc)"
  by (simp_all add: recording_def)

section \<open>Recording changes nothing\<close>

definition mirrors :: "('w \<times> call list, 'e, 'a) action \<Rightarrow> ('w, 'e, 'a) action \<Rightarrow> bool" where
  "mirrors m' m \<longleftrightarrow> (\<forall>w calls. \<exists>new. m' (w, calls) = (fst (m w), (snd (m w), calls @ new)))"

lemma mirrors_noting [intro!]: "mirrors (noting c m) m"
  by (auto simp: mirrors_def noting_def split: prod.split)

lemma mirrors_simple [intro!]: "mirrors (returns a) (returns a)" "mirrors (throws e) (throws e)"
  by (auto simp: mirrors_def returns_def throws_def)

lemma mirrors_on_result [intro!]:
  assumes "mirrors m' m" and "\<And>e. mirrors (f' e) (f e)" and "\<And>a. mirrors (k' a) (k a)"
  shows "mirrors (on_result m' f' k') (on_result m f k)"
  unfolding mirrors_def
proof (intro allI)
  fix w calls
  from assms(1) obtain new where m: "m' (w, calls) = (fst (m w), (snd (m w), calls @ new))"
    unfolding mirrors_def by blast
  obtain r w1 where r: "m w = (r, w1)" by fastforce
  show "\<exists>new. on_result m' f' k' (w, calls) = (fst (on_result m f k w), (snd (on_result m f k w), calls @ new))"
  proof (cases r)
    case (Inl e)
    from assms(2)[of e, unfolded mirrors_def] obtain new2
      where "f' e (w1, calls @ new) = (fst (f e w1), (snd (f e w1), (calls @ new) @ new2))" by blast
    then show ?thesis using m r Inl by (auto simp: on_result_def)
  next
    case (Inr a)
    from assms(3)[of a, unfolded mirrors_def] obtain new2
      where "k' a (w1, calls @ new) = (fst (k a w1), (snd (k a w1), (calls @ new) @ new2))" by blast
    then show ?thesis using m r Inr by (auto simp: on_result_def)
  qed
qed

lemma mirrors_if [intro!]: "(b \<Longrightarrow> mirrors m' m) \<Longrightarrow> (\<not> b \<Longrightarrow> mirrors n' n) \<Longrightarrow> mirrors (if b then m' else n') (if b then m else n)"
  by simp

lemma mirrors_option [intro!]:
  "(r = None \<Longrightarrow> mirrors m' m) \<Longrightarrow> (\<And>x. r = Some x \<Longrightarrow> mirrors (k' x) (k x))
     \<Longrightarrow> mirrors (case r of None \<Rightarrow> m' | Some x \<Rightarrow> k' x) (case r of None \<Rightarrow> m | Some x \<Rightarrow> k x)"
  by (cases r) auto

lemma mirrors_sum [intro!]:
  "(\<And>e. r = Inl e \<Longrightarrow> mirrors (f' e) (f e)) \<Longrightarrow> (\<And>x. r = Inr x \<Longrightarrow> mirrors (k' x) (k x))
     \<Longrightarrow> mirrors (case r of Inl e \<Rightarrow> f' e | Inr x \<Rightarrow> k' x) (case r of Inl e \<Rightarrow> f e | Inr x \<Rightarrow> k x)"
  by (cases r) auto

lemma mirrors_recording [intro!]:
  "mirrors (recordAudit (recording svc) rule cid op i) (recordAudit svc rule cid op i)"
  "mirrors (failRule (recording svc) rule code cause) (failRule svc rule code cause)"
  unfolding recordAudit_def failRule_def recording_sel by (rule mirrors_on_result; rule mirrors_noting mirrors_simple)+

lemma mirrors_endings [intro!]:
  "mirrors (conflict (recording svc) rule i cid) (conflict svc rule i cid)"
  "mirrors (record_and_mark (recording svc) rule cid op i b ch) (record_and_mark svc rule cid op i b ch)"
  unfolding conflict_def record_and_mark_def markConverged_def recording_sel by blast+

lemma mirrors_createOrBind [intro!]:
  "mirrors (createOrBind (recording svc) rule d cid) (createOrBind svc rule d cid)"
  unfolding createOrBind_def Let_def recording_sel by blast

lemma mirrors_reconcileRule: "mirrors (reconcileRule (recording svc) rule cid) (reconcileRule svc rule cid)"
  unfolding reconcileRule_def reconcilePresent_def reconcileAbsent_def Let_def recording_sel by blast

lemma recording_run:
  assumes "reconcileRule svc rule cid w = (r, w')"
  obtains new where "reconcileRule (recording svc) rule cid (w, calls) = (r, (w', calls @ new))"
  using mirrors_reconcileRule[of svc rule cid] assms unfolding mirrors_def by (metis fst_conv snd_conv)

section \<open>Weakest preconditions\<close>

definition wp :: "('w \<times> call list, 'e, 'a) action \<Rightarrow> (('e, 'a) result \<Rightarrow> call list \<Rightarrow> bool) \<Rightarrow> call list \<Rightarrow> bool" where
  "wp m Q calls \<longleftrightarrow> (\<forall>w. case m (w, calls) of (r, (w', calls')) \<Rightarrow> Q r calls')"

lemma wpD: "wp m Q calls \<Longrightarrow> m (w, calls) = (r, (w', calls')) \<Longrightarrow> Q r calls'"
  unfolding wp_def by (metis (no_types, lifting) case_prod_conv)

lemma wp_simple [simp]: "wp (returns a) Q calls = Q (Inr a) calls" "wp (throws e) Q calls = Q (Inl e) calls"
  by (simp_all add: wp_def returns_def throws_def)

lemma wp_noting:
  assumes "\<And>e. wp (f e) Q (calls @ [c (Inl e)])" and "\<And>a. wp (k a) Q (calls @ [c (Inr a)])"
  shows "wp (on_result (noting c m) f k) Q calls"
  unfolding wp_def
proof
  fix w
  obtain r w1 where r: "m w = (r, w1)" by fastforce
  show "case on_result (noting c m) f k (w, calls) of (r, w', calls') \<Rightarrow> Q r calls'"
    using r assms unfolding wp_def on_result_def noting_def by (cases r) auto
qed

text \<open>
  An action that ends in another one's error: the rule for \<open>recordAudit\<close>, which is a call of its
  own.
\<close>

lemma wp_recordAudit:
  assumes "\<And>e. wp (f (AuditError e)) Q (calls @ [Audited (reconcile_event rule cid op i) (Inl e)])"
    and "\<And>ev. wp (k ()) Q (calls @ [Audited (reconcile_event rule cid op i) (Inr ev)])"
  shows "wp (on_result (recordAudit (recording svc) rule cid op i) f k) Q calls"
proof -
  have "on_result (recordAudit (recording svc) rule cid op i) f k
      = on_result (noting (Audited (reconcile_event rule cid op i)) (svc_audit svc (reconcile_event rule cid op i)))
          (\<lambda>e. f (AuditError e)) (\<lambda>_. k ())"
    by (simp add: recordAudit_def fun_eq_iff on_result_def throws_def returns_def split: prod.split sum.split)
  then show ?thesis using wp_noting assms by metis
qed

lemma wp_failRule:
  assumes "\<And>e. Q (Inl (Joined cause (StoreError e))) (calls @ [MarkedError (RuleID rule) code (Inl e)])"
    and "Q (Inl cause) (calls @ [MarkedError (RuleID rule) code (Inr ())])"
  shows "wp (failRule (recording svc) rule code cause) Q calls"
  unfolding failRule_def recording_sel by (rule wp_noting) (simp_all add: assms)

lemma wp_conflict:
  assumes "\<And>e. Q (Inl (AuditError e)) (calls @ [Audited (reconcile_event rule cid ''ownership_conflict'' i) (Inl e)])"
    and "\<And>ev e. Q (Inl (Joined NotOwned (StoreError e)))
      (calls @ [Audited (reconcile_event rule cid ''ownership_conflict'' i) (Inr ev), MarkedError (RuleID rule) ''ownership_mismatch'' (Inl e)])"
    and "\<And>ev. Q (Inl NotOwned)
      (calls @ [Audited (reconcile_event rule cid ''ownership_conflict'' i) (Inr ev), MarkedError (RuleID rule) ''ownership_mismatch'' (Inr ())])"
  shows "wp (conflict (recording svc) rule i cid) Q calls"
  unfolding conflict_def by (rule wp_recordAudit; (rule wp_failRule)?) (simp_all add: assms)

lemma wp_record_and_mark:
  assumes "\<And>e. Q (Inl (AuditError e)) (calls @ [Audited (reconcile_event rule cid op i) (Inl e)])"
    and "\<And>ev e. Q (Inl (StoreError e))
      (calls @ [Audited (reconcile_event rule cid op i) (Inr ev), MarkedConverged (RuleID rule) b (Inl e)])"
    and "\<And>ev. Q (Inr ch)
      (calls @ [Audited (reconcile_event rule cid op i) (Inr ev), MarkedConverged (RuleID rule) b (Inr ())])"
  shows "wp (record_and_mark (recording svc) rule cid op i b ch) Q calls"
  unfolding record_and_mark_def markConverged_def recording_sel
  by (rule wp_recordAudit; (rule wp_noting)?) (simp_all add: assms)

lemma wp_if: "(b \<Longrightarrow> wp m Q calls) \<Longrightarrow> (\<not> b \<Longrightarrow> wp n Q calls) \<Longrightarrow> wp (if b then m else n) Q calls"
  by simp

lemmas [wp_rules] = wp_noting wp_if

end
