(* ===== verification/Reconcile_Safety.thy ===== *)
theory Reconcile_Safety
  imports Reconcile_Calls
begin

text \<open>
  What every run of the reconciler on one rule does, whatever the world answers: \<open>ok_calls\<close> is
  the discipline each call keeps, given the calls and answers before it, and \<open>outcome\<close> what the
  result says of the calls made. Both are followed along \<open>createOrBind\<close>, \<open>reconcilePresent\<close> and
  \<open>reconcileAbsent\<close> with the rules of \<open>wp\<close>.
\<close>

section \<open>The discipline\<close>

fun answered_entry :: "call \<Rightarrow> Entry option" where
  "answered_entry (Got i (Inr a)) = Some a"
| "answered_entry (Created e (Inr r)) = Some (sc_Entry r)"
| "answered_entry (Updated e (Inr u)) = Some u"
| "answered_entry c = None"

text \<open>An answer has shown that the entry with that ID belongs to the rule.\<close>

definition shown_owned :: "string \<Rightarrow> string \<Rightarrow> call list \<Rightarrow> bool" where
  "shown_owned ruleID i calls \<longleftrightarrow> list_ex (\<lambda>c. case answered_entry c of
      None \<Rightarrow> False | Some a \<Rightarrow> EntryHint a = ''wtp-rule:'' @ ruleID \<and> EntryID a = i) calls"

definition audited :: "Rule \<Rightarrow> string \<Rightarrow> call list \<Rightarrow> bool" where
  "audited rule cid calls \<longleftrightarrow> calls \<noteq> []
     \<and> (\<exists>operation i ev. last calls = Audited (reconcile_event rule cid operation i) (Inr ev))"

fun ok_call :: "Rule \<Rightarrow> string \<Rightarrow> call list \<Rightarrow> call \<Rightarrow> bool" where
  "ok_call rule cid calls (Created e r) \<longleftrightarrow> DesiredState rule = ''present'' \<and> EntryID e = []
     \<and> EntryHint e = ''wtp-rule:'' @ RuleID rule \<and> EntrySPIFFEID e = WorkloadSPIFFEID rule"
| "ok_call rule cid calls (Updated e r) \<longleftrightarrow> DesiredState rule = ''present'' \<and> shown_owned (RuleID rule) (EntryID e) calls
     \<and> EntryHint e = ''wtp-rule:'' @ RuleID rule \<and> EntrySPIFFEID e = WorkloadSPIFFEID rule"
| "ok_call rule cid calls (Deleted i r) \<longleftrightarrow> DesiredState rule = ''absent'' \<and> shown_owned (RuleID rule) i calls"
| "ok_call rule cid calls (MarkedConverged i b r) \<longleftrightarrow> i = RuleID rule \<and> audited rule cid calls
     \<and> (case b of None \<Rightarrow> DesiredState rule = ''absent''
        | Some e \<Rightarrow> DesiredState rule = ''present'' \<and> shown_owned (RuleID rule) e calls)"
| "ok_call rule cid calls (MarkedError i code r) \<longleftrightarrow> i = RuleID rule"
| "ok_call rule cid calls (Audited ev r) \<longleftrightarrow> (\<exists>operation i. ev = reconcile_event rule cid operation i)"
| "ok_call rule cid calls (Got i r) \<longleftrightarrow> True"
| "ok_call rule cid calls (Listed r) \<longleftrightarrow> False"
| "ok_call rule cid calls (Random r) \<longleftrightarrow> False"

definition ok_calls :: "Rule \<Rightarrow> string \<Rightarrow> call list \<Rightarrow> bool" where
  "ok_calls rule cid calls \<longleftrightarrow> (\<forall>pre c post. calls = pre @ c # post \<longrightarrow> ok_call rule cid pre c)"

lemma ok_calls_Nil [simp]: "ok_calls rule cid []"
  by (simp add: ok_calls_def)

lemma ok_calls_snoc: "ok_calls rule cid (calls @ [c]) \<longleftrightarrow> ok_calls rule cid calls \<and> ok_call rule cid calls c"
proof
  assume a: "ok_calls rule cid (calls @ [c])"
  then have "ok_call rule cid calls c" unfolding ok_calls_def by simp
  moreover have "ok_call rule cid pre d" if "calls = pre @ d # post" for pre d post
    using a that unfolding ok_calls_def by simp
  ultimately show "ok_calls rule cid calls \<and> ok_call rule cid calls c" by (simp add: ok_calls_def)
next
  assume a: "ok_calls rule cid calls \<and> ok_call rule cid calls c"
  show "ok_calls rule cid (calls @ [c])"
    unfolding ok_calls_def
  proof (intro allI impI)
    fix pre d post
    assume "calls @ [c] = pre @ d # post"
    then show "ok_call rule cid pre d"
      using a unfolding ok_calls_def by (cases post rule: rev_cases) auto
  qed
qed

lemma ok_calls_snoc2:
  "ok_calls rule cid (calls @ [c, d]) \<longleftrightarrow>
     ok_calls rule cid calls \<and> ok_call rule cid calls c \<and> ok_call rule cid (calls @ [c]) d"
  using ok_calls_snoc[of rule cid "calls @ [c]" d] ok_calls_snoc[of rule cid calls c] by simp

lemma ok_calls_short:
  "ok_calls rule cid [c] \<longleftrightarrow> ok_call rule cid [] c"
  "ok_calls rule cid [c, d] \<longleftrightarrow> ok_call rule cid [] c \<and> ok_call rule cid [c] d"
  using ok_calls_snoc[of rule cid "[]" c] ok_calls_snoc2[of rule cid "[]" c d] by simp_all

lemma shown_owned_append: "shown_owned r i (xs @ ys) \<longleftrightarrow> shown_owned r i xs \<or> shown_owned r i ys"
  by (simp add: shown_owned_def)

lemma shown_owned_Cons:
  "shown_owned r i [] \<longleftrightarrow> False"
  "shown_owned r i (c # cs) \<longleftrightarrow> (\<exists>a. answered_entry c = Some a
     \<and> EntryHint a = ''wtp-rule:'' @ r \<and> EntryID a = i) \<or> shown_owned r i cs"
  by (simp_all add: shown_owned_def split: option.split)

lemma audited_snoc: "audited rule cid (calls @ [c]) \<longleftrightarrow> (\<exists>operation i ev. c = Audited (reconcile_event rule cid operation i) (Inr ev))"
  by (simp add: audited_def)

section \<open>The outcome\<close>

text \<open>A call that is known to have changed SPIRE, or to have found the deletion done.\<close>

fun mutated :: "call \<Rightarrow> bool" where
  "mutated (Created e (Inr r)) \<longleftrightarrow> sc_Disposition r = CreateDispositionCreated"
| "mutated (Updated e (Inr u)) \<longleftrightarrow> True"
| "mutated (Deleted i r) \<longleftrightarrow> True"
| "mutated c \<longleftrightarrow> False"

fun is_lookup :: "call \<Rightarrow> bool" where
  "is_lookup (Got i r) \<longleftrightarrow> True"
| "is_lookup c \<longleftrightarrow> False"

fun ends_failed :: "Rule \<Rightarrow> call \<Rightarrow> bool" where
  "ends_failed rule (MarkedError i code r) \<longleftrightarrow> i = RuleID rule"
| "ends_failed rule (Audited ev (Inl e)) \<longleftrightarrow> True"
| "ends_failed rule (MarkedConverged i b (Inl e)) \<longleftrightarrow> i = RuleID rule"
| "ends_failed rule c \<longleftrightarrow> False"

definition outcome :: "Rule \<Rightarrow> rec_error + bool \<Rightarrow> call list \<Rightarrow> bool" where
  "outcome rule r calls \<longleftrightarrow> (case r of
      Inl e \<Rightarrow> calls \<noteq> [] \<and> ends_failed rule (last calls)
    | Inr changed \<Rightarrow> (changed \<longleftrightarrow> list_ex mutated calls)
        \<and> (calls \<noteq> [] \<and> (\<exists>b. last calls = MarkedConverged (RuleID rule) b (Inr ()))
           \<or> ReconcileStatus rule = ''converged'' \<and> list_all is_lookup calls))"

definition disciplined :: "Rule \<Rightarrow> string \<Rightarrow> rec_error + bool \<Rightarrow> call list \<Rightarrow> bool" where
  "disciplined rule cid r calls \<longleftrightarrow> ok_calls rule cid calls \<and> outcome rule r calls"

lemmas discipline_simps = disciplined_def outcome_def ok_calls_snoc ok_calls_snoc2 ok_calls_short shown_owned_append shown_owned_Cons
  audited_snoc ownedByRule_def ownerHintPrefix_def

lemma disciplined_endings:
  assumes "ok_calls rule cid calls"
  shows "disciplined rule cid (Inl e) (calls @ [MarkedError (RuleID rule) code x])"
    and "disciplined rule cid (Inl e) (calls @ [Audited (reconcile_event rule cid op i) (Inl y)])"
    and "disciplined rule cid (Inl e) (calls @ [Audited (reconcile_event rule cid op i) (Inr ev), MarkedError (RuleID rule) code x])"
  using assms by (auto simp: discipline_simps)

lemma wp_failRule_ok: "ok_calls rule cid calls \<Longrightarrow> wp (failRule (recording svc) rule code cause) (disciplined rule cid) calls"
  by (rule wp_failRule) (rule disciplined_endings, assumption)+

lemma wp_conflict_ok: "ok_calls rule cid calls \<Longrightarrow> wp (conflict (recording svc) rule i cid) (disciplined rule cid) calls"
  by (rule wp_conflict) (rule disciplined_endings, assumption)+

lemma wp_record_and_mark_ok:
  assumes "ok_calls rule cid calls" "changed \<longleftrightarrow> list_ex mutated calls"
    and "case b of None \<Rightarrow> DesiredState rule = ''absent''
        | Some e \<Rightarrow> DesiredState rule = ''present'' \<and> shown_owned (RuleID rule) e calls"
  shows "wp (record_and_mark (recording svc) rule cid op i b changed) (disciplined rule cid) calls"
  by (rule wp_record_and_mark) (use assms in \<open>auto simp: discipline_simps split: option.splits\<close>)

lemmas wp_ok = wp_failRule_ok wp_conflict_ok wp_record_and_mark_ok

lemma wp_createOrBind:
  assumes "ok_calls rule cid calls" "\<not> list_ex mutated calls" "DesiredState rule = ''present''"
    and "EntryHint desired = ''wtp-rule:'' @ RuleID rule" "EntryID desired = []" "EntrySPIFFEID desired = WorkloadSPIFFEID rule"
  shows "wp (createOrBind (recording svc) rule desired cid) (disciplined rule cid) calls"
  unfolding createOrBind_def Let_def recording_sel
  by (intro wp_rules wp_ok) (use assms in \<open>auto simp: discipline_simps intro: CreateDisposition.exhaust\<close>)

lemma desiredEntry_fields:
  "desiredEntry rule = Inr d \<Longrightarrow> EntryHint d = ''wtp-rule:'' @ RuleID rule \<and> EntryID d = [] \<and> EntrySPIFFEID d = WorkloadSPIFFEID rule"
  by (auto simp: desiredEntry_def ownerHintPrefix_def split: option.splits if_splits)

lemma wp_reconcilePresent:
  assumes "DesiredState rule = ''present''"
  shows "wp (reconcilePresent (recording svc) rule cid) (disciplined rule cid) []"
proof (cases "desiredEntry rule")
  case (Inl e)
  then show ?thesis by (simp add: reconcilePresent_def wp_failRule_ok)
next
  case (Inr d)
  note d = desiredEntry_fields[OF Inr]
  show ?thesis
  proof (cases "SPIREEntryID rule")
    case None
    with Inr d assms show ?thesis by (simp add: reconcilePresent_def wp_createOrBind)
  next
    case (Some i)
    show ?thesis
      unfolding reconcilePresent_def Inr Some Let_def sum.case option.case recording_sel
      by (intro wp_rules wp_ok wp_createOrBind) (use assms d in \<open>auto simp: discipline_simps desiredWithoutID_def\<close>)
  qed
qed

lemma wp_reconcileAbsent:
  assumes "DesiredState rule = ''absent''"
  shows "wp (reconcileAbsent (recording svc) rule cid) (disciplined rule cid) []"
proof (cases "SPIREEntryID rule")
  case None
  show ?thesis
    unfolding reconcileAbsent_def None option.case
    by (intro wp_rules wp_ok) (use assms in \<open>auto simp: discipline_simps\<close>)
next
  case (Some i)
  show ?thesis
    unfolding reconcileAbsent_def Some option.case recording_sel
    by (intro wp_rules wp_ok) (use assms in \<open>auto simp: discipline_simps\<close>)
qed

lemma wp_reconcileRule: "wp (reconcileRule (recording svc) rule cid) (disciplined rule cid) []"
  unfolding reconcileRule_def by (intro wp_rules wp_reconcilePresent wp_reconcileAbsent wp_failRule_ok) auto

section \<open>The calls of a run\<close>

lemma disciplined_run:
  assumes "reconcileRule svc rule cid w = (r, w')"
  obtains calls where "reconcileRule (recording svc) rule cid (w, []) = (r, (w', calls))"
    "ok_calls rule cid calls" "outcome rule r calls"
proof -
  obtain calls where run: "reconcileRule (recording svc) rule cid (w, []) = (r, (w', calls))"
    using recording_run[OF assms, of "[]"] by auto
  from wpD[OF wp_reconcileRule run] show thesis
    by (intro that[OF run]) (auto simp: disciplined_def)
qed

lemma ok_callsD: "ok_calls rule cid calls \<Longrightarrow> calls = pre @ c # post \<Longrightarrow> ok_call rule cid pre c"
  by (simp add: ok_calls_def)

lemma shown_ownedD:
  "shown_owned ruleID i pre \<Longrightarrow> \<exists>c a. c \<in> set pre \<and> answered_entry c = Some a \<and> EntryID a = i
     \<and> EntryHint a = ''wtp-rule:'' @ ruleID"
  by (auto simp: shown_owned_def list_ex_iff split: option.splits)

lemma auditedD:
  "audited rule cid pre \<Longrightarrow> \<exists>sofar ev ev'. pre = sofar @ [Audited ev (Inr ev')] \<and> TargetID ev = RuleID rule
     \<and> CorrelationID ev = cid"
  unfolding audited_def reconcile_event_def by (metis Event.select_convs(7,8) append_butlast_last_id)

lemma reconcile_event_sel [simp]:
  "TargetID (reconcile_event rule cid op i) = RuleID rule" "CorrelationID (reconcile_event rule cid op i) = cid"
  "EventActorType (reconcile_event rule cid op i) = ''system''"
  "EventOrganizationID (reconcile_event rule cid op i) = Some (RuleOrganizationID rule)"
  by (simp_all add: reconcile_event_def)

lemma ends_failedD:
  "ends_failed rule c \<Longrightarrow> (\<exists>code x. c = MarkedError (RuleID rule) code x)
     \<or> (\<exists>ev x. c = Audited ev (Inl x)) \<or> (\<exists>b x. c = MarkedConverged (RuleID rule) b (Inl x))"
  by (cases "(rule, c)" rule: ends_failed.cases) auto

end
