(* ===== verification/Reconcile_Properties.thy ===== *)
theory Reconcile_Properties
  imports Reconcile_Safety
begin

text \<open>
  The properties of one reconciler pass that hold whatever PostgreSQL and SPIRE answer, over the
  recorded calls; the comparison of entries; the accounting of a pass; and that a rule converges
  when the services work.
\<close>

section \<open>Small services\<close>

text \<open>
  A service whose world is a SPIRE service that holds at most one entry; the store and the audit
  log accept everything.
\<close>

definition one_entry_service :: "Rule list \<Rightarrow> proto_entry option Service" where
  "one_entry_service rules = \<lparr>
     svc_rules = \<lparr>store_List = returns rules, store_MarkConverged = (\<lambda>i b. returns ()),
       store_MarkError = (\<lambda>i c. returns ())\<rparr>,
     svc_spire = grpc_client one_entry_api,
     svc_audit = (\<lambda>ev. returns ev),
     svc_random = returns ''0123456789abcdef''\<rparr>"

definition example_present :: Rule where
  "example_present = \<lparr>RuleID = ''r1'', RuleOrganizationID = ''o1'', RuleWorkloadID = ''w1'',
     WorkloadSPIFFEID = ''spiffe://td.example/api'', Selectors = [''unix:uid:1000''], DesiredState = ''present'',
     Revision = 1, ParentSPIFFEID = Some ''spiffe://td.example/node'', X509SVIDTTLSeconds = 3600,
     SPIREEntryID = None, ReconcileStatus = ''pending'', LastReconciledAt = None, LastErrorCode = None\<rparr>"

definition example_absent :: Rule where
  "example_absent = example_present\<lparr>DesiredState := ''absent'', SPIREEntryID := Some ''e1''\<rparr>"

definition held_entry :: proto_entry where
  "held_entry = \<lparr>pe_Id = ''e1'', pe_SpiffeId = Some \<lparr>TrustDomain = ''td.example'', Path = ''/api''\<rparr>,
     pe_ParentId = Some \<lparr>TrustDomain = ''td.example'', Path = ''/node''\<rparr>,
     pe_Selectors = [\<lparr>ps_Type = ''unix'', ps_Value = ''uid:1000''\<rparr>], pe_X509SvidTtl = 60,
     pe_Hint = ''wtp-rule:r1''\<rparr>"

section \<open>Comparing entries\<close>

lemma same_strings_eq: "length left = length right \<Longrightarrow> same_strings left right \<longleftrightarrow> left = right"
  by (induction left right rule: list_induct2) auto

lemma sorted_strings_mset:
  fixes xs :: "string list"
  shows "sort xs = sort ys \<longleftrightarrow> mset xs = mset ys"
  by (metis mset_sort properties_for_sort sorted_sort)

section \<open>The reference for a pass\<close>

text \<open>Every rule in turn, with the results collected.\<close>

fun each_rule :: "'w Service \<Rightarrow> string \<Rightarrow> Rule list \<Rightarrow> 'w \<Rightarrow> (rec_error + bool) list \<times> 'w" where
  "each_rule svc cid [] w = ([], w)"
| "each_rule svc cid (rule # rest) w =
     (let (r, w1) = reconcileRule svc rule cid w; (rs, w2) = each_rule svc cid rest w1 in (r # rs, w2))"

definition count_if :: "('a \<Rightarrow> bool) \<Rightarrow> 'a list \<Rightarrow> int" where
  "count_if p xs = int (length (filter p xs))"

fun errors_of :: "Rule list \<Rightarrow> (rec_error + bool) list \<Rightarrow> (string \<times> rec_error) list" where
  "errors_of (rule # rules) (Inl e # rs) = (RuleID rule, e) # errors_of rules rs"
| "errors_of (rule # rules) (Inr x # rs) = errors_of rules rs"
| "errors_of _ _ = []"

lemma each_rule_length: "each_rule svc cid rules w = (rs, w') \<Longrightarrow> length rs = length rules"
  by (induction rules arbitrary: w rs w') (auto simp: Let_def split: prod.splits)

lemma errors_of_Nil: "length rs = length rules \<Longrightarrow> errors_of rules rs = [] \<longleftrightarrow> (\<forall>r \<in> set rs. \<not> isl r)"
  by (induction rules rs rule: errors_of.induct) auto

lemma errors_of_length: "length rs = length rules \<Longrightarrow> int (length (errors_of rules rs)) = count_if isl rs"
  by (induction rules rs rule: errors_of.induct) (auto simp: count_if_def)

lemma count_if_simps [simp]:
  "count_if p [] = 0" "count_if p (x # xs) = (if p x then 1 else 0) + count_if p xs"
  by (simp_all add: count_if_def)

lemma run_rules_each:
  assumes "each_rule svc cid rules w = (rs, w')"
  shows "run_rules svc cid rules (s, errs) w = ((s\<lparr>Converged := Converged s + count_if (\<lambda>r. \<not> isl r) rs,
      Changed := Changed s + count_if (\<lambda>r. r = Inr True) rs, Failed := Failed s + count_if isl rs\<rparr>,
      errs @ errors_of rules rs), w')"
  using assms
proof (induction rules arbitrary: w rs s errs)
  case (Cons rule rest)
  obtain r w1 where r: "reconcileRule svc rule cid w = (r, w1)" by fastforce
  obtain rs' w2 where e: "each_rule svc cid rest w1 = (rs', w2)" by fastforce
  from Cons.prems r e have rs: "rs = r # rs'" "w2 = w'" by (simp_all add: Let_def)
  show ?case
    using Cons.IH[OF e[unfolded rs(2)]] r rs by (cases r) simp_all
qed simp

lemma count_if_split: "count_if (\<lambda>r. \<not> isl r) rs + count_if isl rs = int (length rs)"
  by (induction rs) auto

lemma count_if_mono: "(\<And>x. p x \<Longrightarrow> q x) \<Longrightarrow> count_if p xs \<le> count_if q xs"
  by (induction xs) auto

lemma count_if_nonneg [simp]: "0 \<le> count_if p xs"
  by (simp add: count_if_def)

section \<open>Properties\<close>

text \<open>
  C25. The reconciler never touches an entry it has not been shown to own. Whatever SPIRE and
  PostgreSQL answer, and in whatever order, the calls of a run on a rule are such that every update
  and every delete is of an entry ID that an earlier answer of the same run has returned with the
  rule's ownership hint; every create and every update carries that hint; a create asks for no
  particular ID; creates and updates are made only for a rule that is to be present, deletes only for
  one that is to be absent.
\<close>

theorem reconcile_only_owned:
  assumes "reconcileRule svc rule cid w = (r, w')"
  shows "\<exists>calls. reconcileRule (recording svc) rule cid (w, []) = (r, (w', calls))
    \<and> (\<forall>pre e x post. calls = pre @ Updated e x # post \<longrightarrow>
         DesiredState rule = ''present'' \<and> EntryHint e = ''wtp-rule:'' @ RuleID rule
         \<and> (\<exists>c a. c \<in> set pre \<and> answered_entry c = Some a \<and> EntryID a = EntryID e \<and> EntryHint a = ''wtp-rule:'' @ RuleID rule))
    \<and> (\<forall>pre i x post. calls = pre @ Deleted i x # post \<longrightarrow>
         DesiredState rule = ''absent''
         \<and> (\<exists>c a. c \<in> set pre \<and> answered_entry c = Some a \<and> EntryID a = i \<and> EntryHint a = ''wtp-rule:'' @ RuleID rule))
    \<and> (\<forall>pre e x post. calls = pre @ Created e x # post \<longrightarrow>
         DesiredState rule = ''present'' \<and> EntryID e = [] \<and> EntryHint e = ''wtp-rule:'' @ RuleID rule)"
proof -
  obtain calls where run: "reconcileRule (recording svc) rule cid (w, []) = (r, (w', calls))"
    and "ok_calls rule cid calls" using disciplined_run[OF assms] by blast
  note ok = ok_callsD[OF this(2)]
  show ?thesis
  proof (rule exI[of _ calls], intro conjI[OF run] conjI[where P = "All _"] allI impI)
    fix pre e x post
    assume "calls = pre @ Updated e x # post"
    from ok[OF this] shown_ownedD[of "RuleID rule" "EntryID e" pre]
    show "DesiredState rule = ''present'' \<and> EntryHint e = ''wtp-rule:'' @ RuleID rule
         \<and> (\<exists>c a. c \<in> set pre \<and> answered_entry c = Some a \<and> EntryID a = EntryID e \<and> EntryHint a = ''wtp-rule:'' @ RuleID rule)"
      by simp
  next
    fix pre i x post
    assume "calls = pre @ Deleted i x # post"
    from ok[OF this] shown_ownedD[of "RuleID rule" i pre]
    show "DesiredState rule = ''absent''
         \<and> (\<exists>c a. c \<in> set pre \<and> answered_entry c = Some a \<and> EntryID a = i \<and> EntryHint a = ''wtp-rule:'' @ RuleID rule)"
      by simp
  next
    fix pre e x post
    assume "calls = pre @ Created e x # post"
    from ok[OF this] show "DesiredState rule = ''present'' \<and> EntryID e = [] \<and> EntryHint e = ''wtp-rule:'' @ RuleID rule"
      by simp
  qed
qed

theorem reconcile_only_owned_witness:
  "\<exists>r w' calls. reconcileRule (recording (one_entry_service [])) example_absent ''c'' (Some held_entry, []) = (r, (w', calls))
     \<and> (\<forall>pre i x post. calls = pre @ Deleted i x # post \<longrightarrow> DesiredState example_absent = ''absent'')
     \<and> list_ex mutated calls"
proof -
  obtain r w' where run: "reconcileRule (one_entry_service []) example_absent ''c'' (Some held_entry) = (r, w')" by fastforce
  have "list_ex mutated (snd (snd (reconcileRule (recording (one_entry_service [])) example_absent ''c'' (Some held_entry, []))))"
    by code_simp
  with reconcile_only_owned[OF run] show ?thesis by fastforce
qed

text \<open>
  C26. Nothing is marked converged without its audit event: in every run on a rule, whatever the
  world answers, the call that marks the rule comes directly after a successful audit append that
  names the rule and the run's correlation ID; the rule is bound to an entry only if it is to be
  present and that entry was returned to this run with the rule's ownership hint, and its binding
  is cleared only if it is to be absent. Every event the run appends and every status it writes is
  about this rule.
\<close>

theorem reconcile_audit_before_mark:
  assumes "reconcileRule svc rule cid w = (r, w')"
  shows "\<exists>calls. reconcileRule (recording svc) rule cid (w, []) = (r, (w', calls))
    \<and> (\<forall>pre i b x post. calls = pre @ MarkedConverged i b x # post \<longrightarrow> i = RuleID rule
         \<and> (\<exists>sofar ev ev'. pre = sofar @ [Audited ev (Inr ev')] \<and> TargetID ev = RuleID rule \<and> CorrelationID ev = cid)
         \<and> (case b of None \<Rightarrow> DesiredState rule = ''absent''
            | Some e \<Rightarrow> DesiredState rule = ''present'' \<and> (\<exists>c a. c \<in> set pre \<and> answered_entry c = Some a \<and> EntryID a = e
                \<and> EntryHint a = ''wtp-rule:'' @ RuleID rule)))
    \<and> (\<forall>pre i code x post. calls = pre @ MarkedError i code x # post \<longrightarrow> i = RuleID rule)
    \<and> (\<forall>pre ev x post. calls = pre @ Audited ev x # post \<longrightarrow> TargetID ev = RuleID rule \<and> CorrelationID ev = cid
         \<and> EventActorType ev = ''system'' \<and> EventOrganizationID ev = Some (RuleOrganizationID rule))"
proof -
  obtain calls where run: "reconcileRule (recording svc) rule cid (w, []) = (r, (w', calls))"
    and "ok_calls rule cid calls" using disciplined_run[OF assms] by blast
  note ok = ok_callsD[OF this(2)]
  have mark: "i = RuleID rule
         \<and> (\<exists>sofar ev ev'. pre = sofar @ [Audited ev (Inr ev')] \<and> TargetID ev = RuleID rule \<and> CorrelationID ev = cid)
         \<and> (case b of None \<Rightarrow> DesiredState rule = ''absent''
            | Some e \<Rightarrow> DesiredState rule = ''present'' \<and> (\<exists>c a. c \<in> set pre \<and> answered_entry c = Some a \<and> EntryID a = e
                \<and> EntryHint a = ''wtp-rule:'' @ RuleID rule))"
    if "calls = pre @ MarkedConverged i b x # post" for pre i b x post
    using ok[OF that] auditedD[of rule cid pre] shown_ownedD[of "RuleID rule" "the b" pre] by (cases b) simp_all
  have err: "i = RuleID rule" if "calls = pre @ MarkedError i code x # post" for pre i code x post
    using ok[OF that] by simp
  have aud: "TargetID ev = RuleID rule \<and> CorrelationID ev = cid \<and> EventActorType ev = ''system''
      \<and> EventOrganizationID ev = Some (RuleOrganizationID rule)"
    if "calls = pre @ Audited ev x # post" for pre ev x post
    using ok[OF that] by auto
  show ?thesis
    by (rule exI[of _ calls], intro conjI[OF run] conjI[where P = "All _"] allI impI;
        rule mark err aud, assumption)
qed

theorem reconcile_audit_before_mark_witness:
  "\<exists>r w' calls. reconcileRule (recording (one_entry_service [])) example_present ''c'' (None, []) = (r, (w', calls))
     \<and> last calls = MarkedConverged ''r1'' (Some ''e1'') (Inr ())
     \<and> (\<forall>pre i b x post. calls = pre @ MarkedConverged i b x # post \<longrightarrow> i = ''r1'')"
proof -
  obtain r w' where run: "reconcileRule (one_entry_service []) example_present ''c'' None = (r, w')" by fastforce
  have "last (snd (snd (reconcileRule (recording (one_entry_service [])) example_present ''c'' (None, []))))
      = MarkedConverged ''r1'' (Some ''e1'') (Inr ())" by code_simp
  moreover have "RuleID example_present = ''r1''" by (simp add: example_present_def)
  moreover obtain calls where
    "reconcileRule (recording (one_entry_service [])) example_present ''c'' (None, []) = (r, (w', calls))"
    "\<forall>pre i b x post. calls = pre @ MarkedConverged i b x # post \<longrightarrow> i = RuleID example_present"
    using reconcile_audit_before_mark[OF run] by (elim exE conjE) (rule that, assumption, simp)
  ultimately show ?thesis by auto
qed

text \<open>
  C27. The result of a run on a rule tells what happened. A failure is never silent: the last call
  recorded the rule's error, or it is the audit append or the mark that failed. A success ends with
  the rule marked converged, unless it already was and nothing but reads was done; and it reports a
  change exactly when an entry was created, updated or deleted.
\<close>

theorem reconcile_outcome:
  assumes "reconcileRule svc rule cid w = (r, w')"
  shows "\<exists>calls. reconcileRule (recording svc) rule cid (w, []) = (r, (w', calls))
    \<and> (\<forall>e. r = Inl e \<longrightarrow> calls \<noteq> [] \<and> ((\<exists>code x. last calls = MarkedError (RuleID rule) code x)
         \<or> (\<exists>ev x. last calls = Audited ev (Inl x)) \<or> (\<exists>b x. last calls = MarkedConverged (RuleID rule) b (Inl x))))
    \<and> (\<forall>changed. r = Inr changed \<longrightarrow> (changed \<longleftrightarrow> list_ex mutated calls)
         \<and> (calls \<noteq> [] \<and> (\<exists>b. last calls = MarkedConverged (RuleID rule) b (Inr ()))
            \<or> ReconcileStatus rule = ''converged'' \<and> list_all is_lookup calls))"
proof -
  obtain calls where run: "reconcileRule (recording svc) rule cid (w, []) = (r, (w', calls))"
    and o: "outcome rule r calls" using disciplined_run[OF assms] by blast
  show ?thesis
    by (rule exI[of _ calls]) (use run o ends_failedD[of rule "last calls"] in \<open>auto simp: outcome_def\<close>)
qed

theorem reconcile_outcome_witness:
  "\<exists>w' calls. reconcileRule (recording (one_entry_service [])) example_present ''c'' (Some held_entry, []) = (Inr True, (w', calls))
     \<and> list_ex mutated calls"
proof -
  have "fst (reconcileRule (one_entry_service []) example_present ''c'' (Some held_entry)) = Inr True" by code_simp
  then obtain w' where run: "reconcileRule (one_entry_service []) example_present ''c'' (Some held_entry) = (Inr True, w')"
    by (metis prod.collapse)
  from reconcile_outcome[OF run] show ?thesis by blast
qed

text \<open>
  C28. \<open>entriesEquivalent\<close> compares the workload, the parent, the lifetime, the hint and the
  selectors with their multiplicities, in any order; it does not look at the entry ID.
\<close>

theorem entriesEquivalent_multiset:
  "entriesEquivalent actual desired \<longleftrightarrow> EntrySPIFFEID actual = EntrySPIFFEID desired
     \<and> EntryParentSPIFFEID actual = EntryParentSPIFFEID desired \<and> EntryX509SVIDTTL actual = EntryX509SVIDTTL desired
     \<and> EntryHint actual = EntryHint desired \<and> mset (EntrySelectors actual) = mset (EntrySelectors desired)"
proof -
  have "same_strings (sort (EntrySelectors actual)) (sort (EntrySelectors desired))
      \<longleftrightarrow> mset (EntrySelectors actual) = mset (EntrySelectors desired)"
    if "length (EntrySelectors actual) = length (EntrySelectors desired)"
    using that by (simp add: same_strings_eq sorted_strings_mset)
  then show ?thesis
    by (auto simp: entriesEquivalent_def Let_def dest: mset_eq_length)
qed

text \<open>
  C29. A pass reconciles every listed rule exactly once, in order, whatever happens to the others,
  and its summary counts the results: \<open>Total\<close> is the number of rules and the sum of \<open>Converged\<close> and
  \<open>Failed\<close>, \<open>Changed\<close> counts the changed ones and is at most \<open>Converged\<close>; it returns an error
  exactly when the list failed, and then nothing was reconciled, or some rule failed, and then it
  holds the error of each failed rule under its ID.
\<close>

theorem Run_accounting:
  assumes "Run svc w = ((summary, err), w')"
  shows "(\<exists>e. store_List (svc_rules svc) w = (Inl e, w') \<and> err = Some (ListFailed e) \<and> summary = empty_summary)
    \<or> (\<exists>rules w1 cid w2 rs. store_List (svc_rules svc) w = (Inr rules, w1) \<and> newCorrelationID svc w1 = (cid, w2)
        \<and> each_rule svc cid rules w2 = (rs, w') \<and> length rs = length rules
        \<and> Total summary = int (length rules) \<and> Converged summary + Failed summary = Total summary
        \<and> 0 \<le> Changed summary \<and> Changed summary \<le> Converged summary
        \<and> Failed summary = count_if isl rs \<and> Changed summary = count_if (\<lambda>r. r = Inr True) rs
        \<and> err = (if errors_of rules rs = [] then None else Some (RulesFailed (errors_of rules rs)))
        \<and> (err = None \<longleftrightarrow> Failed summary = 0))"
proof (cases "store_List (svc_rules svc) w")
  case (Pair l w1)
  show ?thesis
  proof (cases l)
    case (Inl e)
    with assms Pair show ?thesis by (auto simp: Run_def)
  next
    case (Inr rules)
    obtain cid w2 where c: "newCorrelationID svc w1 = (cid, w2)" by fastforce
    obtain rs w3 where e: "each_rule svc cid rules w2 = (rs, w3)" by fastforce
    note len = each_rule_length[OF e]
    from assms Pair Inr c run_rules_each[OF e, of "empty_summary\<lparr>Total := int (length rules)\<rparr>" "[]"]
    have w: "w' = w3" and s: "summary = empty_summary\<lparr>Total := int (length rules), Converged := count_if (\<lambda>r. \<not> isl r) rs,
        Changed := count_if (\<lambda>r. r = Inr True) rs, Failed := count_if isl rs\<rparr>"
      and err: "err = (if errors_of rules rs = [] then None else Some (RulesFailed (errors_of rules rs)))"
      by (auto simp: Run_def empty_summary_def)
    have "count_if (\<lambda>r. r = Inr True) rs \<le> count_if (\<lambda>r. \<not> isl r) rs" by (rule count_if_mono) auto
    moreover have "errors_of rules rs = [] \<longleftrightarrow> count_if isl rs = 0"
      using errors_of_length[OF len, symmetric] by simp
    ultimately show ?thesis
      using Pair Inr c e len w s err count_if_split[of rs] by (intro disjI2) auto
  qed
qed

theorem Run_accounting_witness:
  "\<exists>summary w'. Run (one_entry_service [example_present, example_absent\<lparr>DesiredState := ''paused''\<rparr>]) None
       = ((summary, Some (RulesFailed [(''r1'', DesiredStateUnsupported ''paused'')])), w')
     \<and> Converged summary + Failed summary = Total summary"
proof -
  let ?svc = "one_entry_service [example_present, example_absent\<lparr>DesiredState := ''paused''\<rparr>]"
  have "snd (fst (Run ?svc None)) = Some (RulesFailed [(''r1'', DesiredStateUnsupported ''paused'')])" by code_simp
  then obtain summary w' where run: "Run ?svc None
       = ((summary, Some (RulesFailed [(''r1'', DesiredStateUnsupported ''paused'')])), w')"
    by (metis prod.collapse)
  from Run_accounting[OF run] have "Converged summary + Failed summary = Total summary" by auto
  with run show ?thesis by blast
qed

end
