(* ===== verification/Reconcile_Bounds.thy ===== *)
theory Reconcile_Bounds
  imports Reconcile_Properties
begin

text \<open>
  How much a pass of the reconciler asks of its services: a run on a rule falls back from an update to
  a create and from there to another update, and never further, so the calls of a pass are bounded
  by the number of rules, whatever the services answer.
\<close>

section \<open>The calls of a run\<close>

definition to_spire :: "call \<Rightarrow> bool" where
  "to_spire c = (case c of Got i x \<Rightarrow> True | Created e x \<Rightarrow> True | Updated e x \<Rightarrow> True | Deleted i x \<Rightarrow> True | _ \<Rightarrow> False)"

definition spent :: "call list \<Rightarrow> nat \<Rightarrow> nat \<Rightarrow> call list \<Rightarrow> bool" where
  "spent c0 n k calls \<longleftrightarrow> length calls \<le> length c0 + n \<and> length (filter to_spire calls) \<le> length (filter to_spire c0) + k"

lemmas spent_simps = spent_def to_spire_def

lemma wp_ends:
  assumes "spent c0 4 4 calls"
  shows "wp (failRule (recording svc) rule code cause) (\<lambda>_. spent c0 6 4) calls"
    and "wp (conflict (recording svc) rule i cid) (\<lambda>_. spent c0 6 4) calls"
    and "wp (record_and_mark (recording svc) rule cid op i b ch) (\<lambda>_. spent c0 6 4) calls"
  using assms by (auto simp: spent_simps intro!: wp_failRule wp_conflict wp_record_and_mark)

lemma wp_createOrBind_ends:
  assumes "spent c0 2 2 calls"
  shows "wp (createOrBind (recording svc) rule desired cid) (\<lambda>_. spent c0 6 4) calls"
  unfolding createOrBind_def Let_def recording_sel
  by (intro wp_rules wp_ends) (use assms in \<open>auto simp: spent_simps\<close>)

lemma wp_reconcileRule_ends: "wp (reconcileRule (recording svc) rule cid) (\<lambda>_. spent c0 6 4) c0"
proof -
  have "wp (reconcilePresent (recording svc) rule cid) (\<lambda>_. spent c0 6 4) c0"
    unfolding reconcilePresent_def recording_sel Let_def
    by (auto simp: spent_simps split: sum.split option.split intro!: wp_rules wp_createOrBind_ends wp_ends)
  moreover have "wp (reconcileAbsent (recording svc) rule cid) (\<lambda>_. spent c0 6 4) c0"
    unfolding reconcileAbsent_def recording_sel
    by (auto simp: spent_simps split: option.split intro!: wp_rules wp_ends)
  ultimately show ?thesis unfolding reconcileRule_def by (intro wp_rules wp_ends) (auto simp: spent_simps)
qed

section \<open>The calls of a pass\<close>

lemma run_rules_calls:
  assumes "run_rules (recording svc) cid rules acc (w, calls) = (acc', (w', calls'))"
  shows "spent calls (6 * length rules) (4 * length rules) calls'"
  using assms
proof (induction rules arbitrary: acc w calls)
  case (Cons rule rules)
  obtain summary errs where acc: "acc = (summary, errs)" by fastforce
  obtain r w1 calls1 where m: "reconcileRule (recording svc) rule cid (w, calls) = (r, (w1, calls1))" by (metis prod.collapse)
  from wpD[OF wp_reconcileRule_ends m] have "spent calls 6 4 calls1" .
  moreover have "spent calls1 (6 * length rules) (4 * length rules) calls'"
    using Cons.prems m by (cases r) (auto simp: acc dest!: Cons.IH)
  ultimately show ?case by (simp add: spent_def)
qed (simp add: spent_def)

lemma run_rules_total: "Total (fst (fst (run_rules svc cid rules acc w))) = Total (fst acc)"
proof (induction rules arbitrary: acc w)
  case (Cons rule rules)
  obtain summary errs where acc: "acc = (summary, errs)" by fastforce
  show ?case by (simp add: acc Cons split: prod.split sum.split)
qed simp

text \<open>
  A service that makes a run as long as it can be: the bound entry is outdated, the first update
  finds it gone, and the create finds an entry of the rule that has to be updated again.
\<close>

definition outdated :: "string \<Rightarrow> Entry" where
  "outdated i = \<lparr>EntryID = i, EntrySPIFFEID = ''spiffe://td.example/api'', EntryParentSPIFFEID = ''spiffe://td.example/agent'',
     EntrySelectors = [''unix:uid:1000''], EntryX509SVIDTTL = 60, EntryHint = ''wtp-rule:r1''\<rparr>"

definition racing_service :: "bool Service" where
  "racing_service = \<lparr>svc_rules = \<lparr>store_List = returns [example_present\<lparr>SPIREEntryID := Some ''e1''\<rparr>],
       store_MarkConverged = (\<lambda>i b. returns ()), store_MarkError = (\<lambda>i c. returns ())\<rparr>,
     svc_spire = \<lparr>GetEntry = (\<lambda>i. returns (outdated i)),
       CreateEntry = (\<lambda>e. returns \<lparr>sc_Entry = outdated ''e2'', sc_Disposition = CreateDispositionExisting\<rparr>),
       UpdateEntry = (\<lambda>e again. if again then (Inr e, True) else (Inl SpireNotFound, True)),
       DeleteEntry = (\<lambda>i. returns ())\<rparr>,
     svc_audit = (\<lambda>ev. returns ev), svc_random = returns ''0123456789abcdef''\<rparr>"

section \<open>Properties\<close>

text \<open>
  C30. A pass ends after a bounded number of calls. Whatever the rule store, SPIRE, the audit log and
  the random source answer, and whatever state they leave, a pass makes at most six calls for a
  listed rule, at most four of them to SPIRE, besides the listing and the draw of the correlation
  ID: a rejected update falls back to a create and a create that finds an entry to one more
  update, and nothing is tried again.
\<close>

theorem Run_bounded:
  assumes "Run (recording svc) (w, []) = ((summary, err), (w', calls))"
  shows "int (length calls) \<le> 6 * Total summary + 2 \<and> int (length (filter to_spire calls)) \<le> 4 * Total summary"
proof -
  obtain l w1 calls1 where l: "store_List (svc_rules (recording svc)) (w, []) = (l, (w1, calls1))" by (metis prod.collapse)
  then have c1: "calls1 = [Listed l]" by (auto simp: noting_def split: prod.splits)
  show ?thesis
  proof (cases l)
    case (Inl e)
    with assms l c1 show ?thesis by (auto simp: Run_def empty_summary_def to_spire_def)
  next
    case (Inr rules)
    obtain cid w2 calls2 where d: "newCorrelationID (recording svc) (w1, calls1) = (cid, (w2, calls2))" by (metis prod.collapse)
    then obtain x where c2: "calls2 = [Listed l, Random x]" using c1
      by (auto simp: newCorrelationID_def noting_def split: prod.splits sum.splits)
    obtain s errs w3 calls3 where run: "run_rules (recording svc) cid rules (empty_summary\<lparr>Total := int (length rules)\<rparr>, []) (w2, calls2)
        = ((s, errs), (w3, calls3))" by (metis prod.collapse)
    have "Total s = int (length rules)" using run_rules_total[of "recording svc" cid rules "(empty_summary\<lparr>Total := int (length rules)\<rparr>, [])" "(w2, calls2)"] run
      by simp
    with run_rules_calls[OF run] assms l Inr d run c2 show ?thesis
      by (auto simp: Run_def spent_simps)
  qed
qed

theorem Run_bounded_witness:
  "\<exists>summary w' calls. Run (recording racing_service) (False, []) = ((summary, None), (w', calls))
     \<and> int (length calls) = 6 * Total summary + 2 \<and> int (length (filter to_spire calls)) = 4 * Total summary"
proof -
  have "case Run (recording racing_service) (False, []) of ((summary, err), (w', calls)) \<Rightarrow>
      err = None \<and> Total summary = 1 \<and> length calls = 8 \<and> length (filter to_spire calls) = 4" by code_simp
  then obtain summary w' calls where run: "Run (recording racing_service) (False, []) = ((summary, None), (w', calls))"
    "Total summary = 1" "length calls = 8" "length (filter to_spire calls) = 4"
    by (auto split: prod.splits)
  with Run_bounded[OF run(1)] show ?thesis by auto
qed

end
