(* ===== verification/Reconcile_Settles.thy ===== *)
theory Reconcile_Settles
  imports Reconcile_Properties
begin

text \<open>
  One run of the reconciler on a rule when the calls it makes succeed. What the calls have to do is
  the interface \<open>working_service\<close>: over a function \<open>held\<close> that gives SPIRE's entries in a state, a
  condition \<open>ok\<close> on states that the calls to SPIRE keep, and a condition \<open>logged_ok\<close> on the states
  after the audit event, in which the rule can be marked.
\<close>

section \<open>Entries\<close>

definition sendable :: "Entry \<Rightarrow> bool" where
  "sendable e \<longleftrightarrow> (\<exists>p. toProtoEntry e = Inr p \<and> fromProtoEntry p = e)"

definition same_key :: "Entry \<Rightarrow> Entry \<Rightarrow> bool" where
  "same_key a b \<longleftrightarrow> EntrySPIFFEID a = EntrySPIFFEID b \<and> EntryParentSPIFFEID a = EntryParentSPIFFEID b
     \<and> mset (EntrySelectors a) = mset (EntrySelectors b)"

lemma equivalent_iff:
  "entriesEquivalent a d \<longleftrightarrow> same_key a d \<and> EntryX509SVIDTTL a = EntryX509SVIDTTL d \<and> EntryHint a = EntryHint d"
proof -
  have "same_strings (sort (EntrySelectors a)) (sort (EntrySelectors d)) \<longleftrightarrow> mset (EntrySelectors a) = mset (EntrySelectors d)"
    if "length (EntrySelectors a) = length (EntrySelectors d)"
    using that by (simp add: same_strings_eq sorted_strings_mset)
  then show ?thesis by (auto simp: entriesEquivalent_def same_key_def Let_def dest: mset_eq_length)
qed

lemma same_key_ID [simp]: "same_key a (d\<lparr>EntryID := i\<rparr>) = same_key a d" "same_key (d\<lparr>EntryID := i\<rparr>) a = same_key d a"
  by (simp_all add: same_key_def)

lemma same_key_refl [simp]: "same_key d d"
  by (simp add: same_key_def)

lemma owned_ID [simp]: "ownedByRule (d\<lparr>EntryID := i\<rparr>) r = ownedByRule d r"
  by (simp add: ownedByRule_def)

lemma accepted_sendable:
  assumes "validateDesiredFields desired (EntrySelectors e) (EntryParentSPIFFEID e) (EntryX509SVIDTTL e) = None"
    and "reg_validateSPIFFEID (EntrySPIFFEID e) = None"
    and "set ''%?'' \<inter> (set (EntrySPIFFEID e) \<union> set (EntryParentSPIFFEID e)) = {}"
  shows "sendable e"
proof -
  from accepted_selectors_parse[OF assms(1)] obtain xs where
    xs: "parse_selectors (EntrySelectors e) = Inr xs" "xs \<noteq> []" and parent: "reg_validateSPIFFEID (EntryParentSPIFFEID e) = None"
    by blast
  from accepted_format[OF assms(2)] accepted_format[OF parent] assms(3) obtain w d where
    "parseSPIFFEID (EntrySPIFFEID e) = Inr w" "formatSPIFFEID (Some w) = EntrySPIFFEID e"
    "parseSPIFFEID (EntryParentSPIFFEID e) = Inr d" "formatSPIFFEID (Some d) = EntryParentSPIFFEID e"
    by auto
  with xs parse_selectors_Inr[OF xs(1)] show ?thesis
    by (auto simp: sendable_def toProtoEntry_Inr fromProtoEntry_def)
qed

text \<open>A present rule the API accepted, and the entry it wants.\<close>

definition acceptable :: "Rule \<Rightarrow> bool" where
  "acceptable rule \<longleftrightarrow> DesiredState rule = ''present'' \<and> (\<exists>parent. ParentSPIFFEID rule = Some parent
     \<and> validateDesiredFields ''present'' (Selectors rule) parent (X509SVIDTTLSeconds rule) = None
     \<and> set ''%?'' \<inter> (set (WorkloadSPIFFEID rule) \<union> set parent) = {})
     \<and> reg_validateSPIFFEID (WorkloadSPIFFEID rule) = None"

definition wanted :: "Rule \<Rightarrow> Entry" where
  "wanted rule = \<lparr>EntryID = [], EntrySPIFFEID = WorkloadSPIFFEID rule, EntryParentSPIFFEID = the (ParentSPIFFEID rule),
     EntrySelectors = Selectors rule, EntryX509SVIDTTL = X509SVIDTTLSeconds rule, EntryHint = ''wtp-rule:'' @ RuleID rule\<rparr>"

lemma wanted_owned [simp]: "ownedByRule (wanted rule) (RuleID rule)" "EntryID (wanted rule) = []"
  by (simp_all add: wanted_def ownedByRule_def ownerHintPrefix_def)

lemma acceptable_desired:
  assumes "acceptable rule"
  shows "desiredEntry rule = Inr (wanted rule)" "\<And>i. sendable ((wanted rule)\<lparr>EntryID := i\<rparr>)"
proof -
  from assms obtain parent where p: "ParentSPIFFEID rule = Some parent"
    "validateDesiredFields ''present'' (Selectors rule) parent (X509SVIDTTLSeconds rule) = None"
    "set ''%?'' \<inter> (set (WorkloadSPIFFEID rule) \<union> set parent) = {}" "reg_validateSPIFFEID (WorkloadSPIFFEID rule) = None"
    unfolding acceptable_def by blast
  from p(2) have v: "60 \<le> X509SVIDTTLSeconds rule" "X509SVIDTTLSeconds rule \<le> 86400" "Selectors rule \<noteq> []"
    "reg_validateSPIFFEID parent = None"
    by (auto simp: validateDesiredFields_def MinX509SVIDTTLSeconds_def MaxX509SVIDTTLSeconds_def split: if_splits option.splits)
  from v(4) have "parent \<noteq> []" by (auto simp: reg_validateSPIFFEID_def)
  with p v show "desiredEntry rule = Inr (wanted rule)"
    by (simp add: desiredEntry_def wanted_def ownerHintPrefix_def)
  show "sendable ((wanted rule)\<lparr>EntryID := i\<rparr>)" for i
    by (rule accepted_sendable[where desired = "''present''"]) (use p in \<open>simp_all add: wanted_def\<close>)
qed

section \<open>The interface\<close>

text \<open>What both ways of the code do with an entry they have found for the rule.\<close>

definition adjust :: "'w Service \<Rightarrow> Rule \<Rightarrow> string \<Rightarrow> string \<Rightarrow> (spire_error \<Rightarrow> ('w, rec_error, bool) action) \<Rightarrow> Entry
    \<Rightarrow> ('w, rec_error, bool) action" where
  "adjust svc rule cid operation failed desired = on_result (UpdateEntry (svc_spire svc) desired) failed
     (\<lambda>updated. if \<not> ownedByRule updated (RuleID rule) then conflict svc rule (EntryID updated) cid
       else record_and_mark svc rule cid operation (EntryID updated) (Some (EntryID updated)) True)"

definition update_failed :: "'w Service \<Rightarrow> Rule \<Rightarrow> string \<Rightarrow> spire_error \<Rightarrow> ('w, rec_error, bool) action" where
  "update_failed svc rule cid e = (if e = SpireNotFound then createOrBind svc rule (wanted rule) cid
     else failRule svc rule ''spire_update_failed'' (SpireError e))"

lemma desiredWithoutID_wanted [simp]: "desiredWithoutID ((wanted rule)\<lparr>EntryID := i\<rparr>) = wanted rule"
  by (simp add: desiredWithoutID_def wanted_def)

lemma reconcilePresent_found:
  assumes "acceptable rule" "SPIREEntryID rule = Some (EntryID a)" "ownedByRule a (RuleID rule)"
    "GetEntry (svc_spire svc) (EntryID a) w = (Inr a, w1)"
  shows "reconcilePresent svc rule cid w =
    (let desired = (wanted rule)\<lparr>EntryID := EntryID a\<rparr> in
     if entriesEquivalent a desired
     then (if ReconcileStatus rule = ''converged'' then returns False
       else record_and_mark svc rule cid ''bind_owned_existing'' (EntryID a) (Some (EntryID a)) False)
     else adjust svc rule cid ''update'' (update_failed svc rule cid) desired) w1"
  using assms acceptable_desired[OF assms(1)]
  by (simp add: reconcilePresent_def adjust_def update_failed_def[abs_def] Let_def
      on_result_run(2)[where m = "GetEntry (svc_spire svc) (EntryID a)"] cong: if_cong)

lemma createOrBind_existing:
  assumes "CreateEntry (svc_spire svc) (wanted rule) w = (Inr \<lparr>sc_Entry = a, sc_Disposition = CreateDispositionExisting\<rparr>, w1)"
    "ownedByRule a (RuleID rule)"
  shows "\<exists>failed. createOrBind svc rule (wanted rule) cid w =
    (let desired = (wanted rule)\<lparr>EntryID := EntryID a\<rparr> in
     if entriesEquivalent a desired then record_and_mark svc rule cid ''bind_owned_existing'' (EntryID a) (Some (EntryID a)) False
     else adjust svc rule cid ''update_owned_existing'' failed desired) w1"
  using assms(2)
  by (auto simp: createOrBind_def adjust_def Let_def on_result_run(2)[where m = "CreateEntry (svc_spire svc) (wanted rule)", OF assms(1)])

lemma operation_texts [simp]: "text_ok ''create''" "text_ok ''bind_owned_existing''" "text_ok ''update_owned_existing''"
  "text_ok ''update''" "text_ok ''absent_noop''" "text_ok ''clear_stale_binding''" "text_ok ''delete''"
  by code_simp+

locale working_service =
  fixes svc :: "'w Service" and held :: "'w \<Rightarrow> string \<Rightarrow> Entry option" and ok logged_ok :: "'w \<Rightarrow> bool"
    and name_ok :: "string \<Rightarrow> bool" and rule :: Rule and cid :: string
  assumes entries: "ok w \<Longrightarrow> held w i = Some e \<Longrightarrow> EntryID e = i \<and> i \<noteq> [] \<and> name_ok i"
    and names: "ok w \<Longrightarrow> SPIREEntryID rule = Some i \<Longrightarrow> name_ok i" "name_ok []"
    and marks: "logged_ok w \<Longrightarrow> \<forall>i. b = Some i \<longrightarrow> (\<exists>e. held w i = Some e \<and> ownedByRule e (RuleID rule)) \<Longrightarrow>
      \<exists>w'. store_MarkConverged (svc_rules svc) (RuleID rule) b w = (Inr (), w') \<and> held w' = held w"
    and audits: "ok w \<Longrightarrow> text_ok operation \<Longrightarrow> name_ok i \<Longrightarrow>
      \<exists>ev w'. svc_audit svc (reconcile_event rule cid operation i) w = (Inr ev, w') \<and> held w' = held w \<and> logged_ok w'"
    and gets: "ok w \<Longrightarrow> \<exists>w'. GetEntry (svc_spire svc) i w = (case held w i of None \<Rightarrow> Inl SpireNotFound | Some e \<Rightarrow> Inr e, w')
      \<and> held w' = held w \<and> ok w'"
    and creates: "ok w \<Longrightarrow> sendable d \<Longrightarrow> EntryID d = [] \<Longrightarrow> ownedByRule d (RuleID rule) \<Longrightarrow>
      \<exists>r w'. CreateEntry (svc_spire svc) d w = (Inr r, w') \<and> ok w' \<and>
        (if \<exists>i e. held w i = Some e \<and> same_key e d
         then sc_Disposition r = CreateDispositionExisting \<and> held w' = held w
           \<and> held w (EntryID (sc_Entry r)) = Some (sc_Entry r) \<and> same_key (sc_Entry r) d
         else sc_Disposition r = CreateDispositionCreated
           \<and> (\<exists>i. i \<noteq> [] \<and> held w i = None \<and> sc_Entry r = d\<lparr>EntryID := i\<rparr> \<and> held w' = (held w)(i \<mapsto> d\<lparr>EntryID := i\<rparr>)))"
    and updates: "ok w \<Longrightarrow> sendable e \<Longrightarrow> ownedByRule e (RuleID rule) \<Longrightarrow> held w (EntryID e) = Some e0 \<Longrightarrow> ownedByRule e0 (RuleID rule) \<Longrightarrow>
      \<exists>w'. UpdateEntry (svc_spire svc) e w = (Inr e, w') \<and> held w' = (held w)(EntryID e \<mapsto> e) \<and> ok w'"
    and deletes: "ok w \<Longrightarrow> held w i = Some e0 \<Longrightarrow> ownedByRule e0 (RuleID rule) \<Longrightarrow>
      \<exists>w'. DeleteEntry (svc_spire svc) i w = (Inr (), w') \<and> held w' = (held w)(i := None) \<and> ok w'"
begin

text \<open>How a run ends: with the mark as its last call, or without a mark when the rule already has it.\<close>

definition finished :: "'w \<Rightarrow> string option \<Rightarrow> bool" where
  "finished w' b \<longleftrightarrow> (\<exists>w0. logged_ok w0 \<and> held w0 = held w' \<and> store_MarkConverged (svc_rules svc) (RuleID rule) b w0 = (Inr (), w'))
     \<or> ok w' \<and> SPIREEntryID rule = b \<and> ReconcileStatus rule = ''converged''"

text \<open>SPIRE holds the wanted entry, and nothing else has changed there but an entry of the rule.\<close>

definition settled :: "'w \<Rightarrow> 'w \<Rightarrow> bool" where
  "settled w w' \<longleftrightarrow> (\<exists>i e. held w' i = Some e \<and> entriesEquivalent e (wanted rule) \<and> (\<forall>j. j \<noteq> i \<longrightarrow> held w' j = held w j)
     \<and> (\<forall>e0. held w i = Some e0 \<longrightarrow> ownedByRule e0 (RuleID rule)) \<and> finished w' (Some i))"

lemma records_and_marks:
  assumes "ok w" "name_ok i" "text_ok operation" "\<forall>j. b = Some j \<longrightarrow> (\<exists>e. held w j = Some e \<and> ownedByRule e (RuleID rule))"
  obtains w' where "record_and_mark svc rule cid operation i b ch w = (Inr ch, w')" "held w' = held w" "finished w' b"
proof -
  from audits[OF assms(1,3,2)] obtain ev w1 where a: "svc_audit svc (reconcile_event rule cid operation i) w = (Inr ev, w1)"
    "held w1 = held w" "logged_ok w1" by blast
  from marks[OF a(3), of b] assms(4) a(2) obtain w2 where
    m: "store_MarkConverged (svc_rules svc) (RuleID rule) b w1 = (Inr (), w2)" "held w2 = held w1" by auto
  have "record_and_mark svc rule cid operation i b ch w = (Inr ch, w2)"
    using a m by (simp add: record_and_mark_def recordAudit_def markConverged_def on_result_def returns_def)
  moreover have "finished w2 b" using a(3) m unfolding finished_def by metis
  ultimately show ?thesis using that a(2) m(2) by metis
qed

lemma settled_from: "held w1 = held w \<Longrightarrow> settled w1 w' = settled w w'"
  by (simp add: settled_def)

lemma marked_settles:
  assumes "held w i = Some a" "ownedByRule a (RuleID rule)" "entriesEquivalent a ((wanted rule)\<lparr>EntryID := i\<rparr>)"
    "held w2 = held w" "finished w2 (Some i)"
  shows "settled w w2"
  unfolding settled_def using assms by (intro exI[of _ i] exI[of _ a]) (simp add: equivalent_iff)

lemma existing_settles:
  assumes w: "ok w" and acc: "acceptable rule" and a: "held w i = Some a" and o: "ownedByRule a (RuleID rule)"
    and t: "text_ok bind" "text_ok update"
  shows "\<exists>ch w'. (let desired = (wanted rule)\<lparr>EntryID := i\<rparr> in
      if entriesEquivalent a desired then record_and_mark svc rule cid bind i (Some i) False
      else adjust svc rule cid update failed desired) w = (Inr ch, w') \<and> settled w w'"
proof -
  have n: "name_ok i" using entries[OF w a] by simp
  let ?d = "(wanted rule)\<lparr>EntryID := i\<rparr>"
  show ?thesis
  proof (cases "entriesEquivalent a ?d")
    case True
    obtain w2 where "record_and_mark svc rule cid bind i (Some i) False w = (Inr False, w2)" "held w2 = held w" "finished w2 (Some i)"
      using records_and_marks[OF w n t(1), of "Some i"] a o by auto
    with marked_settles[OF a o True] True show ?thesis by auto
  next
    case False
    have "held w (EntryID ?d) = Some a" using a by simp
    from updates[OF w acceptable_desired(2)[OF acc] _ this o] obtain w2 where
      u: "UpdateEntry (svc_spire svc) ?d w = (Inr ?d, w2)" "held w2 = (held w)(EntryID ?d \<mapsto> ?d)" "ok w2" by auto
    obtain w3 where m: "record_and_mark svc rule cid update i (Some i) True w2 = (Inr True, w3)"
      "held w3 = held w2" "finished w3 (Some i)"
      using records_and_marks[OF u(3) n t(2), of "Some i"] u(2) by auto
    have "settled w w3" using u(2) m(2,3) a o by (auto simp: settled_def equivalent_iff)
    with False m(1) u(1) show ?thesis
      by (auto simp: adjust_def on_result_run(2)[where m = "UpdateEntry (svc_spire svc) ?d"])
  qed
qed

lemma createOrBind_settles:
  assumes w: "ok w" and acc: "acceptable rule"
    and key: "\<And>i e. held w i = Some e \<Longrightarrow> same_key e (wanted rule) \<Longrightarrow> ownedByRule e (RuleID rule)"
  shows "\<exists>ch w'. createOrBind svc rule (wanted rule) cid w = (Inr ch, w') \<and> settled w w'"
proof -
  have "sendable (wanted rule)" using acceptable_desired(2)[OF acc, of "[]"] by (simp add: wanted_def)
  with creates[OF w, of "wanted rule"] obtain r w1 where c: "CreateEntry (svc_spire svc) (wanted rule) w = (Inr r, w1)" and w1: "ok w1" and
    if0: "if \<exists>i e. held w i = Some e \<and> same_key e (wanted rule)
       then sc_Disposition r = CreateDispositionExisting \<and> held w1 = held w
         \<and> held w (EntryID (sc_Entry r)) = Some (sc_Entry r) \<and> same_key (sc_Entry r) (wanted rule)
       else sc_Disposition r = CreateDispositionCreated
         \<and> (\<exists>i. i \<noteq> [] \<and> held w i = None \<and> sc_Entry r = (wanted rule)\<lparr>EntryID := i\<rparr> \<and> held w1 = (held w)(i \<mapsto> (wanted rule)\<lparr>EntryID := i\<rparr>))"
    by auto
  show ?thesis
  proof (cases "\<exists>i e. held w i = Some e \<and> same_key e (wanted rule)")
    case False
    with if0 obtain i where r: "sc_Disposition r = CreateDispositionCreated" "sc_Entry r = (wanted rule)\<lparr>EntryID := i\<rparr>"
      "held w i = None" "held w1 = (held w)(i \<mapsto> (wanted rule)\<lparr>EntryID := i\<rparr>)" by auto
    have "name_ok i" using entries[OF w1, of i] r(4) by simp
    then obtain w2 where "record_and_mark svc rule cid ''create'' i (Some i) True w1 = (Inr True, w2)" "held w2 = held w1" "finished w2 (Some i)"
      using records_and_marks[OF w1, of i "''create''" "Some i"] r(4) by auto
    with r show ?thesis by (auto simp: createOrBind_def settled_def equivalent_iff
          on_result_run(2)[where m = "CreateEntry (svc_spire svc) (wanted rule)", OF c])
  next
    case True
    then have r: "r = \<lparr>sc_Entry = sc_Entry r, sc_Disposition = CreateDispositionExisting\<rparr>" "held w1 = held w"
      "held w (EntryID (sc_Entry r)) = Some (sc_Entry r)" "same_key (sc_Entry r) (wanted rule)" using if0 by simp_all
    have o: "ownedByRule (sc_Entry r) (RuleID rule)" using key[OF r(3,4)] .
    from c r(1) have "CreateEntry (svc_spire svc) (wanted rule) w
      = (Inr \<lparr>sc_Entry = sc_Entry r, sc_Disposition = CreateDispositionExisting\<rparr>, w1)" by simp
    from createOrBind_existing[OF this o, of cid] obtain failed where
      run: "createOrBind svc rule (wanted rule) cid w = (let desired = (wanted rule)\<lparr>EntryID := EntryID (sc_Entry r)\<rparr> in
        if entriesEquivalent (sc_Entry r) desired
        then record_and_mark svc rule cid ''bind_owned_existing'' (EntryID (sc_Entry r)) (Some (EntryID (sc_Entry r))) False
        else adjust svc rule cid ''update_owned_existing'' failed desired) w1" by blast
    have "held w1 (EntryID (sc_Entry r)) = Some (sc_Entry r)" using r by simp
    from existing_settles[OF w1 acc this o operation_texts(2,3), of failed] run show ?thesis
      by (simp add: settled_from[OF r(2)])
  qed
qed

text \<open>The entry a rule is bound to and the entry with the wanted key are its own.\<close>

definition owns :: "'w \<Rightarrow> bool" where
  "owns w \<longleftrightarrow> (\<forall>i e. held w i = Some e \<longrightarrow> same_key e (wanted rule) \<and> DesiredState rule = ''present'' \<or> SPIREEntryID rule = Some i
     \<longrightarrow> ownedByRule e (RuleID rule))"

lemma reconcilePresent_settles:
  assumes w: "ok w" and acc: "acceptable rule" and own: "owns w"
  shows "\<exists>ch w'. reconcilePresent svc rule cid w = (Inr ch, w') \<and> settled w w'"
proof -
  note d = acceptable_desired[OF acc]
  have p: "DesiredState rule = ''present''" using acc by (simp add: acceptable_def)
  have create: "\<exists>ch w'. createOrBind svc rule (wanted rule) cid w1 = (Inr ch, w') \<and> settled w w'"
    if "held w1 = held w" "ok w1" for w1
  proof -
    have "\<exists>ch w'. createOrBind svc rule (wanted rule) cid w1 = (Inr ch, w') \<and> settled w1 w'"
      using createOrBind_settles[OF that(2) acc] own that(1) p by (auto simp: owns_def)
    with settled_from[OF that(1)] show ?thesis by auto
  qed
  show ?thesis
  proof (cases "SPIREEntryID rule")
    case None
    with d(1) create[OF refl w] show ?thesis by (simp add: reconcilePresent_def)
  next
    case (Some i)
    from gets[OF w] obtain w1 where
      g: "GetEntry (svc_spire svc) i w = (case held w i of None \<Rightarrow> Inl SpireNotFound | Some e \<Rightarrow> Inr e, w1)" "held w1 = held w" "ok w1"
      by blast
    show ?thesis
    proof (cases "held w i")
      case None
      with g have "GetEntry (svc_spire svc) i w = (Inl SpireNotFound, w1)" by simp
      with d(1) Some create[OF g(2,3)] show ?thesis
        by (simp add: reconcilePresent_def Let_def on_result_run(1)[where m = "GetEntry (svc_spire svc) i"])
    next
      case a: (Some a)
      have o: "ownedByRule a (RuleID rule)" and ai: "EntryID a = i" using own a Some entries[OF w a] by (auto simp: owns_def)
      have h: "held w1 i = Some a" using a g(2) by simp
      have run: "reconcilePresent svc rule cid w = (let desired = (wanted rule)\<lparr>EntryID := i\<rparr> in
         if entriesEquivalent a desired
         then (if ReconcileStatus rule = ''converged'' then returns False
           else record_and_mark svc rule cid ''bind_owned_existing'' i (Some i) False)
         else adjust svc rule cid ''update'' (update_failed svc rule cid) desired) w1"
        using reconcilePresent_found[OF acc, of a svc w w1 cid] g(1) a Some o ai by (simp add: Let_def cong: if_cong)
      show ?thesis
      proof (cases "entriesEquivalent a ((wanted rule)\<lparr>EntryID := i\<rparr>) \<and> ReconcileStatus rule = ''converged''")
        case True
        then have "finished w1 (Some i)" using Some g(3) by (simp add: finished_def)
        with marked_settles[OF a o _ g(2)] run True show ?thesis by (auto simp: returns_def)
      next
        case False
        with run existing_settles[OF g(3) acc h o operation_texts(2,4), of "update_failed svc rule cid"]
        show ?thesis by (auto simp: Let_def settled_from[OF g(2)])
      qed
    qed
  qed
qed

text \<open>A rule that is to be absent: its bound entry is gone, and no other has changed.\<close>

lemma reconcileAbsent_settles:
  assumes w: "ok w" and own: "owns w"
  shows "\<exists>ch w'. reconcileAbsent svc rule cid w = (Inr ch, w') \<and> finished w' None
    \<and> held w' = (case SPIREEntryID rule of None \<Rightarrow> held w | Some i \<Rightarrow> (held w)(i := None))
    \<and> (\<forall>i. SPIREEntryID rule = Some i \<longrightarrow> ch = (held w i \<noteq> None))"
proof (cases "SPIREEntryID rule")
  case None
  obtain w1 where m: "record_and_mark svc rule cid ''absent_noop'' [] None False w = (Inr False, w1)" "held w1 = held w" "finished w1 None"
    using records_and_marks[OF w names(2), of "''absent_noop''" None] by auto
  have "finished w None" if "ReconcileStatus rule = ''converged''" using that w None by (simp add: finished_def)
  with m None show ?thesis by (cases "ReconcileStatus rule = ''converged''") (auto simp: reconcileAbsent_def returns_def)
next
  case (Some i)
  from gets[OF w] obtain w1 where
    g: "GetEntry (svc_spire svc) i w = (case held w i of None \<Rightarrow> Inl SpireNotFound | Some e \<Rightarrow> Inr e, w1)" "held w1 = held w" "ok w1"
    by blast
  note run = on_result_run[where m = "GetEntry (svc_spire svc) i"]
  show ?thesis
  proof (cases "held w i")
    case None
    obtain w2 where "record_and_mark svc rule cid ''clear_stale_binding'' i None False w1 = (Inr False, w2)" "held w2 = held w1" "finished w2 None"
      using records_and_marks[OF g(3) names(1)[OF w Some], of "''clear_stale_binding''" None] by auto
    with None g Some show ?thesis by (auto simp: reconcileAbsent_def run fun_upd_idem)
  next
    case a: (Some a)
    from own a Some have o: "ownedByRule a (RuleID rule)" by (auto simp: owns_def)
    have ai: "EntryID a = i" "name_ok i" using entries[OF w a] by simp_all
    have "held w1 i = Some a" using a g(2) by simp
    from deletes[OF g(3) this o] obtain w2 where
      d: "DeleteEntry (svc_spire svc) i w1 = (Inr (), w2)" "held w2 = (held w1)(i := None)" "ok w2" by blast
    obtain w3 where "record_and_mark svc rule cid ''delete'' i None True w2 = (Inr True, w3)" "held w3 = held w2" "finished w3 None"
      using records_and_marks[OF d(3) ai(2), of "''delete''" None] by auto
    with a g d o ai Some show ?thesis
      by (auto simp: reconcileAbsent_def run on_result_run[where m = "DeleteEntry (svc_spire svc) i"])
  qed
qed

end

end
