(* ===== verification/Reconcile_Liveness.thy ===== *)
theory Reconcile_Liveness
  imports Reconcile_Settles
begin

text \<open>
  When the services work, a rule the API accepted converges in one run, and the run after it
  changes nothing. SPIRE is described by \<open>spire_serves\<close>, what its entry API documents, over a
  function \<open>held\<close> that gives the entries of a world; \<open>healthy\<close> says that the store and the audit log
  accept what they are given and leave the entries alone. \<open>memory_spire\<close> is a service that has
  these laws.
\<close>

section \<open>The laws\<close>

text \<open>
  A read answers the entry or that there is none. A create answers the entry that has the same
  workload, parent and selectors, when there is one, and adds the entry under a new ID otherwise.
  An update of an entry there is replaces it, a delete removes it.
\<close>

definition spire_serves :: "'w spire_client \<Rightarrow> ('w \<Rightarrow> string \<Rightarrow> Entry option) \<Rightarrow> bool" where
  "spire_serves c held \<longleftrightarrow>
     (\<forall>w i e. held w i = Some e \<longrightarrow> EntryID e = i \<and> i \<noteq> [])
     \<and> (\<forall>w i. \<exists>w'. GetEntry c i w = (case held w i of None \<Rightarrow> Inl SpireNotFound | Some e \<Rightarrow> Inr e, w') \<and> held w' = held w)
     \<and> (\<forall>w d. sendable d \<longrightarrow> EntryID d = [] \<longrightarrow> (\<exists>r w'. CreateEntry c d w = (Inr r, w') \<and>
          (if \<exists>i e. held w i = Some e \<and> same_key e d
           then sc_Disposition r = CreateDispositionExisting \<and> held w' = held w
             \<and> held w (EntryID (sc_Entry r)) = Some (sc_Entry r) \<and> same_key (sc_Entry r) d
           else sc_Disposition r = CreateDispositionCreated
             \<and> (\<exists>i. i \<noteq> [] \<and> held w i = None \<and> sc_Entry r = d\<lparr>EntryID := i\<rparr> \<and> held w' = (held w)(i \<mapsto> d\<lparr>EntryID := i\<rparr>)))))
     \<and> (\<forall>w e. sendable e \<longrightarrow> held w (EntryID e) \<noteq> None \<longrightarrow>
          (\<exists>w'. UpdateEntry c e w = (Inr e, w') \<and> held w' = (held w)(EntryID e \<mapsto> e)))
     \<and> (\<forall>w i. held w i \<noteq> None \<longrightarrow> (\<exists>w'. DeleteEntry c i w = (Inr (), w') \<and> held w' = (held w)(i := None)))"

definition healthy :: "'w Service \<Rightarrow> ('w \<Rightarrow> string \<Rightarrow> Entry option) \<Rightarrow> bool" where
  "healthy svc held \<longleftrightarrow>
     (\<forall>i b w. \<exists>w'. store_MarkConverged (svc_rules svc) i b w = (Inr (), w') \<and> held w' = held w)
     \<and> (\<forall>ev w. \<exists>ev' w'. svc_audit svc ev w = (Inr ev', w') \<and> held w' = held w)
     \<and> spire_serves (svc_spire svc) held"

section \<open>A healthy service is a working one\<close>

lemma healthy_works:
  assumes "healthy svc held"
  shows "working_service svc held (\<lambda>_. True) (\<lambda>_. True) (\<lambda>_. True) rule cid"
proof
  note laws = assms[unfolded healthy_def spire_serves_def]
  show "\<exists>w'. store_MarkConverged (svc_rules svc) (RuleID rule) b w = (Inr (), w') \<and> held w' = held w" for b w
    using laws by blast
  show "\<exists>ev w'. svc_audit svc (reconcile_event rule cid operation i) w = (Inr ev, w') \<and> held w' = held w \<and> True" for operation i w
    using laws by blast
  show "\<exists>w'. GetEntry (svc_spire svc) i w = (case held w i of None \<Rightarrow> Inl SpireNotFound | Some e \<Rightarrow> Inr e, w') \<and> held w' = held w \<and> True" for i w
    using laws by blast
  show "\<exists>r w'. CreateEntry (svc_spire svc) d w = (Inr r, w') \<and> True \<and>
        (if \<exists>i e. held w i = Some e \<and> same_key e d
         then sc_Disposition r = CreateDispositionExisting \<and> held w' = held w
           \<and> held w (EntryID (sc_Entry r)) = Some (sc_Entry r) \<and> same_key (sc_Entry r) d
         else sc_Disposition r = CreateDispositionCreated
           \<and> (\<exists>i. i \<noteq> [] \<and> held w i = None \<and> sc_Entry r = d\<lparr>EntryID := i\<rparr> \<and> held w' = (held w)(i \<mapsto> d\<lparr>EntryID := i\<rparr>)))"
    if "sendable d" "EntryID d = []" for d w
    using laws that by simp
  show "\<exists>w'. UpdateEntry (svc_spire svc) e w = (Inr e, w') \<and> held w' = (held w)(EntryID e \<mapsto> e) \<and> True"
    if "sendable e" "held w (EntryID e) = Some e0" for e e0 w
    using laws that by simp
  show "\<exists>w'. DeleteEntry (svc_spire svc) i w = (Inr (), w') \<and> held w' = (held w)(i := None) \<and> True"
    if "held w i = Some e0" for i e0 w
    using laws that by simp
  show "EntryID e = i \<and> i \<noteq> [] \<and> True" if "held w i = Some e" for e i w
    using laws that by blast
qed simp_all

lemma healthy_get:
  assumes "healthy svc held"
  obtains w' where "GetEntry (svc_spire svc) i w = (case held w i of None \<Rightarrow> Inl SpireNotFound | Some e \<Rightarrow> Inr e, w')"
    "held w' = held w"
  using assms unfolding healthy_def spire_serves_def by blast

lemma desiredEntry_bound: "desiredEntry (rule\<lparr>SPIREEntryID := b, ReconcileStatus := st\<rparr>) = desiredEntry rule"
  by (cases "ParentSPIFFEID rule") (simp_all add: desiredEntry_def)

section \<open>A service with the laws\<close>

text \<open>The entries as a list, the latest version of each first.\<close>

definition held_in :: "Entry list \<Rightarrow> string \<Rightarrow> Entry option" where
  "held_in es i = (if i = [] then None else find (\<lambda>e. EntryID e = i) es)"

definition fresh_id :: "Entry list \<Rightarrow> string" where
  "fresh_id es = replicate (Suc (sum_list (map (\<lambda>x. length (EntryID x)) es))) CHR ''e''"

definition memory_spire :: "Entry list spire_client" where
  "memory_spire = \<lparr>
     GetEntry = (\<lambda>i es. (case held_in es i of None \<Rightarrow> Inl SpireNotFound | Some e \<Rightarrow> Inr e, es)),
     CreateEntry = (\<lambda>d es. case find (\<lambda>e. same_key e d \<and> held_in es (EntryID e) = Some e) es of
         Some e \<Rightarrow> (Inr \<lparr>sc_Entry = e, sc_Disposition = CreateDispositionExisting\<rparr>, es)
       | None \<Rightarrow> (let e = d\<lparr>EntryID := fresh_id es\<rparr> in
           (Inr \<lparr>sc_Entry = e, sc_Disposition = CreateDispositionCreated\<rparr>, e # es))),
     UpdateEntry = (\<lambda>e es. if held_in es (EntryID e) = None then (Inl SpireNotFound, es) else (Inr e, e # es)),
     DeleteEntry = (\<lambda>i es. if held_in es i = None then (Inl SpireNotFound, es)
       else (Inr (), filter (\<lambda>e. EntryID e \<noteq> i) es))\<rparr>"

definition memory_service :: "Entry list Service" where
  "memory_service = \<lparr>svc_rules = \<lparr>store_List = returns [], store_MarkConverged = (\<lambda>i b. returns ()),
     store_MarkError = (\<lambda>i c. returns ())\<rparr>,
     svc_spire = memory_spire, svc_audit = (\<lambda>ev. returns ev), svc_random = returns ''0123456789abcdef''\<rparr>"

lemma held_in_ID: "held_in es i = Some e \<Longrightarrow> EntryID e = i \<and> i \<noteq> [] \<and> e \<in> set es"
  by (auto simp: held_in_def dest: find_Some_mem split: if_splits)

lemma held_in_Cons: "EntryID e \<noteq> [] \<Longrightarrow> held_in (e # es) = (held_in es)(EntryID e \<mapsto> e)"
  by (auto simp: held_in_def fun_eq_iff)

lemma held_in_filter: "held_in (filter (\<lambda>e. EntryID e \<noteq> i) es) = (held_in es)(i := None)"
proof
  fix j
  show "held_in (filter (\<lambda>e. EntryID e \<noteq> i) es) j = ((held_in es)(i := None)) j"
    by (induction es) (auto simp: held_in_def)
qed

lemma fresh_id_free: "held_in es (fresh_id es) = None" "fresh_id es \<noteq> []"
proof -
  have "length (EntryID x) \<le> sum_list (map (\<lambda>x. length (EntryID x)) es)" if "x \<in> set es" for x
    using that by (induction es) auto
  then have "EntryID x \<noteq> fresh_id es" if "x \<in> set es" for x
    using that by (fastforce simp: fresh_id_def simp del: replicate_Suc dest: arg_cong[where f = length])
  then show "held_in es (fresh_id es) = None" by (auto simp: held_in_def find_None_iff)
  show "fresh_id es \<noteq> []" by (simp add: fresh_id_def)
qed

lemma memory_create:
  "CreateEntry memory_spire d es = (case find (\<lambda>e. same_key e d \<and> held_in es (EntryID e) = Some e) es of
         Some e \<Rightarrow> (Inr \<lparr>sc_Entry = e, sc_Disposition = CreateDispositionExisting\<rparr>, es)
       | None \<Rightarrow> (Inr \<lparr>sc_Entry = d\<lparr>EntryID := fresh_id es\<rparr>, sc_Disposition = CreateDispositionCreated\<rparr>,
           d\<lparr>EntryID := fresh_id es\<rparr> # es))"
  by (simp add: memory_spire_def Let_def split: option.split)

lemma memory_spire_serves: "spire_serves memory_spire held_in"
  unfolding spire_serves_def
proof (intro conjI allI impI)
  fix w d
  assume "sendable d" "EntryID d = []"
  show "\<exists>r w'. CreateEntry memory_spire d w = (Inr r, w') \<and>
          (if \<exists>i e. held_in w i = Some e \<and> same_key e d
           then sc_Disposition r = CreateDispositionExisting \<and> held_in w' = held_in w
             \<and> held_in w (EntryID (sc_Entry r)) = Some (sc_Entry r) \<and> same_key (sc_Entry r) d
           else sc_Disposition r = CreateDispositionCreated
             \<and> (\<exists>i. i \<noteq> [] \<and> held_in w i = None \<and> sc_Entry r = d\<lparr>EntryID := i\<rparr> \<and> held_in w' = (held_in w)(i \<mapsto> d\<lparr>EntryID := i\<rparr>)))"
  proof (cases "find (\<lambda>e. same_key e d \<and> held_in w (EntryID e) = Some e) w")
    case None
    then have no: "\<not> (\<exists>i e. held_in w i = Some e \<and> same_key e d)"
      using held_in_ID by (fastforce simp: find_None_iff)
    let ?e = "d\<lparr>EntryID := fresh_id w\<rparr>"
    have "CreateEntry memory_spire d w = (Inr \<lparr>sc_Entry = ?e, sc_Disposition = CreateDispositionCreated\<rparr>, ?e # w)"
      by (simp add: memory_create None)
    moreover have "held_in (?e # w) = (held_in w)(fresh_id w \<mapsto> ?e)"
      using held_in_Cons[of ?e w] fresh_id_free(2) by simp
    ultimately show ?thesis using no fresh_id_free[of w]
      by (intro exI[of _ "\<lparr>sc_Entry = ?e, sc_Disposition = CreateDispositionCreated\<rparr>"] exI[of _ "?e # w"]) auto
  next
    case (Some e)
    from find_Some_mem[OF Some] have "\<exists>i e. held_in w i = Some e \<and> same_key e d" by blast
    with Some find_Some_mem[OF Some] show ?thesis by (simp add: memory_create)
  qed
next
  fix w e
  assume "sendable e" "held_in w (EntryID e) \<noteq> None"
  then show "\<exists>w'. UpdateEntry memory_spire e w = (Inr e, w') \<and> held_in w' = (held_in w)(EntryID e \<mapsto> e)"
    by (intro exI[of _ "e # w"]) (auto simp: memory_spire_def held_in_Cons dest: held_in_ID)
next
  fix w i
  assume "held_in w i \<noteq> None"
  then show "\<exists>w'. DeleteEntry memory_spire i w = (Inr (), w') \<and> held_in w' = (held_in w)(i := None)"
    by (auto simp: memory_spire_def held_in_filter)
qed (auto simp: memory_spire_def dest: held_in_ID)

lemma memory_healthy: "healthy memory_service held_in"
  by (auto simp: healthy_def memory_service_def returns_def memory_spire_serves)

section \<open>Properties\<close>

text \<open>
  A rule the API accepted converges. When the store, the audit log and SPIRE work, one run on
  a present rule whose SPIFFE IDs have no percent sign or question mark succeeds, whether the rule
  has no binding, a stale one or one to an outdated entry, provided that the entry it is bound to
  and the entry with its workload, parent and selectors are its own; SPIRE then holds an entry
  with the rule's workload, parent, lifetime, hint and selectors, and no other entry has changed.
  A run on the rule as it is then stored changes nothing, whatever its correlation ID.
\<close>

theorem reconcile_converges:
  assumes "healthy svc held" "acceptable rule"
    and "\<forall>i e. held w i = Some e \<and> (same_key e (wanted rule) \<or> SPIREEntryID rule = Some i)
      \<longrightarrow> EntryHint e = ''wtp-rule:'' @ RuleID rule"
  shows "\<exists>ch w' i e. reconcileRule svc rule cid w = (Inr ch, w') \<and> held w' i = Some e
    \<and> EntrySPIFFEID e = WorkloadSPIFFEID rule \<and> Some (EntryParentSPIFFEID e) = ParentSPIFFEID rule
    \<and> EntryX509SVIDTTL e = X509SVIDTTLSeconds rule \<and> EntryHint e = ''wtp-rule:'' @ RuleID rule
    \<and> mset (EntrySelectors e) = mset (Selectors rule) \<and> (\<forall>j. j \<noteq> i \<longrightarrow> held w' j = held w j)
    \<and> (\<forall>cid2. \<exists>w2. reconcileRule svc (rule\<lparr>SPIREEntryID := Some i, ReconcileStatus := ''converged''\<rparr>) cid2 w'
          = (Inr False, w2) \<and> held w2 = held w')"
proof -
  have present: "DesiredState rule = ''present''" using assms(2) by (simp add: acceptable_def)
  note works = healthy_works[OF assms(1), of rule cid]
  have "working_service.owns held rule w"
    using assms(3) by (auto simp: working_service.owns_def[OF works] ownedByRule_def ownerHintPrefix_def)
  from working_service.reconcilePresent_settles[OF works TrueI assms(2) this] obtain ch w' i e where
    run: "reconcilePresent svc rule cid w = (Inr ch, w')" and e: "held w' i = Some e" "entriesEquivalent e (wanted rule)"
    and frame: "\<forall>j. j \<noteq> i \<longrightarrow> held w' j = held w j"
    unfolding working_service.settled_def[OF works] by blast
  let ?rule = "rule\<lparr>SPIREEntryID := Some i, ReconcileStatus := ''converged''\<rparr>"
  have d: "desiredEntry ?rule = Inr (wanted rule)"
    using acceptable_desired(1)[OF assms(2)] by (simp add: desiredEntry_bound)
  have eq: "entriesEquivalent e ((wanted rule)\<lparr>EntryID := EntryID e\<rparr>)" "EntryHint e = ''wtp-rule:'' @ RuleID rule"
    using e(2) by (simp_all add: equivalent_iff) (simp add: wanted_def)
  have "\<exists>w2. reconcileRule svc ?rule cid2 w' = (Inr False, w2) \<and> held w2 = held w'" for cid2
  proof -
    obtain w2 where g: "GetEntry (svc_spire svc) i w' = (Inr e, w2)" "held w2 = held w'"
      using healthy_get[OF assms(1), of i w'] e(1) by auto
    then show ?thesis using d eq present
      by (simp add: reconcileRule_def reconcilePresent_def Let_def ownedByRule_def ownerHintPrefix_def
          on_result_run(2)[where m = "GetEntry (svc_spire svc) i"] returns_def)
  qed
  moreover have "Some (the (ParentSPIFFEID rule)) = ParentSPIFFEID rule" using assms(2) by (auto simp: acceptable_def)
  ultimately show ?thesis
    using run e frame present by (intro exI[of _ ch] exI[of _ w'] exI[of _ i] exI[of _ e])
      (simp add: reconcileRule_def equivalent_iff same_key_def wanted_def)
qed

theorem reconcile_converges_witness:
  "\<exists>ch w' i e. reconcileRule memory_service example_present ''c'' [] = (Inr ch, w') \<and> held_in w' i = Some e
     \<and> EntryX509SVIDTTL e = 3600"
proof -
  have "validateDesiredFields ''present'' (Selectors example_present) (the (ParentSPIFFEID example_present))
      (X509SVIDTTLSeconds example_present) = None" "reg_validateSPIFFEID (WorkloadSPIFFEID example_present) = None"
    by code_simp+
  then have acc: "acceptable example_present" by (simp add: acceptable_def example_present_def)
  have none: "\<forall>i e. held_in [] i = Some e \<and> (same_key e (wanted example_present) \<or> SPIREEntryID example_present = Some i)
      \<longrightarrow> EntryHint e = ''wtp-rule:'' @ RuleID example_present"
    by (simp add: held_in_def)
  from reconcile_converges[where w = "[]" and cid = "''c''", OF memory_healthy acc none] obtain ch w' i e where
    "reconcileRule memory_service example_present ''c'' [] = (Inr ch, w')" "held_in w' i = Some e"
    "EntryX509SVIDTTL e = X509SVIDTTLSeconds example_present" by blast
  then show ?thesis by (auto simp: example_present_def)
qed

text \<open>
  Removing a bound entry: when the services work, one run on a rule that is to be absent and
  is bound to an entry of its own deletes that entry and no other, and reports the change; when the
  entry is gone already, it clears the binding, changes no entry and reports no change.
\<close>

theorem reconcile_removes:
  assumes "healthy svc held" "DesiredState rule = ''absent''" "SPIREEntryID rule = Some i"
    and "\<And>e. held w i = Some e \<Longrightarrow> EntryHint e = ''wtp-rule:'' @ RuleID rule"
  shows "\<exists>w'. reconcileRule svc rule cid w = (Inr (held w i \<noteq> None), w') \<and> held w' = (held w)(i := None)"
proof -
  note works = healthy_works[OF assms(1), of rule cid]
  have "working_service.owns held rule w"
    using assms(2-) by (auto simp: working_service.owns_def[OF works] ownedByRule_def ownerHintPrefix_def)
  from working_service.reconcileAbsent_settles[OF works TrueI this] assms(2,3) show ?thesis
    by (auto simp: reconcileRule_def)
qed

theorem reconcile_removes_witness:
  "\<exists>w'. reconcileRule memory_service example_absent ''c'' [example_entry] = (Inr True, w') \<and> held_in w' ''e1'' = None"
proof -
  have h: "held_in [example_entry] ''e1'' = Some example_entry" by (simp add: held_in_def example_entry_def)
  have "EntryHint e = ''wtp-rule:'' @ RuleID example_absent" if "held_in [example_entry] ''e1'' = Some e" for e
    using that h by (simp add: example_entry_def example_absent_def example_present_def)
  from reconcile_removes[where svc = memory_service and rule = example_absent and w = "[example_entry]" and i = "''e1''"
      and held = held_in and cid = "''c''", OF memory_healthy _ _ this] h
  obtain w' where "reconcileRule memory_service example_absent ''c'' [example_entry] = (Inr True, w')"
    "held_in w' = (held_in [example_entry])(''e1'' := None)" by (auto simp: example_absent_def)
  then show ?thesis by simp
qed



end
