(* ===== verification/Workload.thy ===== *)
theory Workload
  imports Database
begin

text \<open>
  \<open>internal/workload\<close>: the workloads of an organization, read with one query. PostgreSQL orders
  texts by the collation of the database, which is not part of the program: \<open>collation\<close> gives the
  sort key of a text, and texts with the same key are ordered by their bytes.
\<close>

record Workload =
  WorkloadID :: string
  WorkloadOrganizationID :: string
  TrustDomainID :: string
  WorkloadName :: string
  Environment :: string
  WorkloadSPIFFE :: string
  Status :: string
  LastSeenAt :: "int option"
  WorkloadCreatedAt :: int
  UpdatedAt :: int

datatype workload_error = QueryWorkloads pg_error

type_synonym collation = "string \<Rightarrow> string"

definition workload_order :: "collation \<Rightarrow> workload_row \<Rightarrow> ((string \<times> string) \<times> (string \<times> string) \<times> string)" where
  "workload_order collation w = ((collation (wl_environment w), wl_environment w), (collation (wl_name w), wl_name w), wl_id w)"

definition sql_list_workloads :: "collation \<Rightarrow> string \<Rightarrow> workload_row list stmt" where
  "sql_list_workloads collation organizationID u now t =
     (case uuid_in organizationID of
        None \<Rightarrow> Inl invalid_text
      | Some org \<Rightarrow> Inr (sort_key (workload_order collation) (filter (\<lambda>w. wl_org w = org) (workloads t)), t))"

definition scan_workload :: "workload_row \<Rightarrow> Workload" where
  "scan_workload r = \<lparr>WorkloadID = wl_id r, WorkloadOrganizationID = wl_org r, TrustDomainID = wl_trust_domain r,
     WorkloadName = wl_name r, Environment = wl_environment r, WorkloadSPIFFE = wl_spiffe_id r, Status = wl_status r,
     LastSeenAt = wl_last_seen r, WorkloadCreatedAt = wl_created r, UpdatedAt = wl_updated r\<rparr>"

definition ListByOrganization :: "pg \<Rightarrow> collation \<Rightarrow> string \<Rightarrow> (db, workload_error, Workload list) action" where
  "ListByOrganization pg collation organizationID =
     and_then (wrap_err QueryWorkloads (pool_stmt pg (sql_list_workloads collation organizationID)))
       (\<lambda>rows. returns (map scan_workload rows))"

section \<open>Lemmas\<close>

lemma sql_list_workloads_Inr:
  "sql_list_workloads collation i u now t = Inr (rows, t') \<longleftrightarrow> t' = t \<and> (\<exists>org. uuid_in i = Some org
     \<and> rows = sort_key (workload_order collation) (filter (\<lambda>w. wl_org w = org) (workloads t)))"
  by (auto simp: sql_list_workloads_def split: option.splits)

lemma ListByOrganization_reads: "ListByOrganization pg collation i s = (r, s') \<Longrightarrow> tables s' = tables s"
proof (cases r)
  case (Inl e)
  assume "ListByOrganization pg collation i s = (r, s')"
  with Inl obtain d where "pool_stmt pg (sql_list_workloads collation i) s = (Inl d, s')"
    by (auto simp: ListByOrganization_def action_Inl returns_def)
  from pool_stmt_Inl[OF this] show ?thesis by (auto simp: sql_list_workloads_Inr)
next
  case (Inr x)
  assume "ListByOrganization pg collation i s = (r, s')"
  with Inr show ?thesis by (auto simp: ListByOrganization_def pool_stmt_Inr sql_list_workloads_Inr)
qed

text \<open>The rows of the list, and their order.\<close>

definition listed_workloads :: "collation \<Rightarrow> string \<Rightarrow> workload_row list \<Rightarrow> Workload list" where
  "listed_workloads collation org rows = map scan_workload (sort_key (workload_order collation) (filter (\<lambda>w. wl_org w = org) rows))"

lemma ListByOrganization_rows:
  "ListByOrganization pg collation i s = (Inr items, s') \<longleftrightarrow> \<not> pg_fault pg (tick s) \<and> pg_commit pg (tick s) = Committed
     \<and> (\<exists>org. uuid_in i = Some org \<and> items = listed_workloads collation org (workloads (tables s)))
     \<and> s' = \<lparr>tables = tables s, tick = Suc (tick s), started = pg_now pg (tick s)\<rparr>"
  by (auto simp: ListByOrganization_def pool_stmt_Inr sql_list_workloads_Inr listed_workloads_def)

lemma listed_workloads_mset:
  "mset (listed_workloads collation org rows) = image_mset scan_workload (mset (filter (\<lambda>w. wl_org w = org) rows))"
  by (simp add: listed_workloads_def)

lemma listed_workloads_sorted:
  "sorted (map (\<lambda>x. ((collation (Environment x), Environment x), (collation (WorkloadName x), WorkloadName x), WorkloadID x))
     (listed_workloads collation org rows))"
proof -
  have key: "(\<lambda>x. ((collation (Environment x), Environment x), (collation (WorkloadName x), WorkloadName x), WorkloadID x))
      \<circ> scan_workload = workload_order collation"
    by (simp add: fun_eq_iff scan_workload_def workload_order_def)
  show ?thesis unfolding listed_workloads_def map_map key by (rule sorted_sort_key)
qed

section \<open>Properties\<close>

text \<open>
  A list of an organization's workloads is complete, exact and ordered: it holds every workload
  of that organization and no other, once each, with the stored fields, ordered by environment,
  then name, then ID; it changes no table, and the organization ID was a UUID.
\<close>

theorem ListByOrganization_exact:
  assumes "ListByOrganization pg collation i s = (Inr items, s')"
  shows "\<exists>org. uuid_in i = Some org \<and> mset items = image_mset scan_workload (mset (filter (\<lambda>w. wl_org w = org) (workloads (tables s))))
    \<and> sorted (map (\<lambda>x. ((collation (Environment x), Environment x), (collation (WorkloadName x), WorkloadName x), WorkloadID x)) items)
    \<and> (\<forall>x \<in> set items. WorkloadOrganizationID x = org) \<and> tables s' = tables s"
  using assms listed_workloads_mset[of collation _ "workloads (tables s)"] listed_workloads_sorted[of collation _ "workloads (tables s)"]
  unfolding ListByOrganization_rows by (auto simp: listed_workloads_def scan_workload_def)

theorem ListByOrganization_exact_witness:
  "\<exists>items s'. ListByOrganization example_pg (\<lambda>s. s) (uuid_n 90) example_db = (Inr items, s')
     \<and> mset items = {# scan_workload example_workload #}"
proof -
  have "\<not> isl (fst (ListByOrganization example_pg (\<lambda>s. s) (uuid_n 90) example_db))" by code_simp
  then obtain items s' where run: "ListByOrganization example_pg (\<lambda>s. s) (uuid_n 90) example_db = (Inr items, s')"
    by (metis isl_def prod.collapse sum.exhaust_sel sum.disc(1))
  have "uuid_in (uuid_n 90) = Some (uuid_n 90)" by code_simp
  with ListByOrganization_exact[OF run] run show ?thesis
    by (auto simp: example_db_def example_tables_def example_workload_def)
qed

end
