(* ===== verification/GoHttp.thy ===== *)
theory GoHttp
  imports GoUrl "HOL-Library.AList"
begin

text \<open>
  What \<open>internal/httpapi\<close> uses of the standard library: the header of a response, the query of a
  URL (\<open>net/url\<close>), \<open>mime.ParseMediaType\<close>, and the routing of \<open>http.ServeMux\<close> with method, literal,
  wildcard and subtree patterns. All but the header are as of Go 1.26.
\<close>

section \<open>Requests and headers\<close>

text \<open>
  A request as the server hands it to the handler: its method, the request target, the parsed URL,
  the two header fields the program reads (the empty string when absent) and the whole body.
\<close>

record Request =
  rq_Method :: string
  rq_RequestURI :: string
  rq_URL :: url
  rq_Authorization :: string
  rq_ContentType :: string
  rq_Body :: string

type_synonym header = "(string \<times> string) list"

definition Header_Set :: "string \<Rightarrow> string \<Rightarrow> header \<Rightarrow> header" where
  "Header_Set k v h = AList.update k v h"

definition Header_Get :: "string \<Rightarrow> header \<Rightarrow> string" where
  "Header_Get k h = (case map_of h k of None \<Rightarrow> [] | Some v \<Rightarrow> v)"

lemma Header_Get_Set [simp]: "Header_Get k (Header_Set k' v h) = (if k = k' then v else Header_Get k h)"
  by (simp add: Header_Get_def Header_Set_def update_conv')

record Response =
  rs_Status :: int
  rs_Header :: header
  rs_Body :: string

section \<open>The query\<close>

definition QueryUnescape :: "string \<Rightarrow> string option" where
  "QueryUnescape s = unescape s EncQuery"

definition maxQueryParams :: nat where "maxQueryParams = 10000"

text \<open>One piece between ampersands: dropped when it has a semicolon or a malformed escape.\<close>

definition query_pair :: "string \<Rightarrow> (string \<times> string) option" where
  "query_pair piece =
     (if CHR '';'' \<in> set piece \<or> piece = [] then None
      else (case Cut piece CHR ''='' of (k, v, _) \<Rightarrow>
        (case (QueryUnescape k, QueryUnescape v) of (Some k', Some v') \<Rightarrow> Some (k', v') | _ \<Rightarrow> None)))"

definition URL_Query :: "url \<Rightarrow> (string \<times> string) list" where
  "URL_Query u = (let pieces = Split (u_raw_query u) CHR ''&'' in
     if maxQueryParams < length pieces then [] else List.map_filter query_pair pieces)"

definition Values_Get :: "string \<Rightarrow> (string \<times> string) list \<Rightarrow> string" where
  "Values_Get k vs = (case map_of vs k of None \<Rightarrow> [] | Some v \<Rightarrow> v)"

section \<open>Media types\<close>

definition TrimLeftSpace :: "string \<Rightarrow> string" where
  "TrimLeftSpace s = concat (map snd (dropWhile (\<lambda>(r, _). IsSpace r) (segs s)))"

definition isTSpecial :: "char \<Rightarrow> bool" where
  "isTSpecial c \<longleftrightarrow> c \<in> set (''()<>@,;:/[]?='' @ [char_of (92::nat), char_of (34::nat)])"

definition isTokenChar :: "char \<Rightarrow> bool" where
  "isTokenChar c \<longleftrightarrow> byte_in 33 126 c \<and> \<not> isTSpecial c"

definition consumeToken :: "string \<Rightarrow> string \<times> string" where
  "consumeToken v = (takeWhile isTokenChar v, dropWhile isTokenChar v)"

text \<open>The rest of a quoted string, or nothing when it does not end or holds a line break.\<close>

fun quoted_value :: "string \<Rightarrow> string \<Rightarrow> (string \<times> string) option" where
  "quoted_value buf [] = None"
| "quoted_value buf (c # cs) =
     (if byte c = 34 then Some (buf, cs)
      else if byte c = 92 then
        (case cs of
           d # ds \<Rightarrow> if isTSpecial d then quoted_value (buf @ [d]) ds else quoted_value (buf @ [c]) cs
         | [] \<Rightarrow> quoted_value (buf @ [c]) cs)
      else if byte c = 13 \<or> byte c = 10 then None
      else quoted_value (buf @ [c]) cs)"

definition consumeValue :: "string \<Rightarrow> string \<times> string" where
  "consumeValue v =
     (case v of
        [] \<Rightarrow> ([], [])
      | c # cs \<Rightarrow> if byte c \<noteq> 34 then consumeToken v
          else (case quoted_value [] cs of None \<Rightarrow> ([], v) | Some r \<Rightarrow> r))"

definition consumeMediaParam :: "string \<Rightarrow> (string \<times> string \<times> string) option" where
  "consumeMediaParam v =
     (let rest = TrimLeftSpace v in
      if \<not> HasPrefix rest '';'' then None
      else (case consumeToken (TrimLeftSpace (tl rest)) of (param, rest1) \<Rightarrow>
        let p = ToLower param; rest2 = TrimLeftSpace rest1 in
        if p = [] \<or> \<not> HasPrefix rest2 ''='' then None
        else (let rest3 = TrimLeftSpace (tl rest2) in
          case consumeValue rest3 of (val, rest4) \<Rightarrow>
            if val = [] \<and> rest4 = rest3 then None else Some (p, val, rest4))))"

lemma segs_concat: "concat (map snd (segs s)) = s"
  by (rule segs_join)

lemma TrimLeftSpace_length: "length (TrimLeftSpace s) \<le> length s"
proof -
  let ?sp = "\<lambda>(r, _). IsSpace r"
  have "s = concat (map snd (takeWhile ?sp (segs s))) @ TrimLeftSpace s"
    unfolding TrimLeftSpace_def by (metis concat_append map_append segs_concat takeWhile_dropWhile_id)
  then have "length s = length (concat (map snd (takeWhile ?sp (segs s)))) + length (TrimLeftSpace s)"
    by (metis length_append)
  then show ?thesis by simp
qed

lemma quoted_value_length: "quoted_value buf v = Some (a, r) \<Longrightarrow> length r < length v"
proof (induction buf v rule: quoted_value.induct)
  case (2 buf c cs)
  consider "byte c = 34" | d ds where "byte c = 92" "cs = d # ds" "isTSpecial d" "quoted_value (buf @ [d]) ds = Some (a, r)"
    | d ds where "byte c = 92" "cs = d # ds" "\<not> isTSpecial d" "quoted_value (buf @ [c]) cs = Some (a, r)"
    | "byte c = 92" "cs = []" "quoted_value (buf @ [c]) [] = Some (a, r)" | "byte c \<noteq> 34" "byte c \<noteq> 92" "\<not> (byte c = 13 \<or> byte c = 10)" "quoted_value (buf @ [c]) cs = Some (a, r)"
    using "2.prems" by (cases cs) (auto split: if_splits)
  then show ?case
  proof cases
    case (2 d ds)
    then show ?thesis using "2.IH"(2) by simp
  next
    case (3 d ds)
    then show ?thesis using "2.IH"(3) by simp
  next
    case 5
    then show ?thesis using "2.IH"(4) by simp
  qed (use "2.prems" in \<open>simp_all\<close>)
qed simp

lemma consumeValue_length: "consumeValue v = (a, r) \<Longrightarrow> length r \<le> length v"
  using length_dropWhile_le[of isTokenChar v]
  by (auto simp: consumeValue_def consumeToken_def dest: quoted_value_length
      simp del: dropWhile.simps takeWhile.simps split: list.splits if_splits option.splits)

lemma consumeMediaParam_length:
  assumes "consumeMediaParam v = Some (p, a, r)"
  shows "length r < length v"
proof -
  from assms obtain val rest4 where
    h: "HasPrefix (TrimLeftSpace v) '';''" and
    h2: "HasPrefix (TrimLeftSpace (dropWhile isTokenChar (TrimLeftSpace (tl (TrimLeftSpace v))))) ''=''" and
    c: "consumeValue (TrimLeftSpace (tl (TrimLeftSpace (dropWhile isTokenChar (TrimLeftSpace (tl (TrimLeftSpace v))))))) = (a, r)"
    by (auto simp: consumeMediaParam_def Let_def consumeToken_def split: if_splits prod.splits)
  have "length r \<le> length (dropWhile isTokenChar (TrimLeftSpace (tl (TrimLeftSpace v))))"
    using consumeValue_length[OF c] TrimLeftSpace_length[of "tl (TrimLeftSpace (dropWhile isTokenChar (TrimLeftSpace (tl (TrimLeftSpace v)))))"]
      TrimLeftSpace_length[of "dropWhile isTokenChar (TrimLeftSpace (tl (TrimLeftSpace v)))"] by simp
  also have "\<dots> \<le> length (tl (TrimLeftSpace v))"
    using length_dropWhile_le TrimLeftSpace_length le_trans by blast
  also have "\<dots> < length (TrimLeftSpace v)" using h by (cases "TrimLeftSpace v") (auto simp: HasPrefix_def)
  finally show ?thesis using TrimLeftSpace_length[of v] by simp
qed

text \<open>
  The parameters only have to be well-formed, with no two different values under one name.
\<close>

function media_params_ok :: "(string \<times> string) list \<Rightarrow> string \<Rightarrow> bool" where
  "media_params_ok seen v0 =
     (let v = TrimLeftSpace v0 in
      if v = [] then True
      else (case consumeMediaParam v of
          None \<Rightarrow> TrimSpace v = '';''
        | Some (key, val, rest) \<Rightarrow>
            (case map_of seen key of
               Some old \<Rightarrow> if old \<noteq> val then False else media_params_ok seen rest
             | None \<Rightarrow> media_params_ok ((key, val) # seen) rest)))"
  by pat_completeness auto
termination
  by (relation "measure (\<lambda>(seen, v). length v)")
    (auto dest!: consumeMediaParam_length intro: less_le_trans[OF _ TrimLeftSpace_length])

declare media_params_ok.simps [simp del]

definition media_type_ok :: "string \<Rightarrow> bool" where
  "media_type_ok s =
     (case consumeToken s of (typ, rest) \<Rightarrow>
        typ \<noteq> [] \<and> (rest = [] \<or> HasPrefix rest ''/''
          \<and> (case consumeToken (tl rest) of (subtype, rest') \<Rightarrow> subtype \<noteq> [] \<and> rest' = [])))"

text \<open>The media type, when there is no error.\<close>

definition ParseMediaType :: "string \<Rightarrow> string option" where
  "ParseMediaType v =
     (let base = fst (Cut v CHR '';''); mediatype = TrimSpace (ToLower base) in
      if \<not> media_type_ok mediatype then None
      else if media_params_ok [] (drop (length base) v) then Some mediatype else None)"

section \<open>Routing\<close>

datatype pseg = Lit string | Wild | Multi

datatype 'h route = Route (route_method: "string option") (route_segs: "pseg list") (route_handler: 'h)

definition pathUnescape :: "string \<Rightarrow> string" where
  "pathUnescape s = (case unescape s EncPath of None \<Rightarrow> s | Some t \<Rightarrow> t)"

definition firstSegment :: "string \<Rightarrow> string \<times> string" where
  "firstSegment path = (if path = ''/'' then (''/'', [])
     else (pathUnescape (takeWhile (\<lambda>c. c \<noteq> CHR ''/'') (tl path)), dropWhile (\<lambda>c. c \<noteq> CHR ''/'') (tl path)))"

text \<open>A node of the routing tree: the patterns that agree so far, with what remains of each.\<close>

type_synonym 'h node = "(pseg list \<times> 'h route) list"

definition children :: "pseg \<Rightarrow> 'h node \<Rightarrow> 'h node" where
  "children p node = List.map_filter (\<lambda>(ps, r). case ps of q # qs \<Rightarrow> if q = p then Some (qs, r) else None
     | [] \<Rightarrow> None) node"

lemma firstSegment_shorter: "path \<noteq> [] \<Longrightarrow> firstSegment path = (seg, rest) \<Longrightarrow> length rest < length path"
  by (cases path) (auto simp: firstSegment_def le_imp_less_Suc length_dropWhile_le split: if_splits)

text \<open>A literal segment wins over a wildcard, and a wildcard over the rest of the path.\<close>

function match_path :: "'h node \<Rightarrow> string \<Rightarrow> string list \<Rightarrow> ('h route \<times> string list) option" where
  "match_path node path matches =
     (if path = [] then map_option (\<lambda>(ps, r). (r, matches)) (find (\<lambda>(ps, r). ps = []) node)
      else (case firstSegment path of (seg, rest) \<Rightarrow>
        (case match_path (children (Lit seg) node) rest matches of
           Some m \<Rightarrow> Some m
         | None \<Rightarrow>
             (case (if seg \<noteq> ''/'' then match_path (children Wild node) rest (matches @ [seg]) else None) of
                Some m \<Rightarrow> Some m
              | None \<Rightarrow> map_option (\<lambda>(ps, r). (r, matches)) (find (\<lambda>(ps, r). ps = [Multi]) node)))))"
  by pat_completeness auto
termination
  by (relation "measure (\<lambda>(node, path, matches). length path)") (auto dest: firstSegment_shorter[OF _ sym])

declare match_path.simps [simp del]

definition method_node :: "'h route list \<Rightarrow> string option \<Rightarrow> 'h node" where
  "method_node routes m = map (\<lambda>r. (route_segs r, r)) (filter (\<lambda>r. route_method r = m) routes)"

definition match_method_path :: "'h route list \<Rightarrow> string \<Rightarrow> string \<Rightarrow> ('h route \<times> string list) option" where
  "match_method_path routes m path =
     (case match_path (method_node routes (Some m)) path [] of
        Some r \<Rightarrow> Some r
      | None \<Rightarrow>
          (case (if m = ''HEAD'' then match_path (method_node routes (Some ''GET'')) path [] else None) of
             Some r \<Rightarrow> Some r
           | None \<Rightarrow> match_path (method_node routes None) path []))"

definition exactMatch :: "('h route \<times> string list) option \<Rightarrow> string \<Rightarrow> bool" where
  "exactMatch m path =
     (case m of
        None \<Rightarrow> False
      | Some (r, _) \<Rightarrow>
          if last (route_segs r) \<noteq> Multi then True
          else if path \<noteq> [] \<and> last path \<noteq> CHR ''/'' then False
          else length (route_segs r) = length (filter (\<lambda>c. c = CHR ''/'') path))"

text \<open>Whether the path is redirected to the same path with a slash.\<close>

definition slash_redirect :: "'h route list \<Rightarrow> string \<Rightarrow> string \<Rightarrow> bool" where
  "slash_redirect routes m path \<longleftrightarrow> \<not> exactMatch (match_method_path routes m path) path
     \<and> \<not> HasSuffix path ''/'' \<and> path \<noteq> [] \<and> exactMatch (match_method_path routes m (path @ ''/'')) (path @ ''/'')"

text \<open>\<open>path.Clean\<close> of a rooted path, by its segments.\<close>

fun clean_segments :: "string list \<Rightarrow> string list \<Rightarrow> string list" where
  "clean_segments done [] = done"
| "clean_segments done (x # xs) =
     (if x = [] \<or> x = ''.'' then clean_segments done xs
      else if x = ''..'' then clean_segments (butlast done) xs
      else clean_segments (done @ [x]) xs)"

definition path_Clean :: "string \<Rightarrow> string" where
  "path_Clean p = ''/'' @ join_with CHR ''/'' (clean_segments [] (Split p CHR ''/''))"

definition cleanPath :: "string \<Rightarrow> string" where
  "cleanPath p0 =
     (if p0 = [] then ''/''
      else (let p = (if hd p0 \<noteq> CHR ''/'' then ''/'' @ p0 else p0); np = path_Clean p in
        if last p = CHR ''/'' \<and> np \<noteq> ''/'' then np @ ''/'' else np))"

text \<open>
  What a mux does with a request: the target is the asterisk, it redirects, nothing matches, or a
  handler serves it with the path values.
\<close>

datatype 'h routed = BadTarget | Moved | Unmatched | Routed 'h "string list"

definition mux_route :: "'h route list \<Rightarrow> Request \<Rightarrow> 'h routed" where
  "mux_route routes req =
     (let m = rq_Method req; escaped = EscapedPath (rq_URL req);
          path = (if m = ''CONNECT'' then escaped else cleanPath escaped) in
      if rq_RequestURI req = ''*'' then BadTarget
      else if slash_redirect routes m path then Moved
      else if path \<noteq> escaped then Moved
      else (case match_method_path routes m path of
          None \<Rightarrow> Unmatched
        | Some (r, vals) \<Rightarrow> Routed (route_handler r) vals))"

end
