(* ===== verification/GoDecode.thy ===== *)
theory GoDecode
  imports GoJson
begin

text \<open>
  \<open>json.NewDecoder\<close> over a request body with a size limit: the first value of a stream whose
  reader fails once the limit is passed, whether anything but blanks follows it, and the decoding of
  a value into a Go struct with unknown fields disallowed. A struct is decoded by the list of its
  fields: the JSON name of each with the function that decodes a value into it.
\<close>

section \<open>The first value of a limited stream\<close>

text \<open>What is left of a text where its last lexeme is cut off.\<close>

function cut_tail :: "string \<Rightarrow> string" where
  "cut_tail [] = []"
| "cut_tail (c # cs) =
     (if is_json_space c then cut_tail cs
      else (case scan_token c cs of ScanOk t r \<Rightarrow> cut_tail r | _ \<Rightarrow> c # cs))"
  by pat_completeness auto
termination
  by (relation "measure length") (auto dest: scan_token_shorter)

text \<open>The kind of lexeme a first byte begins.\<close>

definition begun_token :: "char \<Rightarrow> token" where
  "begun_token c = (if c = quote then TStr [] else if c = CHR ''t'' then TTrue else if c = CHR ''f'' then TFalse
     else if c = CHR ''n'' then TNull else TNum [])"

definition is_scalar :: "json \<Rightarrow> bool" where
  "is_scalar v = (case v of JArr _ \<Rightarrow> False | JObj _ \<Rightarrow> False | _ \<Rightarrow> True)"

datatype first_value = FirstValue json bool | StreamTooLarge | StreamMalformed

text \<open>
  The reader gives the first \<open>limit\<close> bytes and then, if there are more, its error. A malformed
  prefix is an error before the reader's is seen. A number, string or literal at the top level is
  complete only when a byte follows it or the stream ends. The flag says that nothing but blanks
  follows.
\<close>

definition first_value :: "nat \<Rightarrow> string \<Rightarrow> first_value" where
  "first_value limit body =
     (let avail = take limit body; cut = limit < length body in
      case lex avail of (ts, e) \<Rightarrow>
        (case jrun ts WantValue [] of
           ParseBad \<Rightarrow> StreamMalformed
         | ParseOk v rest \<Rightarrow>
             if cut \<and> is_scalar v \<and> rest = [] \<and> e = LexDone \<and> \<not> is_json_space (last avail)
             then StreamTooLarge
             else FirstValue v (rest = [] \<and> e = LexDone \<and> \<not> cut)
         | ParseMore \<Rightarrow>
             (case e of
                LexBad \<Rightarrow> StreamMalformed
              | LexDone \<Rightarrow> if cut then StreamTooLarge else StreamMalformed
              | LexCut \<Rightarrow>
                  if cut \<and> jrun (ts @ [begun_token (hd (cut_tail avail))]) WantValue [] \<noteq> ParseBad
                  then StreamTooLarge else StreamMalformed)))"

section \<open>Fields\<close>

type_synonym 'r field = "string \<times> (json \<Rightarrow> 'r \<Rightarrow> 'r option)"

text \<open>
  Field names are matched exactly or else with their case folded: to the smallest code point of the
  folding orbit, which is an ASCII letter only for the letters and for U+017F and U+212A.
\<close>

definition fold_rune :: "nat \<Rightarrow> nat" where
  "fold_rune r = (if 97 \<le> r \<and> r \<le> 122 then r - 32 else if r = 383 then 83 else if r = 8490 then 75 else r)"

definition folded :: "string \<Rightarrow> nat list" where
  "folded s = map fold_rune (runes s)"

definition find_field :: "string \<Rightarrow> 'r field list \<Rightarrow> (json \<Rightarrow> 'r \<Rightarrow> 'r option) option" where
  "find_field key fields =
     (case map_of fields key of
        Some d \<Rightarrow> Some d
      | None \<Rightarrow> map_option snd (find (\<lambda>(k, d). folded k = folded key) fields))"

fun decode_members :: "'r field list \<Rightarrow> (string \<times> json) list \<Rightarrow> 'r \<Rightarrow> 'r option" where
  "decode_members fields [] r = Some r"
| "decode_members fields ((key, v) # ms) r =
     (case find_field key fields of
        None \<Rightarrow> None
      | Some d \<Rightarrow> (case d v r of None \<Rightarrow> None | Some r' \<Rightarrow> decode_members fields ms r'))"

definition decode_struct :: "'r field list \<Rightarrow> json \<Rightarrow> 'r \<Rightarrow> 'r option" where
  "decode_struct fields v r = (case v of JObj ms \<Rightarrow> decode_members fields ms r | JNull \<Rightarrow> Some r | _ \<Rightarrow> None)"

text \<open>\<open>null\<close> leaves a string or an integer as it is.\<close>

definition decode_string :: "json \<Rightarrow> string \<Rightarrow> string option" where
  "decode_string v old = (case v of JStr s \<Rightarrow> Some s | JNull \<Rightarrow> Some old | _ \<Rightarrow> None)"

definition digits_value :: "string \<Rightarrow> int" where
  "digits_value ds = foldl (\<lambda>n c. n * 10 + int (byte c - 48)) 0 ds"

definition ParseInt :: "string \<Rightarrow> int option" where
  "ParseInt s = (let neg = HasPrefix s ''-''; ds = (if neg then tl s else s) in
     if ds = [] \<or> \<not> list_all is_digit ds then None
     else (let i = (if neg then - digits_value ds else digits_value ds) in if in_int64 i then Some i else None))"

definition decode_int :: "(int \<Rightarrow> bool) \<Rightarrow> json \<Rightarrow> int \<Rightarrow> int option" where
  "decode_int in_range v old =
     (case v of
        JNum n \<Rightarrow> (case ParseInt n of Some i \<Rightarrow> if in_range i then Some i else None | None \<Rightarrow> None)
      | JNull \<Rightarrow> Some old
      | _ \<Rightarrow> None)"

text \<open>
  A slice of strings keeps its backing array when it is decoded into again: an element \<open>null\<close>
  leaves what the array holds there. The state of a slice is its elements and what the array holds
  after them.
\<close>

type_synonym slice = "string list \<times> string list"

fun decode_cells :: "json list \<Rightarrow> string list \<Rightarrow> string list option" where
  "decode_cells [] old = Some []"
| "decode_cells (v # vs) old =
     (case decode_string v (case old of [] \<Rightarrow> [] | x # _ \<Rightarrow> x) of
        None \<Rightarrow> None
      | Some s \<Rightarrow> map_option ((#) s) (decode_cells vs (tl old)))"

definition decode_slice :: "json \<Rightarrow> slice \<Rightarrow> slice option" where
  "decode_slice v old =
     (case v of
        JArr vs \<Rightarrow> map_option (\<lambda>new. (new, if vs = [] then [] else drop (length vs) (fst old @ snd old)))
          (decode_cells vs (fst old @ snd old))
      | JNull \<Rightarrow> Some ([], [])
      | _ \<Rightarrow> None)"

section \<open>Lemmas\<close>

lemma decode_cells_JStr [simp]: "decode_cells (map JStr xs) old = Some xs"
  by (induction xs arbitrary: old) (simp_all add: decode_string_def)

lemma decode_slice_JStr [simp]: "decode_slice (JArr (map JStr xs)) ([], []) = Some (xs, [])"
  by (simp add: decode_slice_def)

lemma digits_value_append: "digits_value (xs @ [d]) = digits_value xs * 10 + int (byte d - 48)"
  by (simp add: digits_value_def)

lemma digits_value_show: "digits_value (show_nat n) = int n"
proof (induction n rule: show_nat.induct)
  case (1 n)
  show ?case
  proof (cases "n < 10")
    case True
    then show ?thesis by (subst show_nat.simps) (simp add: digits_value_def)
  next
    case False
    then have "digits_value (show_nat n) = digits_value (show_nat (n div 10)) * 10 + int (n mod 10)"
      by (subst show_nat.simps) (simp add: digits_value_append)
    with 1 False show ?thesis by (simp flip: of_nat_mult of_nat_add) presburger
  qed
qed

lemma ParseInt_show:
  assumes "in_int64 i"
  shows "ParseInt (show_int i) = Some i"
proof -
  have d: "show_nat n \<noteq> []" "list_all is_digit (show_nat n)" for n
    using show_nat_digits[of n] by (auto simp: list_all_iff)
  have nm: "\<not> HasPrefix (show_nat n) ''-''" for n
    using digit_not_minus[of "show_nat n" "[]"] d[of n] by simp
  show ?thesis
  proof (cases "i < 0")
    case True
    with d assms show ?thesis by (simp add: ParseInt_def show_int_def Let_def digits_value_show HasPrefix_def)
  next
    case False
    with d nm assms show ?thesis by (simp add: ParseInt_def show_int_def Let_def digits_value_show)
  qed
qed

lemma decode_int_show [simp]: "in_int64 i \<Longrightarrow> in_range i \<Longrightarrow> decode_int in_range (json_int i) old = Some i"
  by (simp add: decode_int_def json_int_def ParseInt_show)

text \<open>A marshalled value within the limit is read back, and nothing follows it.\<close>

lemma first_value_whole:
  assumes "length body \<le> limit" and "json_parse body = Some v"
  shows "first_value limit body = FirstValue v True"
proof -
  obtain ts e where l: "lex body = (ts, e)" by fastforce
  with assms(2) have "e = LexDone" "jrun ts WantValue [] = ParseOk v []"
    by (auto simp: json_parse_def split: lex_end.splits parse_result.splits list.splits)
  with l assms(1) show ?thesis by (simp add: first_value_def)
qed

lemma first_value_flag: "first_value limit body = FirstValue v True \<Longrightarrow> length body \<le> limit \<and> json_parse body = Some v"
proof -
  assume a: "first_value limit body = FirstValue v True"
  obtain ts e where l: "lex (take limit body) = (ts, e)" by fastforce
  with a have "length body \<le> limit" "e = LexDone" "jrun ts WantValue [] = ParseOk v []"
    by (auto simp: first_value_def Let_def split: parse_result.splits lex_end.splits if_splits)
  with l show ?thesis by (simp add: json_parse_def)
qed

end
