(* ===== verification/GoTime.thy ===== *)
theory GoTime
  imports Prelude
begin

text \<open>
  The part of Go's \<open>time\<close> the responses use: a time as \<open>encoding/json\<close> writes it, which is RFC 3339 with
  the fraction of the second, in the time zone of the process. A time is the count of microseconds since
  1970-01-01 in UTC, which is what PostgreSQL keeps; a zone gives the seconds east of UTC at a time.
\<close>

section \<open>Dates\<close>

definition leap :: "int \<Rightarrow> bool" where
  "leap y \<longleftrightarrow> 4 dvd y \<and> (\<not> 100 dvd y \<or> 400 dvd y)"

definition year_days :: "int \<Rightarrow> int" where
  "year_days y = (if leap y then 366 else 365)"

definition month_days :: "int \<Rightarrow> int \<Rightarrow> int" where
  "month_days y m = (if m = 2 then (if leap y then 29 else 28) else if m = 4 \<or> m = 6 \<or> m = 9 \<or> m = 11 then 30 else 31)"

text \<open>The year and the day of that year, \<open>d\<close> days after the start of the year \<open>y\<close>; the month and the day in it.\<close>

function year_walk :: "int \<Rightarrow> int \<Rightarrow> int \<times> int" where
  "year_walk y d = (if d < year_days y then (y, d) else year_walk (y + 1) (d - year_days y))"
  by auto

termination
  by (relation "measure (\<lambda>(y, d). nat d)") (auto simp: year_days_def split: if_splits)

function month_walk :: "int \<Rightarrow> int \<Rightarrow> int \<Rightarrow> int \<times> int" where
  "month_walk y m d = (if d < month_days y m \<or> 12 \<le> m then (m, d) else month_walk y (m + 1) (d - month_days y m))"
  by auto

termination
  by (relation "measure (\<lambda>(y, m, d). nat (12 - m))") auto

declare year_walk.simps [simp del] month_walk.simps [simp del]

text \<open>
  The date of a day, counted from 1970-01-01: the calendar repeats every 400 years, which are 146097
  days, and the day 0000-01-01 is 719528 days earlier.
\<close>

definition civil :: "int \<Rightarrow> int \<times> int \<times> int" where
  "civil days = (let n = days + 719528 in
     case year_walk (400 * (n div 146097)) (n mod 146097) of
       (y, r) \<Rightarrow> (case month_walk y 1 r of (m, d) \<Rightarrow> (y, m, d + 1)))"

definition next_day :: "int \<times> int \<times> int \<Rightarrow> int \<times> int \<times> int" where
  "next_day date = (case date of (y, m, d) \<Rightarrow>
     if d < month_days y m then (y, m, d + 1) else if m < 12 then (y, m + 1, 1) else (y + 1, 1, 1))"

section \<open>The text of a time\<close>

fun padded :: "nat \<Rightarrow> int \<Rightarrow> string" where
  "padded 0 n = []"
| "padded (Suc k) n = padded k (n div 10) @ [char_of (48 + nat (n mod 10))]"

definition fraction_text :: "int \<Rightarrow> string" where
  "fraction_text us = (if us = 0 then [] else CHR ''.'' # rev (dropWhile (\<lambda>c. c = CHR ''0'') (rev (padded 6 us))))"

definition zone_text :: "int \<Rightarrow> string" where
  "zone_text offset = (if offset = 0 then ''Z''
     else (let minutes = abs offset div 60 in
       (if offset \<le> -60 then ''-'' else ''+'') @ padded 2 (minutes div 60) @ '':'' @ padded 2 (minutes mod 60)))"

text \<open>\<open>time.Time.MarshalJSON\<close> without the quotes: it fails when the year has no four digits or the offset is a day or more.\<close>

definition MarshalTime :: "(int \<Rightarrow> int) \<Rightarrow> int \<Rightarrow> string option" where
  "MarshalTime zone t =
     (let offset = zone t; local = t + offset * 10 ^ 6; s = local mod (86400 * 10 ^ 6) div 10 ^ 6 in
      case civil (local div (86400 * 10 ^ 6)) of
        (y, m, d) \<Rightarrow>
          if y < 0 \<or> 9999 < y \<or> 86400 \<le> abs offset then None
          else Some (padded 4 y @ ''-'' @ padded 2 m @ ''-'' @ padded 2 d @ ''T''
            @ padded 2 (s div 3600) @ '':'' @ padded 2 (s div 60 mod 60) @ '':'' @ padded 2 (s mod 60)
            @ fraction_text (local mod 10 ^ 6) @ zone_text offset))"

section \<open>The calendar is the calendar\<close>

lemma year_days_bounds: "365 \<le> year_days y" "year_days y \<le> 366" "0 < year_days y"
  by (simp_all add: year_days_def)

lemma month_days_bounds: "28 \<le> month_days y m" "month_days y m \<le> 31" "0 < month_days y m"
  by (simp_all add: month_days_def)

lemma year_walk_next:
  "year_walk y (d + 1) = (case year_walk y d of (y', d') \<Rightarrow> if d' + 1 < year_days y' then (y', d' + 1) else (y' + 1, 0))"
proof (induction y d rule: year_walk.induct)
  case (1 y d)
  consider "d + 1 < year_days y" | "d + 1 = year_days y" | "year_days y \<le> d" by linarith
  then show ?case
  proof cases
    case 2
    then show ?thesis using year_days_bounds(3)[of "y + 1"] by (simp add: year_walk.simps[of y] year_walk.simps[of "y + 1" 0])
  next
    case 3
    with 1 have "year_walk (y + 1) (d - year_days y + 1) = (case year_walk (y + 1) (d - year_days y) of
      (y', d') \<Rightarrow> if d' + 1 < year_days y' then (y', d' + 1) else (y' + 1, 0))" by simp
    with 3 show ?thesis by (simp add: year_walk.simps[of y] algebra_simps)
  qed (simp add: year_walk.simps[of y])
qed

lemma month_walk_next:
  "month_walk y m (d + 1) = (case month_walk y m d of (m', d') \<Rightarrow>
     if d' + 1 < month_days y m' \<or> 12 \<le> m' then (m', d' + 1) else (m' + 1, 0))"
proof (induction y m d rule: month_walk.induct)
  case (1 y m d)
  consider "d + 1 < month_days y m \<or> 12 \<le> m" | "d + 1 = month_days y m" "m < 12" | "month_days y m \<le> d" "m < 12" by linarith
  then show ?case
  proof cases
    case 2
    then show ?thesis using month_days_bounds(3)[of y "m + 1"] by (simp add: month_walk.simps[of y m] month_walk.simps[of y "m + 1" 0])
  next
    case 3
    with 1 have "month_walk y (m + 1) (d - month_days y m + 1) = (case month_walk y (m + 1) (d - month_days y m) of
      (m', d') \<Rightarrow> if d' + 1 < month_days y m' \<or> 12 \<le> m' then (m', d' + 1) else (m' + 1, 0))" by simp
    with 3 show ?thesis by (simp add: month_walk.simps[of y m] algebra_simps)
  qed (auto simp add: month_walk.simps[of y m])
qed

lemma year_walk_day: "0 \<le> d \<Longrightarrow> case year_walk y d of (y', d') \<Rightarrow> 0 \<le> d' \<and> d' < year_days y'"
proof (induction y d rule: year_walk.induct)
  case (1 y d)
  then show ?case by (cases "d < year_days y") (simp_all add: year_walk.simps[of y])
qed

text \<open>The days from the start of a month to the end of the year.\<close>

definition days_left :: "int \<Rightarrow> int \<Rightarrow> int" where
  "days_left y m = (\<Sum>k \<in> {m..12}. month_days y k)"

lemma days_left_step: "m \<le> 12 \<Longrightarrow> days_left y m = month_days y m + days_left y (m + 1)"
proof -
  assume "m \<le> 12"
  then have "{m..12} = insert m {m + 1..12}" by auto
  then show ?thesis by (simp add: days_left_def)
qed

lemma days_left_year: "days_left y 1 = year_days y"
proof -
  have "days_left y 13 = 0" by (simp add: days_left_def)
  then show ?thesis by (simp add: days_left_step month_days_def year_days_def)
qed

lemma month_walk_day:
  "0 \<le> d \<Longrightarrow> m \<le> 12 \<Longrightarrow> d < days_left y m \<Longrightarrow>
     case month_walk y m d of (m', d') \<Rightarrow> m' \<le> 12 \<and> d' < month_days y m' \<and> days_left y m - d = days_left y m' - d'"
proof (induction y m d rule: month_walk.induct)
  case (1 y m d)
  show ?case
  proof (cases "d < month_days y m \<or> 12 \<le> m")
    case True
    have "days_left y 13 = 0" by (simp add: days_left_def)
    with True 1(3,4) show ?thesis by (auto simp: month_walk.simps[of y m] days_left_step)
  next
    case False
    with 1 show ?thesis by (simp add: month_walk.simps[of y m] days_left_step[of m] algebra_simps split: prod.splits)
  qed
qed

text \<open>Only on the last day of December is one day left.\<close>

lemma days_left_pos: "m \<le> 12 \<Longrightarrow> month_days y m \<le> days_left y m \<and> (m < 12 \<longrightarrow> month_days y m < days_left y m)"
proof -
  have pos: "0 \<le> days_left y k" for k by (simp add: days_left_def sum_nonneg month_days_bounds order_less_imp_le)
  assume m: "m \<le> 12"
  show ?thesis
  proof (cases "m = 12")
    case False
    with m have "days_left y (m + 1) = month_days y (m + 1) + days_left y (m + 1 + 1)" by (intro days_left_step) simp
    with pos[of "m + 1 + 1"] month_days_bounds(3)[of y "m + 1"] days_left_step[OF m, of y] show ?thesis by simp
  qed (use pos[of 13] days_left_step[OF m, of y] in simp)
qed

lemma leap_cycle [simp]: "leap (400 * c + y) = leap y"
proof -
  have "4 dvd 400 * c" "100 dvd 400 * c" "400 dvd 400 * c"
    by (rule dvdI[of _ _ "100 * c"], simp, rule dvdI[of _ _ "4 * c"], simp, rule dvdI[of _ _ c], simp)
  then show ?thesis by (simp add: leap_def dvd_add_right_iff)
qed

lemma year_walk_cycle: "year_walk (400 * c + y) d = (case year_walk y d of (y', d') \<Rightarrow> (400 * c + y', d'))"
proof (induction y d rule: year_walk.induct)
  case (1 y d)
  have "year_days (400 * c + y) = year_days y" by (simp add: year_days_def)
  with 1 show ?case by (cases "d < year_days y") (simp_all add: year_walk.simps[of y] year_walk.simps[of "400 * c + y"] add.assoc split: prod.splits)
qed

lemma year_walk_end: "year_walk (400 * c) 146096 = (400 * c + 399, 364)"
proof -
  have "year_walk 0 146096 = (399, 364)" by code_simp
  with year_walk_cycle[of c 0 146096] show ?thesis by simp
qed

lemma div_next:
  fixes k n :: int
  assumes "1 < k"
  shows "(n + 1) div k = (if n mod k = k - 1 then n div k + 1 else n div k)"
    "(n + 1) mod k = (if n mod k = k - 1 then 0 else n mod k + 1)"
proof -
  have n: "n = k * (n div k) + n mod k" "0 \<le> n mod k" "n mod k < k" using assms by simp_all
  have "k * (n div k + 1) = k * (n div k) + k" by (simp add: distrib_left)
  with n(1) have e: "n mod k = k - 1 \<Longrightarrow> n + 1 = k * (n div k + 1) + 0" "n + 1 = k * (n div k) + (n mod k + 1)" by linarith+
  have "n mod k = k - 1 \<Longrightarrow> (n + 1) div k = n div k + 1 \<and> (n + 1) mod k = 0"
    using int_div_pos_eq[OF e(1)] int_mod_pos_eq[OF e(1)] assms by simp
  moreover have "n mod k \<noteq> k - 1 \<Longrightarrow> (n + 1) div k = n div k \<and> (n + 1) mod k = n mod k + 1"
    using int_div_pos_eq[OF e(2)] int_mod_pos_eq[OF e(2)] n(2,3) by simp
  ultimately show "(n + 1) div k = (if n mod k = k - 1 then n div k + 1 else n div k)"
    "(n + 1) mod k = (if n mod k = k - 1 then 0 else n mod k + 1)" by simp_all
qed

text \<open>From 1970-01-01 on, and before it, the days have the dates of the Gregorian calendar in order.\<close>

lemma civil_epoch: "civil 0 = (1970, 1, 1)"
  by code_simp

lemma civil_next: "civil (n + 1) = next_day (civil n)"
proof -
  let ?N = "n + 719528"
  obtain y r where walk: "year_walk (400 * (?N div 146097)) (?N mod 146097) = (y, r)" by fastforce
  obtain m d where month: "month_walk y 1 r = (m, d)" by fastforce
  have c: "civil n = (y, m, d + 1)" using walk month by (simp add: civil_def)
  have r: "0 \<le> r" "r < year_days y" using year_walk_day[of "?N mod 146097" "400 * (?N div 146097)"] walk by simp_all
  have md: "m \<le> 12" "d < month_days y m" "year_days y - r = days_left y m - d"
    using month_walk_day[of r 1 y] r month by (simp_all add: days_left_year)
  have new_year: "month_walk z 1 0 = (1, 0)" for z using month_days_bounds(3)[of z 1] by (simp add: month_walk.simps[of z 1])
  have "days_left y 12 = month_days y 12" by (simp add: days_left_step[of 12]) (simp add: days_left_def)
  then have last: "r + 1 = year_days y \<longleftrightarrow> m = 12 \<and> d + 1 = month_days y m"
    using md days_left_pos[of m y] by auto
  show ?thesis
  proof (cases "?N mod 146097 = 146096")
    case True
    with walk year_walk_end have e: "y = 400 * (?N div 146097) + 399" "r = 364" by simp_all
    then have "year_days y = 365" by (simp add: year_days_def) (simp add: leap_def)
    with last e(2) have "m = 12" "d + 1 = month_days y m" by simp_all
    moreover have "(?N + 1) div 146097 = ?N div 146097 + 1" "(?N + 1) mod 146097 = 0" using True div_next[of 146097 ?N] by simp_all
    moreover have "year_walk (400 * (?N div 146097) + 400) 0 = (y + 1, 0)"
      using e(1) year_days_bounds(3) by (simp add: year_walk.simps algebra_simps)
    ultimately show ?thesis using new_year[of "y + 1"] c
      by (simp add: civil_def next_day_def algebra_simps)
  next
    case False
    then have "(?N + 1) div 146097 = ?N div 146097" "(?N + 1) mod 146097 = ?N mod 146097 + 1" using div_next[of 146097 ?N] by simp_all
    then have w: "year_walk (400 * ((?N + 1) div 146097)) ((?N + 1) mod 146097) = (if r + 1 < year_days y then (y, r + 1) else (y + 1, 0))"
      using year_walk_next[of "400 * (?N div 146097)" "?N mod 146097"] walk by simp
    have m: "month_walk y 1 (r + 1) = (if d + 1 < month_days y m \<or> 12 \<le> m then (m, d + 1) else (m + 1, 0))"
      using month_walk_next[of y 1 r] month by simp
    have shift: "n + 1 + 719528 = ?N + 1" by simp
    show ?thesis
    proof (cases "r + 1 < year_days y")
      case True
      with w m c last md(1,2) show ?thesis unfolding civil_def shift by (auto simp: next_day_def)
    next
      case False
      with last r(2) have "m = 12" "d + 1 = month_days y m" by simp_all
      with False w new_year[of "y + 1"] c show ?thesis unfolding civil_def shift by (simp add: next_day_def)
    qed
  qed
qed

text \<open>A time that cannot be written is one whose year does not have four digits, or one in a zone off by a day.\<close>

lemma MarshalTime_None:
  "MarshalTime zone t = None \<longleftrightarrow> \<not> (fst (civil ((t + zone t * 10 ^ 6) div (86400 * 10 ^ 6))) \<in> {0..9999} \<and> abs (zone t) < 86400)"
  by (auto simp: MarshalTime_def Let_def split: prod.splits)

end
