(* ===== verification/HttpApi.thy ===== *)
theory HttpApi
  imports GoHttp GoDecode GoTime OperatorAuth Workload Registration Policy
begin

text \<open>
  \<open>internal/httpapi\<close>: the HTTP boundary of the control plane (\<open>server.go\<close>,
  \<open>registration_mutations.go\<close>, \<open>policy_mutations.go\<close>). A handler takes the context the middleware
  built, the response header so far, the request and the path values, acts on the world through the
  server's dependencies, and gives the response. Header keys are in canonical form.

  What the program leaves to its surroundings are fields of \<open>Server\<close> beside the dependencies: the
  random source of the request IDs, the time zone of the process, and the answers
  \<open>http.ServeMux\<close> itself gives when it redirects, when a request has no pattern, or when its target
  is the asterisk.
\<close>

section \<open>The server\<close>

record 'w Mutator =
  mut_CreateDesired :: "reg_actor \<Rightarrow> string \<Rightarrow> CreateDesiredInput \<Rightarrow> ('w, reg_error, MutationResult) action"
  mut_ReplaceDesired :: "reg_actor \<Rightarrow> string \<Rightarrow> string \<Rightarrow> ReplaceDesiredInput \<Rightarrow> ('w, reg_error, MutationResult) action"

record 'w Manager =
  mgr_Create :: "pol_actor \<Rightarrow> string \<Rightarrow> CreateInput \<Rightarrow> ('w, pol_error, CreateResult) action"
  mgr_AppendVersion :: "pol_actor \<Rightarrow> string \<Rightarrow> string \<Rightarrow> AppendVersionInput \<Rightarrow> ('w, pol_error, VersionResult) action"
  mgr_Activate :: "pol_actor \<Rightarrow> string \<Rightarrow> string \<Rightarrow> ActivateInput \<Rightarrow> ('w, pol_error, PolicyResult) action"

type_synonym 'w lister = "string \<Rightarrow> ('w, workload_error, Workload list) action"
type_synonym 'w pinger = "('w, pg_error, unit) action"
type_synonym authn = "string \<Rightarrow> Principal option"
type_synonym authz = "Principal \<Rightarrow> string \<Rightarrow> bool"

record 'w Dependencies =
  dep_Readiness :: "'w pinger option"
  dep_Workloads :: "'w lister option"
  dep_RegistrationMutations :: "'w Mutator option"
  dep_PolicyManager :: "'w Manager option"
  dep_Authenticator :: "authn option"
  dep_Authorizer :: "authz option"

record 'w surroundings =
  env_random :: "('w, unit, string) action"
  env_zone :: "int \<Rightarrow> int"
  env_mux_answer :: "header \<Rightarrow> Request \<Rightarrow> Response"

record 'w Server =
  srv_readiness :: "'w pinger"
  srv_workloads :: "'w lister"
  srv_registrationMutations :: "'w Mutator"
  srv_policyManager :: "'w Manager"
  srv_authenticator :: authn
  srv_authorizer :: authz
  srv_env :: "'w surroundings"

datatype new_error = ReadinessRequired | WorkloadsRequired | MutationsRequired | ManagerRequired
  | AuthenticatorRequired | AuthorizerRequired

definition New :: "'w surroundings \<Rightarrow> 'w Dependencies \<Rightarrow> new_error + 'w Server" where
  "New env deps =
     (case dep_Readiness deps of None \<Rightarrow> Inl ReadinessRequired | Some readiness \<Rightarrow>
     (case dep_Workloads deps of None \<Rightarrow> Inl WorkloadsRequired | Some lister \<Rightarrow>
     (case dep_RegistrationMutations deps of None \<Rightarrow> Inl MutationsRequired | Some mutations \<Rightarrow>
     (case dep_PolicyManager deps of None \<Rightarrow> Inl ManagerRequired | Some manager \<Rightarrow>
     (case dep_Authenticator deps of None \<Rightarrow> Inl AuthenticatorRequired | Some authenticator \<Rightarrow>
     (case dep_Authorizer deps of None \<Rightarrow> Inl AuthorizerRequired | Some authorization \<Rightarrow>
        Inr \<lparr>srv_readiness = readiness, srv_workloads = lister, srv_registrationMutations = mutations,
          srv_policyManager = manager, srv_authenticator = authenticator, srv_authorizer = authorization,
          srv_env = env\<rparr>))))))"

text \<open>What the middleware puts into the request's context.\<close>

record request_context =
  cx_RequestID :: string
  cx_Principal :: "Principal option"

type_synonym 'w handler = "request_context \<Rightarrow> header \<Rightarrow> Request \<Rightarrow> string list \<Rightarrow> 'w \<Rightarrow> Response \<times> 'w"

section \<open>Writing responses\<close>

text \<open>
  The status is sent before the payload is encoded. A payload that JSON cannot encode is \<open>None\<close>: the
  error of \<open>Encode\<close> is dropped, and the body is empty.
\<close>

definition writeJSONStatus :: "header \<Rightarrow> int \<Rightarrow> json option \<Rightarrow> Response" where
  "writeJSONStatus h status payload =
     \<lparr>rs_Status = status, rs_Header = Header_Set ''Content-Type'' ''application/json; charset=utf-8'' h,
      rs_Body = (case payload of None \<Rightarrow> [] | Some v \<Rightarrow> Marshal v @ [char_of (10::nat)])\<rparr>"

definition writeJSON :: "header \<Rightarrow> int \<Rightarrow> json \<Rightarrow> Response" where
  "writeJSON h status payload = writeJSONStatus h status (Some payload)"

definition errorEnvelope :: "string \<Rightarrow> string \<Rightarrow> string \<Rightarrow> json" where
  "errorEnvelope code message requestID = JObj [(''error'', JObj [(''code'', JStr code),
     (''message'', JStr message), (''request_id'', JStr requestID)])]"

definition writeError :: "request_context \<Rightarrow> header \<Rightarrow> int \<Rightarrow> string \<Rightarrow> string \<Rightarrow> Response" where
  "writeError cx h status code message = writeJSONStatus h status (Some (errorEnvelope code message (cx_RequestID cx)))"

definition data_response :: "json \<Rightarrow> json" where
  "data_response v = JObj [(''data'', v)]"

definition notFound :: "'w handler" where
  "notFound cx h req vals w = (writeError cx h 404 ''not_found'' ''route not found'', w)"

section \<open>Reading requests\<close>

definition maxMutationRequestBytes :: nat where
  "maxMutationRequestBytes = 64 * 1024"

datatype decode_error = UnsupportedJSONMediaType | MutationRequestTooLarge | MalformedJSONRequest

definition decodeStrictJSON :: "'r field list \<Rightarrow> 'r \<Rightarrow> Request \<Rightarrow> decode_error + 'r" where
  "decodeStrictJSON flds zero req =
     (if ParseMediaType (rq_ContentType req) \<noteq> Some ''application/json'' then Inl UnsupportedJSONMediaType
      else (case first_value maxMutationRequestBytes (rq_Body req) of
          StreamTooLarge \<Rightarrow> Inl MutationRequestTooLarge
        | StreamMalformed \<Rightarrow> Inl MalformedJSONRequest
        | FirstValue v eof \<Rightarrow>
            (case decode_struct flds v zero of
               None \<Rightarrow> Inl MalformedJSONRequest
             | Some target \<Rightarrow> if \<not> eof then Inl MalformedJSONRequest else Inr target)))"

definition writeMutationDecodeError :: "request_context \<Rightarrow> header \<Rightarrow> decode_error \<Rightarrow> Response" where
  "writeMutationDecodeError cx h e =
     (case e of
        UnsupportedJSONMediaType \<Rightarrow>
          writeError cx h 415 ''unsupported_media_type'' ''Content-Type must be application/json''
      | MutationRequestTooLarge \<Rightarrow>
          writeError cx h 413 ''request_too_large'' ''request body exceeds the allowed size''
      | MalformedJSONRequest \<Rightarrow>
          writeError cx h 400 ''invalid_json'' ''request body must be a single valid JSON object'')"

record createRegistrationRequest =
  crr_WorkloadID :: string
  crr_Selectors :: slice
  crr_ParentSPIFFEID :: string
  crr_X509SVIDTTLSeconds :: int

definition createRegistration_fields :: "createRegistrationRequest field list" where
  "createRegistration_fields = [
     (''workload_id'', \<lambda>v r. map_option (\<lambda>x. r\<lparr>crr_WorkloadID := x\<rparr>) (decode_string v (crr_WorkloadID r))),
     (''selectors'', \<lambda>v r. map_option (\<lambda>x. r\<lparr>crr_Selectors := x\<rparr>) (decode_slice v (crr_Selectors r))),
     (''parent_spiffe_id'', \<lambda>v r. map_option (\<lambda>x. r\<lparr>crr_ParentSPIFFEID := x\<rparr>) (decode_string v (crr_ParentSPIFFEID r))),
     (''x509_svid_ttl_seconds'', \<lambda>v r. map_option (\<lambda>x. r\<lparr>crr_X509SVIDTTLSeconds := x\<rparr>)
        (decode_int in_int32 v (crr_X509SVIDTTLSeconds r)))]"

definition zero_createRegistration :: createRegistrationRequest where
  "zero_createRegistration = \<lparr>crr_WorkloadID = [], crr_Selectors = ([], []), crr_ParentSPIFFEID = [],
     crr_X509SVIDTTLSeconds = 0\<rparr>"

record replaceRegistrationRequest =
  rrr_ExpectedRevision :: int
  rrr_DesiredState :: string
  rrr_Selectors :: slice
  rrr_ParentSPIFFEID :: string
  rrr_X509SVIDTTLSeconds :: int

definition replaceRegistration_fields :: "replaceRegistrationRequest field list" where
  "replaceRegistration_fields = [
     (''expected_revision'', \<lambda>v r. map_option (\<lambda>x. r\<lparr>rrr_ExpectedRevision := x\<rparr>)
        (decode_int in_int64 v (rrr_ExpectedRevision r))),
     (''desired_state'', \<lambda>v r. map_option (\<lambda>x. r\<lparr>rrr_DesiredState := x\<rparr>) (decode_string v (rrr_DesiredState r))),
     (''selectors'', \<lambda>v r. map_option (\<lambda>x. r\<lparr>rrr_Selectors := x\<rparr>) (decode_slice v (rrr_Selectors r))),
     (''parent_spiffe_id'', \<lambda>v r. map_option (\<lambda>x. r\<lparr>rrr_ParentSPIFFEID := x\<rparr>) (decode_string v (rrr_ParentSPIFFEID r))),
     (''x509_svid_ttl_seconds'', \<lambda>v r. map_option (\<lambda>x. r\<lparr>rrr_X509SVIDTTLSeconds := x\<rparr>)
        (decode_int in_int32 v (rrr_X509SVIDTTLSeconds r)))]"

definition zero_replaceRegistration :: replaceRegistrationRequest where
  "zero_replaceRegistration = \<lparr>rrr_ExpectedRevision = 0, rrr_DesiredState = [], rrr_Selectors = ([], []),
     rrr_ParentSPIFFEID = [], rrr_X509SVIDTTLSeconds = 0\<rparr>"

text \<open>\<open>policyRuleRequest\<close> has the fields of \<open>RuleInput\<close>, to which it is copied.\<close>

definition policyRule_fields :: "RuleInput field list" where
  "policyRule_fields = [
     (''source_spiffe_id'', \<lambda>v r. map_option (\<lambda>x. r\<lparr>SourceSPIFFEID := x\<rparr>) (decode_string v (SourceSPIFFEID r))),
     (''destination_spiffe_id'', \<lambda>v r. map_option (\<lambda>x. r\<lparr>DestinationSPIFFEID := x\<rparr>) (decode_string v (DestinationSPIFFEID r))),
     (''action'', \<lambda>v r. map_option (\<lambda>x. r\<lparr>RuleAction := x\<rparr>) (decode_string v (RuleAction r))),
     (''effect'', \<lambda>v r. map_option (\<lambda>x. r\<lparr>Effect := x\<rparr>) (decode_string v (Effect r))),
     (''change_reason'', \<lambda>v r. map_option (\<lambda>x. r\<lparr>ChangeReason := x\<rparr>) (decode_string v (ChangeReason r)))]"

definition zero_rule :: RuleInput where
  "zero_rule = \<lparr>SourceSPIFFEID = [], DestinationSPIFFEID = [], RuleAction = [], Effect = [], ChangeReason = []\<rparr>"

definition createPolicy_fields :: "CreateInput field list" where
  "createPolicy_fields = [
     (''organization_id'', \<lambda>v r. map_option (\<lambda>x. r\<lparr>ci_OrganizationID := x\<rparr>) (decode_string v (ci_OrganizationID r))),
     (''name'', \<lambda>v r. map_option (\<lambda>x. r\<lparr>ci_Name := x\<rparr>) (decode_string v (ci_Name r))),
     (''initial_version'', \<lambda>v r. map_option (\<lambda>x. r\<lparr>ci_InitialVersion := x\<rparr>)
        (decode_struct policyRule_fields v (ci_InitialVersion r)))]"

definition zero_createPolicy :: CreateInput where
  "zero_createPolicy = \<lparr>ci_OrganizationID = [], ci_Name = [], ci_InitialVersion = zero_rule\<rparr>"

definition appendPolicyVersion_fields :: "AppendVersionInput field list" where
  "appendPolicyVersion_fields =
     (''expected_revision'', \<lambda>v r. map_option (\<lambda>x. r\<lparr>ai_ExpectedRevision := x\<rparr>) (decode_int in_int64 v (ai_ExpectedRevision r)))
     # map (\<lambda>(k, d). (k, \<lambda>v r. map_option (\<lambda>x. r\<lparr>ai_Version := x\<rparr>) (d v (ai_Version r)))) policyRule_fields"

definition zero_appendPolicyVersion :: AppendVersionInput where
  "zero_appendPolicyVersion = \<lparr>ai_ExpectedRevision = 0, ai_Version = zero_rule\<rparr>"

definition activatePolicy_fields :: "ActivateInput field list" where
  "activatePolicy_fields = [
     (''expected_revision'', \<lambda>v r. map_option (\<lambda>x. r\<lparr>av_ExpectedRevision := x\<rparr>) (decode_int in_int64 v (av_ExpectedRevision r))),
     (''version_id'', \<lambda>v r. map_option (\<lambda>x. r\<lparr>av_VersionID := x\<rparr>) (decode_string v (av_VersionID r)))]"

definition zero_activatePolicy :: ActivateInput where
  "zero_activatePolicy = \<lparr>av_ExpectedRevision = 0, av_VersionID = []\<rparr>"

section \<open>Payloads\<close>

text \<open>A workload with a time that JSON cannot encode cannot be encoded either.\<close>

definition time_json :: "(int \<Rightarrow> int) \<Rightarrow> int \<Rightarrow> json option" where
  "time_json zone t = map_option JStr (MarshalTime zone t)"

definition workload_json :: "(int \<Rightarrow> int) \<Rightarrow> Workload \<Rightarrow> json option" where
  "workload_json zone x =
     (case (case LastSeenAt x of None \<Rightarrow> Some JNull | Some t \<Rightarrow> time_json zone t,
            time_json zone (WorkloadCreatedAt x), time_json zone (UpdatedAt x)) of
        (Some seen, Some created, Some updated) \<Rightarrow> Some (JObj [(''id'', JStr (WorkloadID x)), (''organization_id'', JStr (WorkloadOrganizationID x)),
     (''trust_domain_id'', JStr (TrustDomainID x)), (''name'', JStr (WorkloadName x)), (''environment'', JStr (Environment x)),
     (''spiffe_id'', JStr (WorkloadSPIFFE x)), (''status'', JStr (Status x)),
     (''last_seen_at'', seen), (''created_at'', created), (''updated_at'', updated)])
      | _ \<Rightarrow> None)"

definition mutation_json :: "MutationResult \<Rightarrow> json" where
  "mutation_json r = JObj [(''id'', JStr (mr_ID r)), (''organization_id'', JStr (mr_OrganizationID r)),
     (''workload_id'', JStr (mr_WorkloadID r)), (''desired_state'', JStr (mr_DesiredState r)),
     (''revision'', json_int (mr_Revision r)), (''x509_svid_ttl_seconds'', json_int (mr_TTL r)),
     (''selector_count'', json_int (mr_SelectorCount r)), (''reconcile_status'', JStr (mr_ReconcileStatus r))]"

text \<open>An absent active version is omitted.\<close>

definition policy_json :: "PolicyResult \<Rightarrow> json" where
  "policy_json r = JObj ([(''id'', JStr (pr_ID r)), (''organization_id'', JStr (pr_OrganizationID r)),
     (''name'', JStr (pr_Name r)), (''status'', JStr (pr_Status r)), (''revision'', json_int (pr_Revision r))]
     @ (case pr_ActiveVersionID r of None \<Rightarrow> [] | Some i \<Rightarrow> [(''active_version_id'', JStr i)]))"

definition version_json :: "VersionResult \<Rightarrow> json" where
  "version_json r = JObj [(''id'', JStr (vr_ID r)), (''policy_id'', JStr (vr_PolicyID r)),
     (''version_number'', json_int (vr_VersionNumber r)), (''policy_revision'', json_int (vr_PolicyRevision r)),
     (''effect'', JStr (vr_Effect r))]"

definition create_result_json :: "CreateResult \<Rightarrow> json" where
  "create_result_json r = JObj [(''policy'', policy_json (cr_Policy r)), (''version'', version_json (cr_Version r))]"

section \<open>Middleware\<close>

definition getOnly :: "'w handler \<Rightarrow> 'w handler" where
  "getOnly handle cx h req vals w =
     (if rq_Method req \<noteq> ''GET''
      then (writeError cx (Header_Set ''Allow'' ''GET'' h) 405 ''method_not_allowed'' ''method not allowed'', w)
      else handle cx h req vals w)"

definition operatorPrincipalFrom :: "request_context \<Rightarrow> Principal option" where
  "operatorPrincipalFrom cx = cx_Principal cx"

definition forbidden :: "request_context \<Rightarrow> header \<Rightarrow> Response" where
  "forbidden cx h = writeError cx h 403 ''forbidden'' ''operator is not authorized for this action''"

definition requirePermission :: "'w Server \<Rightarrow> string \<Rightarrow> 'w handler \<Rightarrow> 'w handler" where
  "requirePermission srv permission handle cx h req vals w =
     (case operatorPrincipalFrom cx of
        None \<Rightarrow> (forbidden cx h, w)
      | Some p \<Rightarrow> if \<not> srv_authorizer srv p permission then (forbidden cx h, w) else handle cx h req vals w)"

definition requireOperator :: "'w Server \<Rightarrow> 'w handler \<Rightarrow> 'w handler" where
  "requireOperator srv handle cx h req vals w =
     (case srv_authenticator srv (rq_Authorization req) of
        None \<Rightarrow> (writeError cx
            (Header_Set ''Www-Authenticate'' (''Bearer realm='' @ [quote] @ ''workload-trust-platform'' @ [quote]) h)
            401 ''unauthorized'' ''operator authentication required'', w)
      | Some p \<Rightarrow> handle (cx\<lparr>cx_Principal := Some p\<rparr>) h req vals w)"

definition newRequestID :: "'w Server \<Rightarrow> 'w \<Rightarrow> string \<times> 'w" where
  "newRequestID srv w =
     (case env_random (srv_env srv) w of
        (Inl _, w') \<Rightarrow> (''request-id-unavailable'', w')
      | (Inr bytes, w') \<Rightarrow> (hex_EncodeToString bytes, w'))"

definition requestIDMiddleware :: "'w Server \<Rightarrow> 'w handler \<Rightarrow> 'w handler" where
  "requestIDMiddleware srv handle cx h req vals w =
     (case newRequestID srv w of (requestID, w') \<Rightarrow>
        handle (cx\<lparr>cx_RequestID := requestID\<rparr>) (Header_Set ''X-Request-Id'' requestID h) req vals w')"

definition securityHeaders :: "'w handler \<Rightarrow> 'w handler" where
  "securityHeaders handle cx h req vals w =
     handle cx (Header_Set ''X-Content-Type-Options'' ''nosniff'' (Header_Set ''Cache-Control'' ''no-store'' h)) req vals w"

section \<open>Handlers\<close>

definition health :: "'w handler" where
  "health cx h req vals w = (writeJSON h 200 (JObj [(''status'', JStr ''ok'')]), w)"

definition ready :: "'w Server \<Rightarrow> 'w handler" where
  "ready srv cx h req vals w =
     (case srv_readiness srv w of
        (Inl _, w') \<Rightarrow> (writeError cx h 503 ''not_ready'' ''control plane is not ready'', w')
      | (Inr _, w') \<Rightarrow> (writeJSON h 200 (JObj [(''status'', JStr ''ready'')]), w'))"

definition internal_error :: "request_context \<Rightarrow> header \<Rightarrow> Response" where
  "internal_error cx h = writeError cx h 500 ''internal_error'' ''request could not be completed''"

definition listWorkloads :: "'w Server \<Rightarrow> 'w handler" where
  "listWorkloads srv cx h req vals w =
     (let organizationID = Values_Get ''organization_id'' (URL_Query (rq_URL req)) in
      if \<not> MatchString uuid_items organizationID
      then (writeError cx h 400 ''invalid_organization_id'' ''organization_id must be a UUID'', w)
      else (case srv_workloads srv organizationID w of
          (Inl _, w') \<Rightarrow> (internal_error cx h, w')
        | (Inr items, w') \<Rightarrow>
            (writeJSONStatus h 200 (map_option (\<lambda>vs. data_response (JArr vs))
               (those (map (workload_json (env_zone (srv_env srv))) items))), w')))"

definition writeRegistrationMutationError :: "request_context \<Rightarrow> header \<Rightarrow> reg_error \<Rightarrow> Response" where
  "writeRegistrationMutationError cx h e =
     (case e of
        ErrInvalidInput _ \<Rightarrow> writeError cx h 400 ''invalid_registration'' ''registration desired state is invalid''
      | ErrNotFound \<Rightarrow> writeError cx h 404 ''registration_target_not_found'' ''registration mutation target was not found''
      | ErrConflict \<Rightarrow> writeError cx h 409 ''revision_conflict'' ''registration rule revision no longer matches''
      | _ \<Rightarrow> internal_error cx h)"

definition writePolicyMutationError :: "request_context \<Rightarrow> header \<Rightarrow> pol_error \<Rightarrow> Response" where
  "writePolicyMutationError cx h e =
     (case e of
        PolicyForbidden \<Rightarrow> forbidden cx h
      | PolicyInvalid _ \<Rightarrow> writeError cx h 400 ''invalid_policy'' ''policy state is invalid''
      | PolicyNotFound \<Rightarrow> writeError cx h 404 ''policy_target_not_found'' ''policy mutation target was not found''
      | PolicyConflict \<Rightarrow> writeError cx h 409 ''revision_conflict'' ''policy revision no longer matches''
      | _ \<Rightarrow> internal_error cx h)"

text \<open>
  The steps every mutation handler takes: decode the body, find the principal, call the service,
  write its error or its result.
\<close>

definition mutation ::
    "'r field list \<Rightarrow> 'r \<Rightarrow> (Principal \<Rightarrow> string \<Rightarrow> 'r \<Rightarrow> ('w, 'e, 'a) action)
     \<Rightarrow> (request_context \<Rightarrow> header \<Rightarrow> 'e \<Rightarrow> Response) \<Rightarrow> (header \<Rightarrow> 'a \<Rightarrow> Response) \<Rightarrow> 'w handler" where
  "mutation flds zero call fail succeed cx h req vals w =
     (case decodeStrictJSON flds zero req of
        Inl e \<Rightarrow> (writeMutationDecodeError cx h e, w)
      | Inr request \<Rightarrow>
          (case operatorPrincipalFrom cx of
             None \<Rightarrow> (forbidden cx h, w)
           | Some p \<Rightarrow>
               (case call p (cx_RequestID cx) request w of
                  (Inl e, w') \<Rightarrow> (fail cx h e, w')
                | (Inr result, w') \<Rightarrow> (succeed h result, w'))))"

text \<open>The handlers of a path with an ID refuse one that is not a UUID before they read the body.\<close>

definition with_uuid :: "string \<Rightarrow> string \<Rightarrow> (string \<Rightarrow> 'w handler) \<Rightarrow> 'w handler" where
  "with_uuid code message handle cx h req vals w =
     (let i = (case vals of [] \<Rightarrow> [] | v # _ \<Rightarrow> v) in
      if \<not> MatchString uuid_items i then (writeError cx h 400 code message, w)
      else handle i cx h req vals w)"

definition reg_actor_of :: "Principal \<Rightarrow> reg_actor" where
  "reg_actor_of p = \<lparr>ra_Type = ActorType p, ra_ID = ActorID p, ra_Role = PrincipalRole p\<rparr>"

definition pol_actor_of :: "Principal \<Rightarrow> pol_actor" where
  "pol_actor_of p = \<lparr>pa_Type = ActorType p, pa_ID = ActorID p, pa_Role = PrincipalRole p\<rparr>"

definition create_input_of :: "createRegistrationRequest \<Rightarrow> CreateDesiredInput" where
  "create_input_of r = \<lparr>cd_WorkloadID = crr_WorkloadID r, cd_Selectors = fst (crr_Selectors r),
     cd_ParentSPIFFEID = crr_ParentSPIFFEID r, cd_TTL = crr_X509SVIDTTLSeconds r\<rparr>"

definition createRegistrationRule :: "'w Server \<Rightarrow> 'w handler" where
  "createRegistrationRule srv =
     mutation createRegistration_fields zero_createRegistration
       (\<lambda>p requestID r. mut_CreateDesired (srv_registrationMutations srv) (reg_actor_of p) requestID (create_input_of r))
       writeRegistrationMutationError
       (\<lambda>h result. writeJSON (Header_Set ''Location'' (''/v1/registration-rules/'' @ mr_ID result) h) 201
          (data_response (mutation_json result)))"

definition replace_input_of :: "replaceRegistrationRequest \<Rightarrow> ReplaceDesiredInput" where
  "replace_input_of r = \<lparr>rd_ExpectedRevision = rrr_ExpectedRevision r, rd_DesiredState = rrr_DesiredState r,
     rd_Selectors = fst (rrr_Selectors r), rd_ParentSPIFFEID = rrr_ParentSPIFFEID r, rd_TTL = rrr_X509SVIDTTLSeconds r\<rparr>"

definition replaceRegistrationRule :: "'w Server \<Rightarrow> 'w handler" where
  "replaceRegistrationRule srv =
     with_uuid ''invalid_registration_rule_id'' ''registration rule ID must be a UUID'' (\<lambda>ruleID.
       mutation replaceRegistration_fields zero_replaceRegistration
         (\<lambda>p requestID r. mut_ReplaceDesired (srv_registrationMutations srv) (reg_actor_of p) requestID ruleID (replace_input_of r))
         writeRegistrationMutationError
         (\<lambda>h result. writeJSON h 200 (data_response (mutation_json result))))"

definition createPolicy :: "'w Server \<Rightarrow> 'w handler" where
  "createPolicy srv =
     mutation createPolicy_fields zero_createPolicy
       (\<lambda>p requestID r. mgr_Create (srv_policyManager srv) (pol_actor_of p) requestID r)
       writePolicyMutationError
       (\<lambda>h result. writeJSON (Header_Set ''Location'' (''/v1/policies/'' @ pr_ID (cr_Policy result)) h) 201
          (data_response (create_result_json result)))"

definition appendPolicyVersion :: "'w Server \<Rightarrow> 'w handler" where
  "appendPolicyVersion srv =
     with_uuid ''invalid_policy_id'' ''policy ID must be a UUID'' (\<lambda>policyID.
       mutation appendPolicyVersion_fields zero_appendPolicyVersion
         (\<lambda>p requestID r. mgr_AppendVersion (srv_policyManager srv) (pol_actor_of p) requestID policyID r)
         writePolicyMutationError
         (\<lambda>h result. writeJSON h 201 (data_response (version_json result))))"

definition activatePolicy :: "'w Server \<Rightarrow> 'w handler" where
  "activatePolicy srv =
     with_uuid ''invalid_policy_id'' ''policy ID must be a UUID'' (\<lambda>policyID.
       mutation activatePolicy_fields zero_activatePolicy
         (\<lambda>p requestID r. mgr_Activate (srv_policyManager srv) (pol_actor_of p) requestID policyID r)
         writePolicyMutationError
         (\<lambda>h result. writeJSON h 200 (data_response (policy_json result))))"

section \<open>The routes\<close>

text \<open>\<open>ServeHTTP\<close> of a mux over handlers: the mux's own answers are the standard library's.\<close>

definition serve_mux :: "'w Server \<Rightarrow> 'w handler route list \<Rightarrow> 'w handler" where
  "serve_mux srv routes cx h req vals w =
     (case mux_route routes req of
        Routed handle vals' \<Rightarrow> handle cx h req vals' w
      | _ \<Rightarrow> (env_mux_answer (srv_env srv) h req, w))"

definition api_routes :: "'w Server \<Rightarrow> 'w handler route list" where
  "api_routes srv = [
     Route None [Lit ''v1'', Lit ''workloads'']
       (requirePermission srv PermissionWorkloadsRead (getOnly (listWorkloads srv))),
     Route (Some ''POST'') [Lit ''v1'', Lit ''registration-rules'']
       (requirePermission srv PermissionRegistrationsWrite (createRegistrationRule srv)),
     Route (Some ''PATCH'') [Lit ''v1'', Lit ''registration-rules'', Wild]
       (requirePermission srv PermissionRegistrationsWrite (replaceRegistrationRule srv)),
     Route (Some ''POST'') [Lit ''v1'', Lit ''policies'']
       (requirePermission srv PermissionPoliciesWrite (createPolicy srv)),
     Route (Some ''POST'') [Lit ''v1'', Lit ''policies'', Wild, Lit ''versions'']
       (requirePermission srv PermissionPoliciesWrite (appendPolicyVersion srv)),
     Route (Some ''POST'') [Lit ''v1'', Lit ''policies'', Wild, Lit ''activate'']
       (requirePermission srv PermissionPoliciesActivate (activatePolicy srv)),
     Route None [Multi] notFound]"

definition root_routes :: "'w Server \<Rightarrow> 'w handler route list" where
  "root_routes srv = [
     Route None [Lit ''healthz''] (getOnly health),
     Route None [Lit ''readyz''] (getOnly (ready srv)),
     Route None [Lit ''v1'', Multi] (requireOperator srv (serve_mux srv (api_routes srv))),
     Route None [Multi] notFound]"

definition empty_context :: request_context where
  "empty_context = \<lparr>cx_RequestID = [], cx_Principal = None\<rparr>"

definition ServeHTTP :: "'w Server \<Rightarrow> Request \<Rightarrow> 'w \<Rightarrow> Response \<times> 'w" where
  "ServeHTTP srv req w =
     securityHeaders (requestIDMiddleware srv (serve_mux srv (root_routes srv))) empty_context [] req [] w"

end
