(* ===== verification/Decoding.thy ===== *)
theory Decoding
  imports HttpApi
begin

text \<open>
  The request bodies as documents: what a client that marshals a request sends, and that the
  strict decoder of the server reads exactly that request back.
\<close>

section \<open>The documents of the requests\<close>

definition createRegistration_json :: "createRegistrationRequest \<Rightarrow> json" where
  "createRegistration_json r = JObj [(''workload_id'', JStr (crr_WorkloadID r)),
     (''selectors'', JArr (map JStr (fst (crr_Selectors r)))), (''parent_spiffe_id'', JStr (crr_ParentSPIFFEID r)),
     (''x509_svid_ttl_seconds'', json_int (crr_X509SVIDTTLSeconds r))]"

definition replaceRegistration_json :: "replaceRegistrationRequest \<Rightarrow> json" where
  "replaceRegistration_json r = JObj [(''expected_revision'', json_int (rrr_ExpectedRevision r)),
     (''desired_state'', JStr (rrr_DesiredState r)), (''selectors'', JArr (map JStr (fst (rrr_Selectors r)))),
     (''parent_spiffe_id'', JStr (rrr_ParentSPIFFEID r)), (''x509_svid_ttl_seconds'', json_int (rrr_X509SVIDTTLSeconds r))]"

definition rule_members :: "RuleInput \<Rightarrow> (string \<times> json) list" where
  "rule_members r = [(''source_spiffe_id'', JStr (SourceSPIFFEID r)), (''destination_spiffe_id'', JStr (DestinationSPIFFEID r)),
     (''action'', JStr (RuleAction r)), (''effect'', JStr (Effect r)), (''change_reason'', JStr (ChangeReason r))]"

definition createPolicy_json :: "CreateInput \<Rightarrow> json" where
  "createPolicy_json r = JObj [(''organization_id'', JStr (ci_OrganizationID r)), (''name'', JStr (ci_Name r)),
     (''initial_version'', JObj (rule_members (ci_InitialVersion r)))]"

definition appendPolicyVersion_json :: "AppendVersionInput \<Rightarrow> json" where
  "appendPolicyVersion_json r = JObj ((''expected_revision'', json_int (ai_ExpectedRevision r)) # rule_members (ai_Version r))"

definition activatePolicy_json :: "ActivateInput \<Rightarrow> json" where
  "activatePolicy_json r = JObj [(''expected_revision'', json_int (av_ExpectedRevision r)), (''version_id'', JStr (av_VersionID r))]"

lemmas document_defs = createRegistration_json_def replaceRegistration_json_def rule_members_def createPolicy_json_def
  appendPolicyVersion_json_def activatePolicy_json_def

section \<open>Decoding a document\<close>

lemma field_names:
  "coerce ''workload_id'' = ''workload_id''" "coerce ''selectors'' = ''selectors''"
  "coerce ''parent_spiffe_id'' = ''parent_spiffe_id''" "coerce ''x509_svid_ttl_seconds'' = ''x509_svid_ttl_seconds''"
  "coerce ''expected_revision'' = ''expected_revision''" "coerce ''desired_state'' = ''desired_state''"
  "coerce ''source_spiffe_id'' = ''source_spiffe_id''" "coerce ''destination_spiffe_id'' = ''destination_spiffe_id''"
  "coerce ''action'' = ''action''" "coerce ''effect'' = ''effect''" "coerce ''change_reason'' = ''change_reason''"
  "coerce ''organization_id'' = ''organization_id''" "coerce ''name'' = ''name''"
  "coerce ''initial_version'' = ''initial_version''" "coerce ''version_id'' = ''version_id''"
  by code_simp+

lemma decode_string_JStr [simp]: "decode_string (JStr s) old = Some s"
  by (simp add: decode_string_def)

lemma utf8_string_list [simp]: "list_all valid_utf8 ss \<Longrightarrow> map (utf8_json \<circ> JStr) ss = map JStr ss"
  by (induction ss) (simp_all add: coerce_valid)

lemma utf8_json_int [simp]: "utf8_json (json_int i) = json_int i"
  by (simp add: json_int_def)

text \<open>The texts of a request, which are UTF-8.\<close>

definition rule_texts :: "RuleInput \<Rightarrow> string list" where
  "rule_texts r = [SourceSPIFFEID r, DestinationSPIFFEID r, RuleAction r, Effect r, ChangeReason r]"

lemmas field_defs = createRegistration_fields_def replaceRegistration_fields_def policyRule_fields_def createPolicy_fields_def
  appendPolicyVersion_fields_def activatePolicy_fields_def
lemmas zero_defs = zero_createRegistration_def zero_replaceRegistration_def zero_rule_def zero_createPolicy_def
  zero_appendPolicyVersion_def zero_activatePolicy_def

lemma decode_createRegistration:
  assumes "list_all valid_utf8 (crr_WorkloadID r # crr_ParentSPIFFEID r # fst (crr_Selectors r))"
    "in_int32 (crr_X509SVIDTTLSeconds r)" "snd (crr_Selectors r) = []"
  shows "decode_struct createRegistration_fields (utf8_json (createRegistration_json r)) zero_createRegistration = Some r"
proof -
  obtain sels where s: "crr_Selectors r = (sels, [])" using assms(3) by (cases "crr_Selectors r") simp
  have i: "in_int64 (crr_X509SVIDTTLSeconds r)" using assms(2) by (simp add: in_int32_def in_int64_def)
  show ?thesis using assms s i
    by (simp add: createRegistration_json_def createRegistration_fields_def zero_createRegistration_def decode_struct_def
        find_field_def field_names coerce_valid)
qed

lemma decode_replaceRegistration:
  assumes "list_all valid_utf8 (rrr_DesiredState r # rrr_ParentSPIFFEID r # fst (rrr_Selectors r))"
    "in_int64 (rrr_ExpectedRevision r)" "in_int32 (rrr_X509SVIDTTLSeconds r)" "snd (rrr_Selectors r) = []"
  shows "decode_struct replaceRegistration_fields (utf8_json (replaceRegistration_json r)) zero_replaceRegistration = Some r"
proof -
  obtain sels where s: "rrr_Selectors r = (sels, [])" using assms(4) by (cases "rrr_Selectors r") simp
  have i: "in_int64 (rrr_X509SVIDTTLSeconds r)" using assms(3) by (simp add: in_int32_def in_int64_def)
  show ?thesis using assms s i
    by (simp add: replaceRegistration_json_def replaceRegistration_fields_def zero_replaceRegistration_def decode_struct_def
        find_field_def field_names coerce_valid)
qed

lemma decode_policyRule:
  assumes "list_all valid_utf8 (rule_texts r)"
  shows "decode_struct policyRule_fields (utf8_json (JObj (rule_members r))) zero_rule = Some r"
  using assms by (simp add: rule_members_def rule_texts_def policyRule_fields_def zero_rule_def decode_struct_def
      find_field_def field_names coerce_valid)

lemma decode_createPolicy:
  assumes "list_all valid_utf8 (ci_OrganizationID r # ci_Name r # rule_texts (ci_InitialVersion r))"
  shows "decode_struct createPolicy_fields (utf8_json (createPolicy_json r)) zero_createPolicy = Some r"
  using assms decode_policyRule[of "ci_InitialVersion r"]
  by (simp add: createPolicy_json_def createPolicy_fields_def zero_createPolicy_def decode_struct_def[of createPolicy_fields]
      find_field_def field_names coerce_valid del: utf8_json.simps(6)) (simp add: decode_struct_def find_field_def field_names coerce_valid)

lemma decode_appendPolicyVersion:
  assumes "list_all valid_utf8 (rule_texts (ai_Version r))" "in_int64 (ai_ExpectedRevision r)"
  shows "decode_struct appendPolicyVersion_fields (utf8_json (appendPolicyVersion_json r)) zero_appendPolicyVersion = Some r"
  using assms
  by (simp add: appendPolicyVersion_json_def rule_members_def rule_texts_def appendPolicyVersion_fields_def policyRule_fields_def
      zero_rule_def zero_appendPolicyVersion_def decode_struct_def find_field_def field_names coerce_valid)

lemma decode_activatePolicy:
  assumes "valid_utf8 (av_VersionID r)" "in_int64 (av_ExpectedRevision r)"
  shows "decode_struct activatePolicy_fields (utf8_json (activatePolicy_json r)) zero_activatePolicy = Some r"
  using assms
  by (simp add: activatePolicy_json_def activatePolicy_fields_def zero_activatePolicy_def decode_struct_def find_field_def
      field_names coerce_valid)

lemma encodable_documents:
  "encodable 0 (createRegistration_json a)" "encodable 0 (replaceRegistration_json b)" "encodable 0 (createPolicy_json c)"
  "encodable 0 (appendPolicyVersion_json d)" "encodable 0 (activatePolicy_json e)"
  by (simp_all add: document_defs maxNestingDepth_def)

lemma decode_document:
  assumes "ParseMediaType (rq_ContentType req) = Some ''application/json''" "rq_Body req = Marshal v"
    and "length (rq_Body req) \<le> maxMutationRequestBytes" "encodable 0 v" "decode_struct flds (utf8_json v) zero = Some r"
  shows "decodeStrictJSON flds zero req = Inr r"
  using assms first_value_whole[OF assms(3), of "utf8_json v"] parse_Marshal[OF assms(4)]
  by (simp add: decodeStrictJSON_def)

text \<open>Nothing but known members is accepted.\<close>

lemma decode_members_known: "decode_members flds ms r = Some r' \<Longrightarrow> \<forall>m \<in> set ms. find_field (fst m) flds \<noteq> None"
  by (induction flds ms r rule: decode_members.induct) (auto split: option.splits)

lemma decode_struct_known:
  "decode_struct flds v zero = Some r \<Longrightarrow> v = JNull \<or> (\<exists>ms. v = JObj ms \<and> (\<forall>m \<in> set ms. find_field (fst m) flds \<noteq> None))"
  using decode_members_known[of flds _ zero r] by (cases v) (fastforce simp: decode_struct_def)+

lemma decodeStrictJSON_value:
  assumes "decodeStrictJSON flds zero req = Inr r"
  obtains v where "ParseMediaType (rq_ContentType req) = Some ''application/json''"
    "length (rq_Body req) \<le> maxMutationRequestBytes" "json_parse (rq_Body req) = Some v" "decode_struct flds v zero = Some r"
proof -
  from assms have m: "ParseMediaType (rq_ContentType req) = Some ''application/json''"
    by (auto simp: decodeStrictJSON_def split: if_splits)
  from assms obtain v where v: "first_value maxMutationRequestBytes (rq_Body req) = FirstValue v True"
    "decode_struct flds v zero = Some r"
    by (auto simp: decodeStrictJSON_def split: if_splits first_value.splits option.splits)
  from that[OF m _ _ v(2)] first_value_flag[OF v(1)] show ?thesis by blast
qed

section \<open>Properties\<close>

text \<open>A request sends a document: the JSON content type and a body within the limit.\<close>

definition sends :: "Request \<Rightarrow> json \<Rightarrow> bool" where
  "sends req v \<longleftrightarrow> ParseMediaType (rq_ContentType req) = Some ''application/json'' \<and> rq_Body req = Marshal v
     \<and> length (rq_Body req) \<le> maxMutationRequestBytes"

lemmas sends_decodes = decode_document[OF conjunct1 conjunct1[OF conjunct2] conjunct2[OF conjunct2], OF sends_def[THEN iffD1]
  sends_def[THEN iffD1] sends_def[THEN iffD1]]


definition example_activation :: ActivateInput where
  "example_activation = \<lparr>av_ExpectedRevision = 7, av_VersionID = ''00000000-0000-4000-8000-000000000060''\<rparr>"

definition activation_request :: Request where
  "activation_request = \<lparr>rq_Method = ''POST'', rq_RequestURI = ''/v1/policies/x/activate'', rq_URL = empty_url,
     rq_Authorization = [], rq_ContentType = ''Application/JSON; charset=utf-8'',
     rq_Body = Marshal (activatePolicy_json example_activation)\<rparr>"


end
