(* ===== verification/Intent.thy ===== *)
theory Intent
  imports Registration_Facts Policy_Properties
begin

text \<open>
  The abstract specification of the platform: what operators want. A rule has an owner, a desired
  state and a revision; a policy has a name, an active version, a revision and its versions. There are
  five events, each on one rule or one policy at the revision it expects. Statuses, bindings, errors,
  times, audit events and SPIRE are below this level.
\<close>

section \<open>The specification\<close>

record rule_intent =
  ri_org :: string
  ri_workload :: string
  ri_selectors :: json
  ri_state :: string
  ri_revision :: int
  ri_parent :: "string option"
  ri_ttl :: int

record policy_intent =
  pi_org :: string
  pi_name :: string
  pi_active :: "string option"
  pi_revision :: int
  pi_versions :: "(string \<times> RuleInput) list"

record intent =
  in_rules :: "string \<Rightarrow> rule_intent option"
  in_policies :: "string \<Rightarrow> policy_intent option"

datatype event = RuleAdded string | RuleReplaced string int | PolicyAdded string | VersionAppended string int
  | VersionActivated string int

inductive intent_step :: "intent \<Rightarrow> event \<Rightarrow> intent \<Rightarrow> bool" where
  add_rule: "in_rules s i = None \<Longrightarrow> ri_revision r = 1 \<Longrightarrow> ri_state r = ''present''
     \<Longrightarrow> \<forall>j x. in_rules s j = Some x \<longrightarrow> ri_workload x \<noteq> ri_workload r
     \<Longrightarrow> intent_step s (RuleAdded i) (s\<lparr>in_rules := (in_rules s)(i \<mapsto> r)\<rparr>)"
| replace_rule: "in_rules s i = Some r \<Longrightarrow> ri_revision r = n
     \<Longrightarrow> r' = r\<lparr>ri_revision := n + 1, ri_state := state, ri_selectors := sels, ri_parent := parent, ri_ttl := ttl\<rparr>
     \<Longrightarrow> intent_step s (RuleReplaced i n) (s\<lparr>in_rules := (in_rules s)(i \<mapsto> r')\<rparr>)"
| add_policy: "in_policies s i = None \<Longrightarrow> pi_revision p = 1 \<Longrightarrow> pi_active p = None \<Longrightarrow> length (pi_versions p) = 1
     \<Longrightarrow> \<forall>j x. in_policies s j = Some x \<longrightarrow> (pi_org x, pi_name x) \<noteq> (pi_org p, pi_name p)
     \<Longrightarrow> intent_step s (PolicyAdded i) (s\<lparr>in_policies := (in_policies s)(i \<mapsto> p)\<rparr>)"
| append_version: "in_policies s i = Some p \<Longrightarrow> pi_revision p = n
     \<Longrightarrow> p' = p\<lparr>pi_revision := n + 1, pi_versions := pi_versions p @ [v]\<rparr>
     \<Longrightarrow> intent_step s (VersionAppended i n) (s\<lparr>in_policies := (in_policies s)(i \<mapsto> p')\<rparr>)"
| activate_version: "in_policies s i = Some p \<Longrightarrow> pi_revision p = n \<Longrightarrow> (v, rule) \<in> set (pi_versions p)
     \<Longrightarrow> p' = p\<lparr>pi_revision := n + 1, pi_active := Some v\<rparr>
     \<Longrightarrow> intent_step s (VersionActivated i n) (s\<lparr>in_policies := (in_policies s)(i \<mapsto> p')\<rparr>)"

inductive_cases intent_step_RuleReplaced: "intent_step s (RuleReplaced i n) s'"
inductive_cases intent_step_VersionAppended: "intent_step s (VersionAppended i n) s'"
inductive_cases intent_step_VersionActivated: "intent_step s (VersionActivated i n) s'"

inductive intent_steps :: "intent \<Rightarrow> event list \<Rightarrow> intent \<Rightarrow> bool" where
  none: "intent_steps s [] s"
| more: "intent_step s e s' \<Longrightarrow> intent_steps s' es s'' \<Longrightarrow> intent_steps s (e # es) s''"

section \<open>Revisions\<close>

text \<open>Nothing that exists goes away, and its revision only grows.\<close>

definition grows :: "intent \<Rightarrow> intent \<Rightarrow> bool" where
  "grows s s' \<longleftrightarrow>
     (\<forall>i r. in_rules s i = Some r \<longrightarrow> (\<exists>r'. in_rules s' i = Some r' \<and> ri_revision r \<le> ri_revision r'
        \<and> ri_org r' = ri_org r \<and> ri_workload r' = ri_workload r \<and> (ri_revision r' = ri_revision r \<longrightarrow> r' = r)))
   \<and> (\<forall>i p. in_policies s i = Some p \<longrightarrow> (\<exists>p'. in_policies s' i = Some p' \<and> pi_revision p \<le> pi_revision p'
        \<and> pi_org p' = pi_org p \<and> pi_name p' = pi_name p
        \<and> (\<exists>vs. pi_versions p' = pi_versions p @ vs) \<and> (pi_revision p' = pi_revision p \<longrightarrow> p' = p)))"

lemma grows_refl: "grows s s"
  by (auto simp: grows_def)

lemma grows_rules:
  "grows s s' \<Longrightarrow> in_rules s i = Some r \<Longrightarrow> \<exists>r'. in_rules s' i = Some r' \<and> ri_revision r \<le> ri_revision r'
     \<and> ri_org r' = ri_org r \<and> ri_workload r' = ri_workload r \<and> (ri_revision r' = ri_revision r \<longrightarrow> r' = r)"
  by (simp add: grows_def)

lemma grows_policies:
  "grows s s' \<Longrightarrow> in_policies s i = Some p \<Longrightarrow> \<exists>p'. in_policies s' i = Some p' \<and> pi_revision p \<le> pi_revision p'
     \<and> pi_org p' = pi_org p \<and> pi_name p' = pi_name p
     \<and> (\<exists>vs. pi_versions p' = pi_versions p @ vs) \<and> (pi_revision p' = pi_revision p \<longrightarrow> p' = p)"
  by (simp add: grows_def)

lemma grows_trans:
  assumes "grows a b" "grows b c"
  shows "grows a c"
  unfolding grows_def
proof (intro conjI allI impI)
  fix i r assume "in_rules a i = Some r"
  from grows_rules[OF assms(1) this] obtain x where x: "in_rules b i = Some x" "ri_revision r \<le> ri_revision x"
    "ri_org x = ri_org r" "ri_workload x = ri_workload r" "ri_revision x = ri_revision r \<longrightarrow> x = r" by blast
  from grows_rules[OF assms(2) x(1)] x(2-) show "\<exists>r'. in_rules c i = Some r' \<and> ri_revision r \<le> ri_revision r'
     \<and> ri_org r' = ri_org r \<and> ri_workload r' = ri_workload r \<and> (ri_revision r' = ri_revision r \<longrightarrow> r' = r)" by force
next
  fix i p assume "in_policies a i = Some p"
  from grows_policies[OF assms(1) this] obtain x vs where x: "in_policies b i = Some x" "pi_revision p \<le> pi_revision x"
    "pi_org x = pi_org p" "pi_name x = pi_name p" "pi_versions x = pi_versions p @ vs"
    "pi_revision x = pi_revision p \<longrightarrow> x = p" by blast
  from grows_policies[OF assms(2) x(1)] x(2-) show "\<exists>p'. in_policies c i = Some p' \<and> pi_revision p \<le> pi_revision p'
     \<and> pi_org p' = pi_org p \<and> pi_name p' = pi_name p
     \<and> (\<exists>vs. pi_versions p' = pi_versions p @ vs) \<and> (pi_revision p' = pi_revision p \<longrightarrow> p' = p)" by force
qed

lemma intent_step_grows: "intent_step s e s' \<Longrightarrow> grows s s'"
  by (induction rule: intent_step.induct) (auto simp: grows_def)

text \<open>An event on a rule or a policy happens at most once at a revision.\<close>

definition subject :: "event \<Rightarrow> (bool \<times> string \<times> int) option" where
  "subject e = (case e of RuleReplaced i n \<Rightarrow> Some (True, i, n) | VersionAppended i n \<Rightarrow> Some (False, i, n)
     | VersionActivated i n \<Rightarrow> Some (False, i, n) | _ \<Rightarrow> None)"

lemma intent_step_once:
  assumes "intent_step s e s1" "grows s1 s2" "intent_step s2 e' s3" "subject e = Some x"
  shows "subject e' \<noteq> Some x"
proof
  assume e': "subject e' = Some x"
  show False
  proof (cases "fst x")
    case True
    with assms(4) e' obtain i n where e: "e = RuleReplaced i n" "e' = RuleReplaced i n"
      by (auto simp: subject_def split: event.splits)
    from assms(1) e(1) obtain r where "in_rules s1 i = Some r" "ri_revision r = n + 1"
      by (auto elim: intent_step_RuleReplaced)
    with grows_rules[OF assms(2)] obtain r' where "in_rules s2 i = Some r'" "n + 1 \<le> ri_revision r'" by metis
    with assms(3) e(2) show False by (auto elim: intent_step_RuleReplaced)
  next
    case False
    then obtain i n where x: "x = (False, i, n)" by (cases x) auto
    with assms(1,4) obtain p where "in_policies s1 i = Some p" "pi_revision p = n + 1"
      by (auto simp: subject_def split: event.splits elim: intent_step_VersionAppended intent_step_VersionActivated)
    with grows_policies[OF assms(2)] obtain p' where "in_policies s2 i = Some p'" "n + 1 \<le> pi_revision p'" by metis
    with assms(3) e' x show False
      by (auto simp: subject_def split: event.splits elim: intent_step_VersionAppended intent_step_VersionActivated)
  qed
qed

section \<open>The intent of the tables\<close>

definition rule_intent_of :: "rule_row \<Rightarrow> rule_intent" where
  "rule_intent_of r = \<lparr>ri_org = rr_org r, ri_workload = rr_workload r, ri_selectors = rr_selectors r,
     ri_state = rr_desired r, ri_revision = rr_revision r, ri_parent = rr_parent r, ri_ttl = rr_ttl r\<rparr>"

definition policy_intent_of :: "version_row list \<Rightarrow> policy_row \<Rightarrow> policy_intent" where
  "policy_intent_of vs p = \<lparr>pi_org = ap_org p, pi_name = ap_name p, pi_active = ap_active p, pi_revision = ap_revision p,
     pi_versions = map (\<lambda>v. (pv_id v, stored_rule v)) (filter (\<lambda>v. pv_policy v = ap_id p) vs)\<rparr>"

definition intent_of :: "tables \<Rightarrow> intent" where
  "intent_of t = \<lparr>
     in_rules = (\<lambda>i. map_option rule_intent_of (find (\<lambda>r. rr_id r = i) (registration_rules t))),
     in_policies = (\<lambda>i. map_option (policy_intent_of (access_policy_versions t)) (find (\<lambda>p. ap_id p = i) (access_policies t)))\<rparr>"

lemma intent_of_cong:
  "registration_rules t' = registration_rules t \<Longrightarrow> access_policies t' = access_policies t
     \<Longrightarrow> access_policy_versions t' = access_policy_versions t \<Longrightarrow> intent_of t' = intent_of t"
  by (simp add: intent_of_def)

lemma intent_logged: "logged t ev t' \<Longrightarrow> intent_of t' = intent_of t"
  by (rule intent_of_cong) (auto dest: logged_with_event)

text \<open>Rows: an insert adds one intent, an update of a row changes one.\<close>

lemma find_fresh: "i \<notin> set (map k xs) \<Longrightarrow> find (\<lambda>y. k y = i) xs = None"
  by (induction xs) auto

lemma find_added:
  assumes "k x \<notin> set (map k xs)"
  shows "map_option f (find (\<lambda>y. k y = i) (xs @ [x])) = ((\<lambda>i. map_option f (find (\<lambda>y. k y = i) xs))(k x \<mapsto> f x)) i"
proof -
  show ?thesis using find_fresh[OF assms] by (auto simp: find_append split: option.split)
qed

lemma find_updated:
  assumes "find (\<lambda>y. k y = i0) xs = Some x" "q x" "\<And>y. k (g y) = k y" "\<And>y. q y \<Longrightarrow> k y = i0"
  shows "map_option f (find (\<lambda>y. k y = i) (update_rows q g xs)) = ((\<lambda>i. map_option f (find (\<lambda>y. k y = i) xs))(i0 \<mapsto> f (g x))) i"
proof -
  have "find (\<lambda>y. k y = i) (update_rows q g xs) = map_option (\<lambda>y. if q y then g y else y) (find (\<lambda>y. k y = i) xs)"
    unfolding update_rows_def using assms(3) by (intro find_map_same_key) simp
  moreover have "\<not> q y" if "find (\<lambda>y. k y = i) xs = Some y" "i \<noteq> i0" for y
    using find_Some_mem[OF that(1)] assms(4)[of y] that(2) by auto
  ultimately show ?thesis using assms(1,2) by (cases "find (\<lambda>y. k y = i) xs") (auto simp: fun_upd_def)
qed

lemma find_kept:
  assumes "\<And>y. k (g y) = k y" "\<And>y. f (g y) = f y"
  shows "map_option f (find (\<lambda>y. k y = i) (update_rows q g xs)) = map_option f (find (\<lambda>y. k y = i) xs)"
proof -
  have "find (\<lambda>y. k y = i) (update_rows q g xs) = map_option (\<lambda>y. if q y then g y else y) (find (\<lambda>y. k y = i) xs)"
    unfolding update_rows_def using assms(1) by (intro find_map_same_key) simp
  then show ?thesis using assms(2) by (cases "find (\<lambda>y. k y = i) xs") auto
qed

lemma in_rules_of: "in_rules (intent_of t) i = map_option rule_intent_of (find (\<lambda>r. rr_id r = i) (registration_rules t))"
  by (simp add: intent_of_def)

lemma in_policies_of: "in_policies (intent_of t) i
   = map_option (policy_intent_of (access_policy_versions t)) (find (\<lambda>p. ap_id p = i) (access_policies t))"
  by (simp add: intent_of_def)

lemma intent_marked:
  assumes "update_rules q g t = Inr t'" "\<And>r. rr_id (g r) = rr_id r" "\<And>r. rule_intent_of (g r) = rule_intent_of r"
  shows "intent_of t' = intent_of t"
  using assms by (auto simp: update_rules_Inr intent_of_def fun_eq_iff intro!: find_kept)

text \<open>An update at a revision changes the one intent.\<close>

lemma intent_rule_updated:
  assumes "update_rules (\<lambda>x. rr_id x = i0 \<and> rr_revision x = n) g t = Inr mid"
    and "find (\<lambda>x. rr_id x = i0) (registration_rules t) = Some r" "rr_revision r = n" "\<And>x. rr_id (g x) = rr_id x"
  shows "intent_of mid = (intent_of t)\<lparr>in_rules := (in_rules (intent_of t))(i0 \<mapsto> rule_intent_of (g r))\<rparr>"
proof -
  have mid: "registration_rules mid = update_rows (\<lambda>x. rr_id x = i0 \<and> rr_revision x = n) g (registration_rules t)"
    "access_policies mid = access_policies t" "access_policy_versions mid = access_policy_versions t"
    using assms(1) by (simp_all add: update_rules_Inr)
  have "rr_id r = i0 \<and> rr_revision r = n" using find_Some_mem[OF assms(2)] assms(3) by simp
  note f = find_updated[OF assms(2), of "\<lambda>x. rr_id x = i0 \<and> rr_revision x = n" g rule_intent_of, OF this assms(4)]
  show ?thesis by (simp add: intent_of_def mid f fun_eq_iff)
qed

lemma intent_policy_updated:
  assumes "update_policies (\<lambda>x. ap_id x = i0 \<and> ap_revision x = n) g t = Inr mid"
    and "find (\<lambda>x. ap_id x = i0) (access_policies t) = Some p" "ap_revision p = n" "\<And>x. ap_id (g x) = ap_id x"
  shows "intent_of mid = (intent_of t)\<lparr>in_policies := (in_policies (intent_of t))
     (i0 \<mapsto> policy_intent_of (access_policy_versions t) (g p))\<rparr>"
proof -
  have mid: "access_policies mid = update_rows (\<lambda>x. ap_id x = i0 \<and> ap_revision x = n) g (access_policies t)"
    "registration_rules mid = registration_rules t" "access_policy_versions mid = access_policy_versions t"
    using assms(1) by (simp_all add: update_policies_Inr)
  have "ap_id p = i0 \<and> ap_revision p = n" using find_Some_mem[OF assms(2)] assms(3) by simp
  note f = find_updated[OF assms(2), of "\<lambda>x. ap_id x = i0 \<and> ap_revision x = n" g
      "policy_intent_of (access_policy_versions t)", OF this assms(4)]
  show ?thesis by (simp add: intent_of_def mid f fun_eq_iff)
qed

section \<open>The refinement\<close>

lemma rule_created_refines:
  assumes "rule_created pg actor c input now t res t'"
  shows "intent_step (intent_of t) (RuleAdded (mr_ID res)) (intent_of t')"
proof -
  from assms obtain w org mid ev row where
    i: "insert_rule row t = Inr mid" "rr_id row = mr_ID res" "rr_revision row = 1" "rr_desired row = ''present''"
    and l: "logged mid ev t'"
    unfolding rule_created_def by (elim exE conjE) (rule that, assumption, simp_all)
  from i(1) have m: "registration_rules mid = registration_rules t @ [row]" "access_policies mid = access_policies t"
      "access_policy_versions mid = access_policy_versions t"
    and u: "rr_id row \<notin> set (map rr_id (registration_rules t))" "rr_workload row \<notin> set (map rr_workload (registration_rules t))"
    by (auto simp: insert_rule_Inr rule_uniques_def)
  have "intent_of t' = (intent_of t)\<lparr>in_rules := (in_rules (intent_of t))(mr_ID res \<mapsto> rule_intent_of row)\<rparr>"
    using find_added[of rr_id row "registration_rules t" rule_intent_of] u(1) i(2)
    unfolding intent_logged[OF l] by (simp add: intent_of_def m fun_eq_iff)
  moreover have "in_rules (intent_of t) (mr_ID res) = None"
    using find_fresh[OF u(1)] i(2) by (simp add: in_rules_of)
  moreover have "\<forall>j x. in_rules (intent_of t) j = Some x \<longrightarrow> ri_workload x \<noteq> ri_workload (rule_intent_of row)"
    using u(2) by (fastforce simp: in_rules_of rule_intent_of_def dest!: find_Some_mem intro: image_eqI[OF sym])
  ultimately show ?thesis using i(3,4) by (auto intro!: intent_step.add_rule simp: rule_intent_of_def)
qed

lemma rule_replaced_refines:
  assumes "rule_replaced actor c rid input now t res t'"
  shows "\<exists>i. uuid_in rid = Some i \<and> intent_step (intent_of t) (RuleReplaced i (rd_ExpectedRevision input)) (intent_of t')"
proof -
  let ?g = "replaced_row (string_array (map coerce (rd_Selectors input))) (rd_DesiredState input)
         (rd_ParentSPIFFEID input) (rd_TTL input) now"
  from assms obtain r mid ev where
    f: "find (\<lambda>r. uuid_in rid = Some (rr_id r)) (registration_rules t) = Some r"
    and r: "rr_revision r = rd_ExpectedRevision input"
    and u: "update_rules (\<lambda>x. rr_id x = rr_id r \<and> rr_revision x = rr_revision r) ?g t = Inr mid"
    and l: "logged mid ev t'"
    unfolding rule_replaced_def by (elim exE conjE) (rule that)
  have i: "uuid_in rid = Some (rr_id r)" using find_Some_mem[OF f] by simp
  with f have f': "find (\<lambda>x. rr_id x = rr_id r) (registration_rules t) = Some r" by (simp add: eq_commute)
  have "intent_of t' = (intent_of t)\<lparr>in_rules := (in_rules (intent_of t))(rr_id r \<mapsto> rule_intent_of (?g r))\<rparr>"
    using intent_rule_updated[OF u f' refl] by (simp add: intent_logged[OF l] replaced_row_def)
  moreover have "in_rules (intent_of t) (rr_id r) = Some (rule_intent_of r)" by (simp add: in_rules_of f')
  ultimately show ?thesis
    using intent_step.replace_rule[of "intent_of t" "rr_id r" "rule_intent_of r" "rd_ExpectedRevision input" "rule_intent_of (?g r)"] i r
    by (auto simp: rule_intent_of_def replaced_row_def)
qed

lemma version_activated_refines:
  assumes "version_activated actor c pid input now t res t'"
  shows "\<exists>i. uuid_in pid = Some i \<and> intent_step (intent_of t) (VersionActivated i (av_ExpectedRevision input)) (intent_of t')"
proof -
  from assms obtain p v mid ev where
    f: "find (\<lambda>p. uuid_in pid = Some (ap_id p)) (access_policies t) = Some p"
    and p: "ap_revision p = av_ExpectedRevision input"
    and v: "v \<in> set (access_policy_versions t)" "pv_policy v = ap_id p"
    and u: "update_policies (\<lambda>x. ap_id x = ap_id p \<and> ap_revision x = ap_revision p) (activated_row (pv_id v) now) t = Inr mid"
    and l: "logged mid ev t'"
    unfolding version_activated_def by (elim exE conjE) (rule that)
  let ?i = "policy_intent_of (access_policy_versions t)"
  have i: "uuid_in pid = Some (ap_id p)" using find_Some_mem[OF f] by simp
  with f have f': "find (\<lambda>x. ap_id x = ap_id p) (access_policies t) = Some p" by (simp add: eq_commute)
  have "intent_of t' = (intent_of t)\<lparr>in_policies := (in_policies (intent_of t))
      (ap_id p \<mapsto> ?i (activated_row (pv_id v) now p))\<rparr>"
    using intent_policy_updated[OF u f' refl] by (simp add: intent_logged[OF l] activated_row_def)
  moreover have "in_policies (intent_of t) (ap_id p) = Some (?i p)" by (simp add: in_policies_of f')
  moreover have "(pv_id v, stored_rule v) \<in> set (pi_versions (?i p))" using v by (auto simp: policy_intent_of_def)
  ultimately show ?thesis
    using intent_step.activate_version[of "intent_of t" "ap_id p" "?i p" "av_ExpectedRevision input" "pv_id v" "stored_rule v"
        "?i (activated_row (pv_id v) now p)"] i p
    by (auto simp: policy_intent_of_def activated_row_def)
qed

lemma version_appended_refines:
  assumes "version_appended actor c pid input now t res t'"
  shows "\<exists>i. uuid_in pid = Some i \<and> intent_step (intent_of t) (VersionAppended i (ai_ExpectedRevision input)) (intent_of t')"
proof -
  from assms obtain p mid1 mid2 ev v where
    f: "find (\<lambda>p. uuid_in pid = Some (ap_id p)) (access_policies t) = Some p"
    and p: "ap_revision p = ai_ExpectedRevision input"
    and v: "insert_version v t = Inr mid1" "pv_policy v = ap_id p"
    and u: "update_policies (\<lambda>x. ap_id x = ap_id p \<and> ap_revision x = ap_revision p) (advanced_row now) mid1 = Inr mid2"
    and l: "logged mid2 ev t'"
    unfolding version_appended_def by (elim exE conjE) (rule that, assumption, assumption, assumption, simp, assumption+)
  from v(1) have m: "access_policies mid1 = access_policies t" "registration_rules mid1 = registration_rules t"
    "access_policy_versions mid1 = access_policy_versions t @ [v]" by (auto simp: insert_version_Inr)
  let ?i = "policy_intent_of (access_policy_versions t)" and ?j = "policy_intent_of (access_policy_versions mid1)"
  have i: "uuid_in pid = Some (ap_id p)" using find_Some_mem[OF f] by simp
  with f have f': "find (\<lambda>x. ap_id x = ap_id p) (access_policies t) = Some p" by (simp add: eq_commute)
  have others: "?j q = ?i q" if "ap_id q \<noteq> ap_id p" for q using that v(2) by (simp add: policy_intent_of_def m)
  have "in_policies (intent_of mid1) j = in_policies (intent_of t) j" if "j \<noteq> ap_id p" for j
    using others that by (cases "find (\<lambda>x. ap_id x = j) (access_policies t)") (auto simp: in_policies_of m dest!: find_Some_mem)
  then have "intent_of t' = (intent_of t)\<lparr>in_policies := (in_policies (intent_of t))(ap_id p \<mapsto> ?j (advanced_row now p))\<rparr>"
    using intent_policy_updated[OF u, unfolded m(1), OF f' refl]
    by (auto simp: intent_logged[OF l] advanced_row_def fun_eq_iff in_rules_of m(2) intro!: intent.equality)
  moreover have "in_policies (intent_of t) (ap_id p) = Some (?i p)" by (simp add: in_policies_of f')
  ultimately show ?thesis
    using intent_step.append_version[of "intent_of t" "ap_id p" "?i p" "ai_ExpectedRevision input" "?j (advanced_row now p)"
        "(pv_id v, stored_rule v)"] i p v(2)
    by (auto simp: policy_intent_of_def advanced_row_def m)
qed

lemma policy_created_refines:
  assumes "policy_created pg actor c input now t res t'" "schema_ok t" "canonical_uuids pg"
  shows "intent_step (intent_of t) (PolicyAdded (pr_ID (cr_Policy res))) (intent_of t')"
proof -
  let ?pid = "pr_ID (cr_Policy res)"
  from assms(1) obtain k pid p v mid1 mid2 ev where
    k: "?pid = pg_uuid pg k" "uuid_in ?pid = Some pid"
    and p: "insert_policy p t = Inr mid1" "ap_id p = ?pid" "ap_revision p = 1" "ap_active p = None"
    and v: "insert_version v mid1 = Inr mid2" "pv_policy v = pid"
    and l: "logged mid2 ev t'"
    unfolding policy_created_def by (elim exE conjE) (rule that, assumption, assumption, assumption, simp, simp, simp, assumption, simp, assumption)
  have pid: "pid = ?pid" using k assms(3) by (simp add: canonical_uuids_def)
  from p(1) v(1) have m: "access_policies mid2 = access_policies t @ [p]" "registration_rules mid2 = registration_rules t"
    "access_policy_versions mid2 = access_policy_versions t @ [v]"
    and q: "?pid \<notin> set (map ap_id (access_policies t))"
      "(ap_org p, ap_name p) \<notin> set (map (\<lambda>x. (ap_org x, ap_name x)) (access_policies t))"
    using p(2) by (auto simp: insert_version_Inr insert_policy_Inr policy_uniques_def)
  have "\<forall>x \<in> set (access_policy_versions t). pv_policy x \<in> set (map ap_id (access_policies t))"
    using assms(2) by (simp add: schema_ok_def version_fks_def list_all_iff)
  with q(1) have none: "filter (\<lambda>x. pv_policy x = ?pid) (access_policy_versions t) = []"
    unfolding filter_empty_conv by metis
  let ?j = "policy_intent_of (access_policy_versions mid2)"
  have others: "?j x = policy_intent_of (access_policy_versions t) x" if "ap_id x \<noteq> ?pid" for x
    using that v(2) pid by (simp add: policy_intent_of_def m)
  have old: "map_option ?j (find (\<lambda>x. ap_id x = i) (access_policies t))
      = map_option (policy_intent_of (access_policy_versions t)) (find (\<lambda>x. ap_id x = i) (access_policies t))" for i
    using others q(1) by (cases "find (\<lambda>x. ap_id x = i) (access_policies t)")
      (auto dest!: find_Some_mem, metis image_eqI)
  have "intent_of t' = (intent_of t)\<lparr>in_policies := (in_policies (intent_of t))(?pid \<mapsto> ?j p)\<rparr>"
    using find_added[of ap_id p "access_policies t" ?j] q(1) p(2)
    unfolding intent_logged[OF l] by (simp add: intent_of_def m(1,2) fun_eq_iff old)
  moreover have "in_policies (intent_of t) ?pid = None" using find_fresh[OF q(1)] by (simp add: in_policies_of)
  moreover have "length (pi_versions (?j p)) = 1" using none v(2) pid p(2) by (simp add: policy_intent_of_def m)
  moreover have "\<forall>j x. in_policies (intent_of t) j = Some x \<longrightarrow> (pi_org x, pi_name x) \<noteq> (pi_org (?j p), pi_name (?j p))"
  proof (intro allI impI)
    fix j x assume "in_policies (intent_of t) j = Some x"
    then obtain y where "y \<in> set (access_policies t)" "pi_org x = ap_org y" "pi_name x = ap_name y"
      by (auto simp: in_policies_of policy_intent_of_def dest!: find_Some_mem)
    with q(2) show "(pi_org x, pi_name x) \<noteq> (pi_org (?j p), pi_name (?j p))"
      unfolding set_map by (auto simp: policy_intent_of_def image_iff)
  qed
  ultimately show ?thesis using p(3,4) by (auto intro!: intent_step.add_policy simp: policy_intent_of_def)
qed

end
