(* ===== verification/Audit_Trail.thy ===== *)
theory Audit_Trail
  imports Intent
begin

text \<open>
  The audit event of a change: who made it, under which correlation ID, which of the five events it
  was and on which rule or policy. A change appends exactly this event.
\<close>

definition event_action :: "event \<Rightarrow> string" where
  "event_action e = (case e of
      RuleAdded i \<Rightarrow> ''registration_rule.create_desired_state''
    | RuleReplaced i n \<Rightarrow> ''registration_rule.replace_desired_state''
    | PolicyAdded i \<Rightarrow> ''access_policy.create_with_version''
    | VersionAppended i n \<Rightarrow> ''access_policy.append_version''
    | VersionActivated i n \<Rightarrow> ''access_policy.activate_version'')"

text \<open>A change of something that exists names it as the request did, in any case of its letters.\<close>

definition event_target :: "event \<Rightarrow> string \<Rightarrow> bool" where
  "event_target e target = (case e of
      RuleAdded i \<Rightarrow> target = i
    | RuleReplaced i n \<Rightarrow> uuid_in target = Some i
    | PolicyAdded i \<Rightarrow> target = i
    | VersionAppended i n \<Rightarrow> uuid_in target = Some i
    | VersionActivated i n \<Rightarrow> uuid_in target = Some i)"

definition records :: "string \<Rightarrow> string \<Rightarrow> event \<Rightarrow> audit_row \<Rightarrow> bool" where
  "records actorType actorID e ev \<longleftrightarrow> ae_actor_type ev = actorType \<and> ae_actor_id ev = actorID
     \<and> ae_action ev = event_action e \<and> event_target e (ae_target_id ev)"

text \<open>The step of a change, with its event and its record.\<close>

definition audited_step :: "string \<Rightarrow> string \<Rightarrow> string \<Rightarrow> event \<Rightarrow> tables \<Rightarrow> tables \<Rightarrow> bool" where
  "audited_step actorType actorID c e t t' \<longleftrightarrow> intent_step (intent_of t) e (intent_of t')
     \<and> (\<exists>ev. audit_events t' = audit_events t @ [ev] \<and> records actorType actorID e ev \<and> ae_correlation ev = c)"

lemma logged_last: "logged mid ev t' \<Longrightarrow> audit_events mid = audit_events t \<Longrightarrow> audit_events t' = audit_events t @ [ev]"
  by (drule logged_with_event) (simp add: with_event_def)

lemma rule_created_audited:
  assumes "rule_created pg actor c input now t res t'"
  shows "audited_step (ra_Type actor) (ra_ID actor) c (RuleAdded (mr_ID res)) t t'"
proof -
  from assms obtain row mid ev org where i: "insert_rule row t = Inr mid" and l: "logged mid ev t'"
    and e: "event_row (rule_event actor c org ''registration_rule.create_desired_state'' (mr_ID res)
        (create_metadata actor res)) (ae_id ev) now = Some ev"
    unfolding rule_created_def by (elim exE conjE) (rule that)
  have n: "audit_events mid = audit_events t" using i by (simp add: insert_rule_Inr)
  show ?thesis
    using rule_created_refines[OF assms] rule_event_row[OF e encodable_create_metadata] logged_last[OF l n]
    by (simp add: audited_step_def records_def event_action_def event_target_def)
qed

lemma rule_replaced_audited:
  assumes "rule_replaced actor c rid input now t res t'"
  shows "\<exists>i. uuid_in rid = Some i
    \<and> audited_step (ra_Type actor) (ra_ID actor) c (RuleReplaced i (rd_ExpectedRevision input)) t t'"
proof -
  from assms obtain q g org m mid ev where u: "update_rules q g t = Inr mid" and l: "logged mid ev t'"
    and e: "event_row (rule_event actor c org ''registration_rule.replace_desired_state'' rid m) (ae_id ev) now = Some ev"
    and m: "encodable 0 m"
    unfolding rule_replaced_def by (elim exE conjE) (rule that, assumption, assumption, assumption, rule encodable_replace_metadata)
  have n: "audit_events mid = audit_events t" using u by (simp add: update_rules_Inr)
  from rule_replaced_refines[OF assms] rule_event_row[OF e m] logged_last[OF l n] show ?thesis
    by (fastforce simp: audited_step_def records_def event_action_def event_target_def)
qed

lemma policy_created_audited:
  assumes "policy_created pg actor c input now t res t'" "schema_ok t" "canonical_uuids pg"
  shows "audited_step (pa_Type actor) (pa_ID actor) c (PolicyAdded (pr_ID (cr_Policy res))) t t'"
proof -
  from assms(1) obtain p v mid1 mid2 ev org where i: "insert_policy p t = Inr mid1" "insert_version v mid1 = Inr mid2"
    and l: "logged mid2 ev t'"
    and e: "event_row (policy_event actor c org ''access_policy.create_with_version'' (pr_ID (cr_Policy res))
        (policy_create_metadata actor res)) (ae_id ev) now = Some ev"
    unfolding policy_created_def by (elim exE conjE) (rule that)
  have n: "audit_events mid2 = audit_events t" using i by (auto simp: insert_policy_Inr insert_version_Inr)
  show ?thesis
    using policy_created_refines[OF assms] policy_event_row[OF e encodable_policy_metadata(1)] logged_last[OF l n]
    by (simp add: audited_step_def records_def event_action_def event_target_def)
qed

lemma version_appended_audited:
  assumes "version_appended actor c pid input now t res t'"
  shows "\<exists>i. uuid_in pid = Some i
    \<and> audited_step (pa_Type actor) (pa_ID actor) c (VersionAppended i (ai_ExpectedRevision input)) t t'"
proof -
  from assms obtain v q g mid1 mid2 ev org where i: "insert_version v t = Inr mid1" "update_policies q g mid1 = Inr mid2"
    and l: "logged mid2 ev t'"
    and e: "event_row (policy_event actor c org ''access_policy.append_version'' pid (append_metadata actor res)) (ae_id ev) now = Some ev"
    unfolding version_appended_def by (elim exE conjE) (rule that)
  have n: "audit_events mid2 = audit_events t" using i by (auto simp: update_policies_Inr insert_version_Inr)
  from version_appended_refines[OF assms] policy_event_row[OF e encodable_policy_metadata(2)] logged_last[OF l n] show ?thesis
    by (fastforce simp: audited_step_def records_def event_action_def event_target_def)
qed

lemma version_activated_audited:
  assumes "version_activated actor c pid input now t res t'"
  shows "\<exists>i. uuid_in pid = Some i
    \<and> audited_step (pa_Type actor) (pa_ID actor) c (VersionActivated i (av_ExpectedRevision input)) t t'"
proof -
  from assms obtain q g mid ev org v n where u: "update_policies q g t = Inr mid" and l: "logged mid ev t'"
    and e: "event_row (policy_event actor c org ''access_policy.activate_version'' pid (activate_metadata actor res v n)) (ae_id ev) now = Some ev"
    unfolding version_activated_def by (elim exE conjE) (rule that)
  have n: "audit_events mid = audit_events t" using u by (simp add: update_policies_Inr)
  from version_activated_refines[OF assms] policy_event_row[OF e encodable_policy_metadata(3)] logged_last[OF l n] show ?thesis
    by (fastforce simp: audited_step_def records_def event_action_def event_target_def)
qed

end
