(* ===== verification/Routing.thy ===== *)
theory Routing
  imports HttpApi
begin

text \<open>
  The routes of the two muxes as one table, and the server as that table: which endpoint a request
  reaches, whether it has to be authenticated, with which permission, and which handler serves it.
\<close>

section \<open>Matching by segments\<close>

function segments :: "string \<Rightarrow> string list" where
  "segments path = (if path = [] then [] else fst (firstSegment path) # segments (snd (firstSegment path)))"
  by pat_completeness auto
termination
  by (relation "measure length") (auto intro: firstSegment_shorter[OF _ surjective_pairing])

declare segments.simps [simp del]

fun match_segs :: "'h node \<Rightarrow> string list \<Rightarrow> string list \<Rightarrow> ('h route \<times> string list) option" where
  "match_segs node [] vals = map_option (\<lambda>(ps, r). (r, vals)) (find (\<lambda>(ps, r). ps = []) node)"
| "match_segs node (seg # rest) vals =
     (case match_segs (children (Lit seg) node) rest vals of
        Some m \<Rightarrow> Some m
      | None \<Rightarrow>
          (case (if seg \<noteq> ''/'' then match_segs (children Wild node) rest (vals @ [seg]) else None) of
             Some m \<Rightarrow> Some m
           | None \<Rightarrow> map_option (\<lambda>(ps, r). (r, vals)) (find (\<lambda>(ps, r). ps = [Multi]) node)))"

lemma match_path_segs: "match_path node path vals = match_segs node (segments path) vals"
proof (induction node path vals rule: match_path.induct)
  case (1 node path vals)
  show ?case
  proof (cases "path = []")
    case True
    then show ?thesis by (simp add: match_path.simps[of node "[]"] segments.simps[of "[]"])
  next
    case False
    obtain seg rest where f: "firstSegment path = (seg, rest)" by fastforce
    note IH = 1(1)[OF False f[symmetric]] 1(2)[OF False f[symmetric]]
    show ?thesis
      using False f IH
      by (simp add: match_path.simps[of node path] segments.simps[of path] split: option.splits)
  qed
qed

lemma match_segs_Nil [simp]: "match_segs [] ss vals = None"
  by (induction ss arbitrary: vals) (simp_all add: children_def)

section \<open>The endpoints\<close>

datatype endpoint = Workloads | CreateRule | ReplaceRule string | CreatePolicy | AppendPolicyVersion string
  | ActivatePolicy string | NoRoute

text \<open>A path value is a segment other than the slash a path may end in.\<close>

definition api_endpoint :: "string \<Rightarrow> string list \<Rightarrow> endpoint" where
  "api_endpoint m ss =
     (case ss of
        [a, b] \<Rightarrow>
          if a \<noteq> ''v1'' then NoRoute
          else if b = ''workloads'' then Workloads
          else if m = ''POST'' \<and> b = ''registration-rules'' then CreateRule
          else if m = ''POST'' \<and> b = ''policies'' then CreatePolicy
          else NoRoute
      | [a, b, i] \<Rightarrow>
          if a = ''v1'' \<and> m = ''PATCH'' \<and> b = ''registration-rules'' \<and> i \<noteq> ''/'' then ReplaceRule i else NoRoute
      | [a, b, i, c] \<Rightarrow>
          if a = ''v1'' \<and> m = ''POST'' \<and> b = ''policies'' \<and> i \<noteq> ''/''
          then (if c = ''versions'' then AppendPolicyVersion i else if c = ''activate'' then ActivatePolicy i else NoRoute)
          else NoRoute
      | _ \<Rightarrow> NoRoute)"

definition endpoint_permission :: "endpoint \<Rightarrow> string option" where
  "endpoint_permission ep =
     (case ep of
        Workloads \<Rightarrow> Some PermissionWorkloadsRead
      | CreateRule \<Rightarrow> Some PermissionRegistrationsWrite
      | ReplaceRule _ \<Rightarrow> Some PermissionRegistrationsWrite
      | CreatePolicy \<Rightarrow> Some PermissionPoliciesWrite
      | AppendPolicyVersion _ \<Rightarrow> Some PermissionPoliciesWrite
      | ActivatePolicy _ \<Rightarrow> Some PermissionPoliciesActivate
      | NoRoute \<Rightarrow> None)"

definition endpoint_service :: "'w Server \<Rightarrow> endpoint \<Rightarrow> 'w handler" where
  "endpoint_service srv ep =
     (case ep of
        Workloads \<Rightarrow> getOnly (listWorkloads srv)
      | CreateRule \<Rightarrow> createRegistrationRule srv
      | ReplaceRule _ \<Rightarrow> replaceRegistrationRule srv
      | CreatePolicy \<Rightarrow> createPolicy srv
      | AppendPolicyVersion _ \<Rightarrow> appendPolicyVersion srv
      | ActivatePolicy _ \<Rightarrow> activatePolicy srv
      | NoRoute \<Rightarrow> notFound)"

definition endpoint_vals :: "endpoint \<Rightarrow> string list" where
  "endpoint_vals ep = (case ep of ReplaceRule i \<Rightarrow> [i] | AppendPolicyVersion i \<Rightarrow> [i] | ActivatePolicy i \<Rightarrow> [i] | _ \<Rightarrow> [])"

definition endpoint_handler :: "'w Server \<Rightarrow> endpoint \<Rightarrow> 'w handler" where
  "endpoint_handler srv ep = (case endpoint_permission ep of
     None \<Rightarrow> endpoint_service srv ep | Some perm \<Rightarrow> requirePermission srv perm (endpoint_service srv ep))"

definition endpoint_index :: "endpoint \<Rightarrow> nat" where
  "endpoint_index ep = (case ep of Workloads \<Rightarrow> 0 | CreateRule \<Rightarrow> 1 | ReplaceRule _ \<Rightarrow> 2 | CreatePolicy \<Rightarrow> 3
     | AppendPolicyVersion _ \<Rightarrow> 4 | ActivatePolicy _ \<Rightarrow> 5 | NoRoute \<Rightarrow> 6)"

lemmas endpoint_defs = endpoint_handler_def endpoint_permission_def endpoint_service_def endpoint_vals_def

lemma api_nodes:
  "method_node (api_routes srv) None = [([Lit ''v1'', Lit ''workloads''], api_routes srv ! 0), ([Multi], api_routes srv ! 6)]"
  "method_node (api_routes srv) (Some m) =
     (if m = ''POST'' then [([Lit ''v1'', Lit ''registration-rules''], api_routes srv ! 1),
        ([Lit ''v1'', Lit ''policies''], api_routes srv ! 3),
        ([Lit ''v1'', Lit ''policies'', Wild, Lit ''versions''], api_routes srv ! 4),
        ([Lit ''v1'', Lit ''policies'', Wild, Lit ''activate''], api_routes srv ! 5)]
      else if m = ''PATCH'' then [([Lit ''v1'', Lit ''registration-rules'', Wild], api_routes srv ! 2)] else [])"
  by (auto simp: method_node_def api_routes_def)

lemma children_simps [simp]:
  "children p [] = []"
  "children p ((q # qs, r) # node) = (if q = p then (qs, r) # children p node else children p node)"
  "children p (([], r) # node) = children p node"
  by (auto simp: children_def)

lemma segs_cases:
  obtains "ss = []" | a where "ss = [a]" | a b where "ss = [a, b]" | a b i where "ss = [a, b, i]"
  | a b i c where "ss = [a, b, i, c]" | a b i c d rest where "ss = a # b # i # c # d # rest"
  by (metis neq_Nil_conv)

text \<open>What the routes of \<open>POST\<close>, \<open>PATCH\<close> and every method match.\<close>

lemma match_any: "match_segs (method_node (api_routes srv) None) ss [] =
   (if ss = [] then None else Some (api_routes srv ! (if ss = [''v1'', ''workloads''] then 0 else 6), []))"
  by (cases ss rule: segs_cases) (auto simp: api_nodes split: option.splits)

lemma match_patch: "match_segs (method_node (api_routes srv) (Some ''PATCH'')) ss [] =
   (case api_endpoint ''PATCH'' ss of ReplaceRule i \<Rightarrow> Some (api_routes srv ! 2, [i]) | _ \<Rightarrow> None)"
  by (cases ss rule: segs_cases) (auto simp: api_nodes api_endpoint_def split: option.splits)

lemma match_post: "match_segs (method_node (api_routes srv) (Some ''POST'')) ss [] =
   (case api_endpoint ''POST'' ss of
      CreateRule \<Rightarrow> Some (api_routes srv ! 1, []) | CreatePolicy \<Rightarrow> Some (api_routes srv ! 3, [])
    | AppendPolicyVersion i \<Rightarrow> Some (api_routes srv ! 4, [i]) | ActivatePolicy i \<Rightarrow> Some (api_routes srv ! 5, [i])
    | _ \<Rightarrow> None)"
  by (cases ss rule: segs_cases) (auto simp: api_nodes api_endpoint_def split: option.splits)

lemma match_other: "m \<noteq> ''POST'' \<Longrightarrow> m \<noteq> ''PATCH'' \<Longrightarrow> match_segs (method_node (api_routes srv) (Some m)) ss [] = None"
  by (simp add: api_nodes)

lemma endpoint_any: "m \<noteq> ''POST'' \<Longrightarrow> m \<noteq> ''PATCH'' \<Longrightarrow>
   api_endpoint m ss = (if ss = [''v1'', ''workloads''] then Workloads else NoRoute)"
  by (cases ss rule: segs_cases) (auto simp: api_endpoint_def)

lemma endpoint_workloads: "api_endpoint m ss = Workloads \<longleftrightarrow> ss = [''v1'', ''workloads'']"
  by (cases ss rule: segs_cases) (auto simp: api_endpoint_def)

lemma endpoint_method:
  "api_endpoint m ss = CreateRule \<Longrightarrow> m = ''POST''" "api_endpoint m ss = CreatePolicy \<Longrightarrow> m = ''POST''"
  "api_endpoint m ss = AppendPolicyVersion i \<Longrightarrow> m = ''POST''" "api_endpoint m ss = ActivatePolicy i \<Longrightarrow> m = ''POST''"
  "api_endpoint m ss = ReplaceRule i \<Longrightarrow> m = ''PATCH''"
  by (cases ss rule: segs_cases; auto simp: api_endpoint_def split: if_splits)+

lemma match_api:
  "match_method_path (api_routes srv) m path = (if path = [] then None
     else Some (api_routes srv ! endpoint_index (api_endpoint m (segments path)), endpoint_vals (api_endpoint m (segments path))))"
proof -
  let ?ep = "api_endpoint m (segments path)"
  have ne: "segments path = [] \<longleftrightarrow> path = []" by (subst segments.simps) simp
  have nil: "api_endpoint m [] = NoRoute" by (simp add: api_endpoint_def)
  have nil_segs: "segments [] = []" by (subst segments.simps) simp
  consider "m = ''POST''" | "m = ''PATCH''" | "m \<noteq> ''POST''" "m \<noteq> ''PATCH''" by blast
  then show ?thesis
  proof cases
    case 1
    show ?thesis
      using endpoint_workloads[of m "segments path"] endpoint_method(5)[of m "segments path"]
      by (cases ?ep) (simp_all add: 1 match_method_path_def match_path_segs match_post match_any ne nil[unfolded 1]
          endpoint_index_def endpoint_vals_def del: match_segs.simps, auto simp: ne[symmetric] nil[unfolded 1])
  next
    case 2
    show ?thesis
      using endpoint_workloads[of m "segments path"] endpoint_method(1-4)[of m "segments path"]
      by (cases ?ep) (simp_all add: 2 match_method_path_def match_path_segs match_patch match_any ne nil[unfolded 2]
          endpoint_index_def endpoint_vals_def del: match_segs.simps, auto simp: ne[symmetric] nil[unfolded 2])
  next
    case 3
    then show ?thesis
      using match_other[of "''GET''" srv]
      by (simp add: match_method_path_def match_path_segs match_other match_any ne endpoint_index_def endpoint_vals_def
          endpoint_any nil_segs del: match_segs.simps)
  qed
qed

lemma api_handler: "route_handler (api_routes srv ! endpoint_index ep) = endpoint_handler srv ep"
  by (cases ep) (simp_all add: endpoint_index_def endpoint_defs api_routes_def)

section \<open>Redirects\<close>

text \<open>The two routes that end in a subtree are exact only for a path with as many slashes.\<close>

definition slashes :: "string \<Rightarrow> nat" where
  "slashes path = length (filter (\<lambda>c. c = CHR ''/'') path)"

lemma segments_slash:
  "path \<noteq> [] \<Longrightarrow> hd path = CHR ''/'' \<Longrightarrow> last path \<noteq> CHR ''/'' \<Longrightarrow> segments (path @ ''/'') = segments path @ [''/'']"
proof (induction path rule: segments.induct)
  case (1 path)
  obtain p where p: "path = CHR ''/'' # p" "p \<noteq> []" using 1(2-4) by (cases path) (auto split: if_splits)
  let ?rest = "dropWhile (\<lambda>c. c \<noteq> CHR ''/'') p"
  have f: "firstSegment path = (pathUnescape (takeWhile (\<lambda>c. c \<noteq> CHR ''/'') p), ?rest)"
    using p by (simp add: firstSegment_def)
  have t: "takeWhile (\<lambda>c. c \<noteq> CHR ''/'') (p @ ''/'') = takeWhile (\<lambda>c. c \<noteq> CHR ''/'') p"
    "dropWhile (\<lambda>c. c \<noteq> CHR ''/'') (p @ ''/'') = ?rest @ ''/''"
    by (induction p) auto
  have f': "firstSegment (path @ ''/'') = (pathUnescape (takeWhile (\<lambda>c. c \<noteq> CHR ''/'') p), ?rest @ ''/'')"
    using p t by (simp add: firstSegment_def)
  have e: "segments path = fst (firstSegment path) # segments (snd (firstSegment path))"
    "segments (path @ ''/'') = fst (firstSegment (path @ ''/'')) # segments (snd (firstSegment (path @ ''/'')))"
    using 1(2) by (subst segments.simps; simp)+
  have one: "segments ''/'' = [''/'']" "segments [] = []" by code_simp+
  show ?case
  proof (cases "?rest = []")
    case True
    with one show ?thesis unfolding e f f' True by simp
  next
    case False
    have "last ?rest = last path" using p False by (metis dropWhile_eq_drop last_ConsR last_drop length_dropWhile_le
        drop_eq_Nil not_le)
    with 1(1)[of] 1(2,4) f False hd_dropWhile[OF False]
    have "segments (?rest @ ''/'') = segments ?rest @ [''/'']" by auto
    then show ?thesis unfolding e f f' by simp
  qed
qed

lemma HasSuffix_last: "s \<noteq> [] \<Longrightarrow> HasSuffix s [c] \<longleftrightarrow> last s = c"
  by (cases s rule: rev_cases) (simp_all add: HasSuffix_def)

lemma api_no_redirect:
  assumes "path \<noteq> []" "hd path = CHR ''/''"
  shows "\<not> slash_redirect (api_routes srv) m path"
proof
  assume r: "slash_redirect (api_routes srv) m path"
  then have l: "last path \<noteq> CHR ''/''" using assms by (simp add: slash_redirect_def HasSuffix_last)
  have "api_endpoint m (segments path @ [''/'']) = NoRoute"
    by (cases "segments path" rule: segs_cases) (auto simp: api_endpoint_def)
  with r segments_slash[OF assms l] have "exactMatch (Some (api_routes srv ! 6, [])) (path @ ''/'')"
    by (simp add: slash_redirect_def match_api endpoint_index_def endpoint_vals_def)
  then have "slashes path = 0" by (simp add: exactMatch_def api_routes_def slashes_def)
  with assms show False by (cases path) (simp_all add: slashes_def)
qed

section \<open>The front\<close>

datatype front = Health | Readiness | Api endpoint | NoPage

definition front_endpoint :: "string \<Rightarrow> string list \<Rightarrow> front" where
  "front_endpoint m ss =
     (case ss of
        [a] \<Rightarrow> if a = ''healthz'' then Health else if a = ''readyz'' then Readiness else NoPage
      | a # b # rest \<Rightarrow> if a = ''v1'' then Api (api_endpoint m ss) else NoPage
      | [] \<Rightarrow> NoPage)"

definition front_index :: "front \<Rightarrow> nat" where
  "front_index f = (case f of Health \<Rightarrow> 0 | Readiness \<Rightarrow> 1 | Api _ \<Rightarrow> 2 | NoPage \<Rightarrow> 3)"

lemma root_nodes:
  "method_node (root_routes srv) None = [([Lit ''healthz''], root_routes srv ! 0), ([Lit ''readyz''], root_routes srv ! 1),
     ([Lit ''v1'', Multi], root_routes srv ! 2), ([Multi], root_routes srv ! 3)]"
  "method_node (root_routes srv) (Some m) = []"
  by (auto simp: method_node_def root_routes_def)

lemma match_root:
  "match_method_path (root_routes srv) m path = (if path = [] then None
     else Some (root_routes srv ! front_index (front_endpoint m (segments path)), []))"
proof -
  have n0: "segments [] = []" by (subst segments.simps) simp
  have ne: "segments path = [] \<longleftrightarrow> path = []" by (subst segments.simps) simp
  have "match_segs (method_node (root_routes srv) None) ss [] = (if ss = [] then None
     else Some (root_routes srv ! front_index (front_endpoint m ss), []))" for ss
    by (cases ss rule: segs_cases) (auto simp: root_nodes front_endpoint_def front_index_def split: option.splits)
  then show ?thesis
    by (simp add: match_method_path_def match_path_segs root_nodes n0 ne del: match_segs.simps)
qed

lemma segments_one_slash:
  assumes "hd path = CHR ''/''" "path \<noteq> []" "slashes path = 1" "last path \<noteq> CHR ''/''"
  shows "\<exists>a. segments path = [a]"
proof -
  obtain p where p: "path = CHR ''/'' # p" "p \<noteq> []" using assms by (cases path) (auto split: if_splits)
  then have "CHR ''/'' \<notin> set p" using assms(3) by (auto simp: slashes_def filter_empty_conv)
  then have d: "dropWhile (\<lambda>c. c \<noteq> CHR ''/'') p = []" by auto
  have n0: "segments [] = []" by (subst segments.simps) simp
  have "segments path = fst (firstSegment path) # segments (snd (firstSegment path))"
    using assms(2) by (subst segments.simps) simp
  then show ?thesis using p d n0 by (simp add: firstSegment_def)
qed

lemma root_no_redirect:
  assumes "path \<noteq> []" "hd path = CHR ''/''" "segments path \<noteq> [''v1'']"
  shows "\<not> slash_redirect (root_routes srv) m path"
proof
  assume r: "slash_redirect (root_routes srv) m path"
  then have l: "last path \<noteq> CHR ''/''" using assms by (simp add: slash_redirect_def HasSuffix_last)
  note s = segments_slash[OF assms(1,2) l]
  have n: "segments path \<noteq> []" using assms(1) by (subst segments.simps) simp
  have c: "0 < slashes path" using assms(1,2) by (cases path) (simp_all add: slashes_def)
  from r have x: "exactMatch (Some (root_routes srv ! front_index (front_endpoint m (segments path @ [''/''])), [])) (path @ ''/'')"
    by (simp add: slash_redirect_def match_root s)
  show False
  proof (cases "front_endpoint m (segments path @ [''/''])")
    case (Api ep)
    with x have "slashes path = 1" by (simp add: front_index_def exactMatch_def root_routes_def slashes_def)
    with segments_one_slash[OF assms(2,1) _ l] obtain a where "segments path = [a]" by blast
    with Api assms(3) show False by (simp add: front_endpoint_def split: if_splits)
  next
    case NoPage
    with x c show False by (simp add: front_index_def exactMatch_def root_routes_def slashes_def)
  qed (use n in \<open>auto simp: front_endpoint_def split: list.splits if_splits\<close>)
qed

lemma root_segs:
  "route_segs (root_routes srv ! 2) = [Lit ''v1'', Multi]" "route_segs (root_routes srv ! 3) = [Multi]"
  by (simp_all add: root_routes_def)

lemma v1_redirect:
  assumes "path \<noteq> []" "hd path = CHR ''/''" "segments path = [''v1'']"
  shows "slash_redirect (root_routes srv) m path"
proof -
  obtain p where p: "path = CHR ''/'' # p" using assms(1,2) by (cases path) auto
  have e: "segments path = fst (firstSegment path) # segments (snd (firstSegment path))"
    using assms(1) by (subst segments.simps) simp
  have z: "segments q = [] \<longleftrightarrow> q = []" for q by (subst segments.simps) simp
  from e assms(3) have "fst (firstSegment path) = ''v1'' \<and> segments (snd (firstSegment path)) = []" by simp
  then have f: "fst (firstSegment path) = ''v1''" "snd (firstSegment path) = []" by (simp_all only: z)
  then have ne: "p \<noteq> []" by (auto simp: p firstSegment_def)
  with f have "dropWhile (\<lambda>c. c \<noteq> CHR ''/'') p = []" by (simp add: p firstSegment_def)
  then have ns: "CHR ''/'' \<notin> set p" by auto
  then have l: "last path \<noteq> CHR ''/''" using ne p by (metis last_ConsR last_in_set)
  have one: "filter (\<lambda>c. c = CHR ''/'') p = []" using ns by (auto simp: filter_empty_conv)
  have "front_endpoint m [''v1'', ''/''] = Api (api_endpoint m [''v1'', ''/''])" by (simp add: front_endpoint_def)
  moreover have "front_endpoint m [''v1''] = NoPage" by (simp add: front_endpoint_def)
  moreover have "length (filter (\<lambda>c. c = CHR ''/'') path) = 1" using one by (simp add: p)
  ultimately show ?thesis
    using assms(1) l
    by (simp add: slash_redirect_def HasSuffix_last match_root segments_slash[OF assms(1,2) l] assms(3) front_index_def
        exactMatch_def root_segs)
qed

lemma cleanPath_slash: "cleanPath p \<noteq> [] \<and> hd (cleanPath p) = CHR ''/''"
  by (simp add: cleanPath_def path_Clean_def Let_def)

text \<open>The requests that reach a handler: the others the mux redirects or refuses itself.\<close>

definition servable :: "Request \<Rightarrow> bool" where
  "servable req \<longleftrightarrow> rq_RequestURI req \<noteq> ''*''
     \<and> cleanPath (EscapedPath (rq_URL req)) = EscapedPath (rq_URL req)
     \<and> segments (EscapedPath (rq_URL req)) \<noteq> [''v1'']"

lemma route_root:
  assumes "rq_Method req \<noteq> ''CONNECT''"
  shows "mux_route (root_routes srv) req =
    (if servable req
     then Routed (route_handler (root_routes srv ! front_index (front_endpoint (rq_Method req) (segments (EscapedPath (rq_URL req)))))) []
     else if rq_RequestURI req = ''*'' then BadTarget else Moved)"
proof -
  let ?path = "EscapedPath (rq_URL req)"
  note c = cleanPath_slash[of ?path]
  consider "rq_RequestURI req = ''*''" | "rq_RequestURI req \<noteq> ''*''" "cleanPath ?path \<noteq> ?path"
    | "rq_RequestURI req \<noteq> ''*''" "cleanPath ?path = ?path" "segments ?path = [''v1'']"
    | "rq_RequestURI req \<noteq> ''*''" "cleanPath ?path = ?path" "segments ?path \<noteq> [''v1'']" by blast
  then show ?thesis
  proof cases
    case 4
    with c root_no_redirect[of ?path srv] match_root[of srv _ ?path] assms show ?thesis
      by (simp add: mux_route_def servable_def Let_def)
  qed (use c v1_redirect[of ?path srv] assms in \<open>auto simp: mux_route_def servable_def Let_def\<close>)
qed

lemma route_api:
  assumes "rq_Method req \<noteq> ''CONNECT''" "servable req"
  shows "mux_route (api_routes srv) req = (let ep = api_endpoint (rq_Method req) (segments (EscapedPath (rq_URL req))) in
     Routed (endpoint_handler srv ep) (endpoint_vals ep))"
  using assms api_no_redirect[of "EscapedPath (rq_URL req)" srv] cleanPath_slash[of "EscapedPath (rq_URL req)"]
    match_api[of srv _ "EscapedPath (rq_URL req)"] api_handler[of srv]
  by (simp add: mux_route_def servable_def Let_def)

section \<open>The server as a table\<close>

definition base_header :: "string \<Rightarrow> header" where
  "base_header requestID = Header_Set ''X-Request-Id'' requestID
     (Header_Set ''X-Content-Type-Options'' ''nosniff'' (Header_Set ''Cache-Control'' ''no-store'' []))"

definition unauthorized :: "request_context \<Rightarrow> header \<Rightarrow> Response" where
  "unauthorized cx h = writeError cx
     (Header_Set ''Www-Authenticate'' (''Bearer realm='' @ [quote] @ ''workload-trust-platform'' @ [quote]) h)
     401 ''unauthorized'' ''operator authentication required''"

definition api_answer :: "'w Server \<Rightarrow> endpoint \<Rightarrow> request_context \<Rightarrow> header \<Rightarrow> Request \<Rightarrow> 'w \<Rightarrow> Response \<times> 'w" where
  "api_answer srv ep cx h req w =
     (case srv_authenticator srv (rq_Authorization req) of
        None \<Rightarrow> (unauthorized cx h, w)
      | Some p \<Rightarrow>
          (let cx' = cx\<lparr>cx_Principal := Some p\<rparr> in
           case endpoint_permission ep of
             None \<Rightarrow> notFound cx' h req [] w
           | Some perm \<Rightarrow>
               if srv_authorizer srv p perm then endpoint_service srv ep cx' h req (endpoint_vals ep) w
               else (forbidden cx' h, w)))"

definition answer :: "'w Server \<Rightarrow> Request \<Rightarrow> 'w \<Rightarrow> Response \<times> 'w" where
  "answer srv req w0 =
     (case newRequestID srv w0 of (requestID, w) \<Rightarrow>
        (let cx = \<lparr>cx_RequestID = requestID, cx_Principal = None\<rparr>; h = base_header requestID in
         if \<not> servable req then (env_mux_answer (srv_env srv) h req, w)
         else (case front_endpoint (rq_Method req) (segments (EscapedPath (rq_URL req))) of
             Health \<Rightarrow> getOnly health cx h req [] w
           | Readiness \<Rightarrow> getOnly (ready srv) cx h req [] w
           | Api ep \<Rightarrow> api_answer srv ep cx h req w
           | NoPage \<Rightarrow> notFound cx h req [] w)))"

lemma root_handlers:
  "route_handler (root_routes srv ! front_index f) = (case f of Health \<Rightarrow> getOnly health | Readiness \<Rightarrow> getOnly (ready srv)
     | Api _ \<Rightarrow> requireOperator srv (serve_mux srv (api_routes srv)) | NoPage \<Rightarrow> notFound)"
  by (cases f) (simp_all add: front_index_def root_routes_def)

lemma front_Api: "front_endpoint m ss = Api ep \<Longrightarrow> ep = api_endpoint m ss"
  by (auto simp: front_endpoint_def split: list.splits if_splits)

lemma serve_api:
  assumes "rq_Method req \<noteq> ''CONNECT''" "servable req"
    and "front_endpoint (rq_Method req) (segments (EscapedPath (rq_URL req))) = Api ep"
  shows "requireOperator srv (serve_mux srv (api_routes srv)) cx h req [] w = api_answer srv ep cx h req w"
  using route_api[OF assms(1,2), of srv] front_Api[OF assms(3)]
  by (auto simp: requireOperator_def serve_mux_def api_answer_def unauthorized_def Let_def endpoint_handler_def
      requirePermission_def operatorPrincipalFrom_def endpoint_permission_def endpoint_service_def endpoint_vals_def notFound_def
      split: option.splits endpoint.splits)

lemma serve_table:
  assumes "rq_Method req \<noteq> ''CONNECT''"
  shows "ServeHTTP srv req w0 = answer srv req w0"
proof -
  obtain requestID w where r: "newRequestID srv w0 = (requestID, w)" by fastforce
  let ?f = "front_endpoint (rq_Method req) (segments (EscapedPath (rq_URL req)))"
  show ?thesis
  proof (cases "servable req")
    case True
    then show ?thesis
      using r route_root[OF assms, of srv]
      by (cases ?f) (simp_all add: ServeHTTP_def answer_def securityHeaders_def requestIDMiddleware_def serve_mux_def[of srv "root_routes srv"]
          empty_context_def base_header_def root_handlers serve_api[OF assms True])
  qed (use r route_root[OF assms, of srv] in \<open>simp add: ServeHTTP_def answer_def securityHeaders_def requestIDMiddleware_def
      serve_mux_def empty_context_def base_header_def\<close>)
qed

text \<open>
  C35. The two nested muxes and the middleware are one decision table. A request gets its ID and the
  three base headers; one whose path is not clean, or is \<open>/v1\<close> without its slash, is answered by the
  mux alone. Otherwise the method and the decoded path segments select exactly one endpoint, the
  authentication comes first, then the permission of that endpoint, then its service with the path's
  ID, and nothing else runs.
\<close>

theorem ServeHTTP_table:
  assumes "rq_Method req \<noteq> ''CONNECT''"
  shows "ServeHTTP srv req w0 = answer srv req w0"
  using assms by (rule serve_table)

end
