(* ===== verification/Platform.thy ===== *)
theory Platform
  imports Routing Reconcile Policy Config
begin

text \<open>
  The two programs put together (\<open>apps/control-plane/main.go\<close>, \<open>apps/reconciler/main.go\<close>,
  \<open>internal/database/postgres.go\<close>): one database, one SPIRE server, a random source. Each program
  starts from its environment, opens the database, and builds its service over it.
\<close>

section \<open>The world\<close>

record 'sp platform =
  pf_db :: db
  pf_spire :: 'sp
  pf_draws :: nat
  pf_pools :: nat
  pf_clients :: nat

definition on_db :: "(db, 'e, 'a) action \<Rightarrow> ('sp platform, 'e, 'a) action" where
  "on_db m w = (case m (pf_db w) of (r, d) \<Rightarrow> (r, w\<lparr>pf_db := d\<rparr>))"

definition on_spire :: "('sp, 'e, 'a) action \<Rightarrow> ('sp platform, 'e, 'a) action" where
  "on_spire m w = (case m (pf_spire w) of (r, x) \<Rightarrow> (r, w\<lparr>pf_spire := x\<rparr>))"

text \<open>
  What is outside the program: the pool the driver makes from a database URL and a configuration,
  the collation of the database, the random bytes, the time zone, the mux's own answers, and
  the SPIRE server's API at a socket.
\<close>

record pool_config =
  MaxConns :: int
  MinConns :: int
  MaxConnLifetime :: int
  MaxConnIdleTime :: int
  HealthCheckPeriod :: int
  ConnectTimeout :: int

record 'sp outside =
  out_ParseConfig :: "string \<Rightarrow> string + pool_config"
  out_NewWithConfig :: "pool_config \<Rightarrow> string + pg"
  out_collation :: collation
  out_random :: "nat \<Rightarrow> unit + string"
  out_zone :: "int \<Rightarrow> int"
  out_mux_answer :: "header \<Rightarrow> Request \<Rightarrow> Response"
  out_newClient :: "string \<Rightarrow> string + 'sp entry_api"

text \<open>The connections the programs hold: pools of database connections, and clients of SPIRE.\<close>

definition open_pool :: "'sp platform \<Rightarrow> 'sp platform" where
  "open_pool w = w\<lparr>pf_pools := Suc (pf_pools w)\<rparr>"

definition close_pool :: "'sp platform \<Rightarrow> 'sp platform" where
  "close_pool w = w\<lparr>pf_pools := pf_pools w - 1\<rparr>"

definition open_client :: "'sp platform \<Rightarrow> 'sp platform" where
  "open_client w = w\<lparr>pf_clients := Suc (pf_clients w)\<rparr>"

definition close_client :: "'sp platform \<Rightarrow> 'sp platform" where
  "close_client w = w\<lparr>pf_clients := pf_clients w - 1\<rparr>"

text \<open>\<open>defer f()\<close> before the statements \<open>m\<close>.\<close>

definition deferred :: "('w \<Rightarrow> 'w) \<Rightarrow> ('w, 'e, 'a) action \<Rightarrow> ('w, 'e, 'a) action" where
  "deferred f m w = (case m w of (r, w') \<Rightarrow> (r, f w'))"

definition draw :: "'sp outside \<Rightarrow> ('sp platform, unit, string) action" where
  "draw out w = (out_random out (pf_draws w), w\<lparr>pf_draws := Suc (pf_draws w)\<rparr>)"

section \<open>Opening the database\<close>

datatype open_error = ParseConfigFailed string | CreatePoolFailed string | PingFailed pg_error

definition minute :: int where "minute = 60 * 10 ^ 9"

definition pool_limits :: "pool_config \<Rightarrow> pool_config" where
  "pool_limits cfg = cfg\<lparr>MaxConns := 10, MinConns := 0, MaxConnLifetime := 30 * minute, MaxConnIdleTime := 5 * minute,
     HealthCheckPeriod := minute div 2, ConnectTimeout := minute div 12\<rparr>"

text \<open>\<open>Pool.Ping\<close> is one round trip.\<close>

definition ping :: "pg \<Rightarrow> (db, pg_error, unit) action" where
  "ping pg = run_stmt pg (\<lambda>u now t. Inr ((), t))"

definition database_Open :: "'sp outside \<Rightarrow> string \<Rightarrow> ('sp platform, open_error, pg) action" where
  "database_Open out databaseURL w =
     (case out_ParseConfig out databaseURL of
        Inl e \<Rightarrow> (Inl (ParseConfigFailed e), w)
      | Inr cfg \<Rightarrow>
          (case out_NewWithConfig out (pool_limits cfg) of
             Inl e \<Rightarrow> (Inl (CreatePoolFailed e), w)
           | Inr pg \<Rightarrow>
               (case on_db (ping pg) (open_pool w) of
                  (Inl e, w') \<Rightarrow> (Inl (PingFailed e), close_pool w')
                | (Inr _, w') \<Rightarrow> (Inr pg, w'))))"

section \<open>The control plane\<close>

definition dependencies :: "'sp outside \<Rightarrow> pg \<Rightarrow> StaticBearer \<Rightarrow> ('sp platform) Dependencies" where
  "dependencies out pg bearer = \<lparr>
     dep_Readiness = Some (on_db (ping pg)),
     dep_Workloads = Some (\<lambda>org. on_db (ListByOrganization pg (out_collation out) org)),
     dep_RegistrationMutations = Some \<lparr>
       mut_CreateDesired = (\<lambda>actor c input. on_db (CreateDesired pg actor c input)),
       mut_ReplaceDesired = (\<lambda>actor c ruleID input. on_db (ReplaceDesired pg actor c ruleID input))\<rparr>,
     dep_PolicyManager = Some \<lparr>
       mgr_Create = (\<lambda>actor c input. on_db (Policy_Create pg actor c input)),
       mgr_AppendVersion = (\<lambda>actor c policyID input. on_db (AppendVersion pg actor c policyID input)),
       mgr_Activate = (\<lambda>actor c policyID input. on_db (Activate pg actor c policyID input))\<rparr>,
     dep_Authenticator = Some (Authenticate bearer),
     dep_Authorizer = Some RBAC_Allowed\<rparr>"

definition http_surroundings :: "'sp outside \<Rightarrow> ('sp platform) surroundings" where
  "http_surroundings out = \<lparr>env_random = draw out, env_zone = out_zone out, env_mux_answer = out_mux_answer out\<rparr>"

datatype start_error = StartConfig config_error | StartDatabase open_error | StartServer new_error
  | StartSPIRE unix_client_error | StartReconciler

text \<open>\<open>run\<close> of the control plane, up to the point where it serves requests.\<close>

definition control_plane :: "'sp outside \<Rightarrow> (string \<Rightarrow> string) \<Rightarrow> ('sp platform, start_error, 'sp platform Server) action" where
  "control_plane out env =
     (case control_plane_start env of
        Inl e \<Rightarrow> throws (StartConfig e)
      | Inr (cfg, bearer) \<Rightarrow>
          and_then (wrap_err StartDatabase (database_Open out (DatabaseURL cfg)))
            (\<lambda>pg. case New (http_surroundings out) (dependencies out pg bearer) of
                Inl e \<Rightarrow> deferred close_pool (throws (StartServer e))
              | Inr srv \<Rightarrow> returns srv))"

section \<open>The reconciler\<close>

definition lift_api :: "'sp entry_api \<Rightarrow> 'sp platform entry_api" where
  "lift_api api = \<lparr>
     api_GetEntry = (\<lambda>i m. on_spire (api_GetEntry api i m)),
     api_BatchCreateEntry = (\<lambda>es m. on_spire (api_BatchCreateEntry api es m)),
     api_BatchUpdateEntry = (\<lambda>es im om. on_spire (api_BatchUpdateEntry api es im om)),
     api_BatchDeleteEntry = (\<lambda>ids. on_spire (api_BatchDeleteEntry api ids))\<rparr>"

definition db_store :: "pg \<Rightarrow> 'sp platform rule_store" where
  "db_store pg = \<lparr>
     store_List = on_db (reg_List pg),
     store_MarkConverged = (\<lambda>ruleID entryID. on_db (reg_MarkConverged pg ruleID entryID)),
     store_MarkError = (\<lambda>ruleID code. on_db (reg_MarkError pg ruleID code))\<rparr>"

definition reconciler_service :: "'sp outside \<Rightarrow> pg \<Rightarrow> 'sp entry_api \<Rightarrow> unit + ('sp platform) Service" where
  "reconciler_service out pg api = reconcile_New (draw out) (Some (db_store pg)) (Some (grpc_client (lift_api api)))
     (Some (\<lambda>ev. on_db (Append (pool_queryer pg) ev)))"

definition reconcile_pass ::
    "'sp outside \<Rightarrow> pg \<Rightarrow> 'sp entry_api \<Rightarrow> ('sp platform, start_error, Summary \<times> run_error option) action" where
  "reconcile_pass out pg api w =
     (case reconciler_service out pg api of
        Inl _ \<Rightarrow> (Inl StartReconciler, w)
      | Inr svc \<Rightarrow> (case Run svc w of (r, w') \<Rightarrow> (Inr r, w')))"

text \<open>\<open>run\<close> of the reconciler: one pass, its summary logged, its error returned.\<close>

definition reconciler ::
    "'sp outside \<Rightarrow> (string \<Rightarrow> string) \<Rightarrow> ('sp platform, start_error, Summary \<times> run_error option) action" where
  "reconciler out env =
     (case LoadReconciler env of
        Inl e \<Rightarrow> throws (StartConfig e)
      | Inr cfg \<Rightarrow>
          and_then (wrap_err StartDatabase (database_Open out (ReconcilerDatabaseURL cfg)))
            (\<lambda>pg. deferred close_pool
               (case NewUnixClient (out_newClient out) (SPIREServerSocket cfg) of
                  Inl e \<Rightarrow> throws (StartSPIRE e)
                | Inr api \<Rightarrow> deferred close_client (\<lambda>w. reconcile_pass out pg api (open_client w)))))"

section \<open>Lemmas\<close>

lemma on_db_frame [simp]:
  "pf_pools (snd (on_db m w)) = pf_pools w" "pf_clients (snd (on_db m w)) = pf_clients w"
  "pf_spire (snd (on_db m w)) = pf_spire w" "pf_draws (snd (on_db m w)) = pf_draws w"
  "pf_db (snd (on_db m w)) = snd (m (pf_db w))" "fst (on_db m w) = fst (m (pf_db w))"
  by (simp_all add: on_db_def split: prod.split)

lemma on_spire_frame [simp]:
  "pf_pools (snd (on_spire m w)) = pf_pools w" "pf_clients (snd (on_spire m w)) = pf_clients w"
  "pf_db (snd (on_spire m w)) = pf_db w" "pf_draws (snd (on_spire m w)) = pf_draws w"
  by (simp_all add: on_spire_def split: prod.split)

lemma draw_frame [simp]: "pf_pools (snd (draw out w)) = pf_pools w" "pf_clients (snd (draw out w)) = pf_clients w"
  "pf_db (snd (draw out w)) = pf_db w" "pf_spire (snd (draw out w)) = pf_spire w"
  by (simp_all add: draw_def)

lemma on_db_eq: "on_db m w = (r, w') \<longleftrightarrow> m (pf_db w) = (r, pf_db w') \<and> w' = w\<lparr>pf_db := pf_db w'\<rparr>"
  by (auto simp: on_db_def split: prod.splits)

lemma ping_tables [simp]: "tables (snd (ping pg s)) = tables s"
  by (auto simp: ping_def run_stmt_def Let_def)

text \<open>The server of a control plane that starts.\<close>

definition platform_server :: "'sp outside \<Rightarrow> pg \<Rightarrow> StaticBearer \<Rightarrow> ('sp platform) Server" where
  "platform_server out pg bearer = \<lparr>
     srv_readiness = the (dep_Readiness (dependencies out pg bearer)),
     srv_workloads = the (dep_Workloads (dependencies out pg bearer)),
     srv_registrationMutations = the (dep_RegistrationMutations (dependencies out pg bearer)),
     srv_policyManager = the (dep_PolicyManager (dependencies out pg bearer)),
     srv_authenticator = Authenticate bearer, srv_authorizer = RBAC_Allowed, srv_env = http_surroundings out\<rparr>"

lemma New_platform: "New (http_surroundings out) (dependencies out pg bearer) = Inr (platform_server out pg bearer)"
  by (simp add: New_def dependencies_def platform_server_def)

lemma control_plane_Inr:
  "control_plane out env w = (Inr srv, w') \<longleftrightarrow> (\<exists>cfg bearer pg.
     control_plane_start env = Inr (cfg, bearer) \<and> database_Open out (DatabaseURL cfg) w = (Inr pg, w')
     \<and> srv = platform_server out pg bearer)"
  by (auto simp: control_plane_def New_platform split: sum.splits)

text \<open>What opening the database leaves alone, and that a pool is open exactly after a success.\<close>

lemma connections [simp]:
  "pf_db (open_pool w) = pf_db w" "pf_db (close_pool w) = pf_db w" "pf_db (open_client w) = pf_db w" "pf_db (close_client w) = pf_db w"
  "close_pool (open_pool w) = w" "close_client (open_client w) = w" "pf_pools (close_pool w) = pf_pools w - 1"
  "pf_pools (open_pool w) = Suc (pf_pools w)" "pf_clients (open_pool w) = pf_clients w" "pf_clients (close_pool w) = pf_clients w"
  "pf_clients (open_client w) = Suc (pf_clients w)" "pf_clients (close_client w) = pf_clients w - 1"
  "pf_pools (open_client w) = pf_pools w" "pf_pools (close_client w) = pf_pools w"
  by (simp_all add: open_pool_def close_pool_def open_client_def close_client_def)

lemma snd_deferred [simp]: "snd (deferred f m w) = f (snd (m w))" "fst (deferred f m w) = fst (m w)"
  by (simp_all add: deferred_def split: prod.split)

lemma ping_frame:
  assumes "on_db (ping pg) (open_pool w) = (r, w')"
  shows "tables (pf_db w') = tables (pf_db w)" "pf_pools w' = Suc (pf_pools w)" "pf_clients w' = pf_clients w"
    "r = Inr () \<Longrightarrow> \<not> pg_fault pg (tick (pf_db w))"
proof -
  from assms have w': "w' = snd (on_db (ping pg) (open_pool w))" and r: "r = fst (on_db (ping pg) (open_pool w))" by simp_all
  show "tables (pf_db w') = tables (pf_db w)" "pf_pools w' = Suc (pf_pools w)" "pf_clients w' = pf_clients w"
    unfolding w' by simp_all
  show "\<not> pg_fault pg (tick (pf_db w))" if "r = Inr ()"
    using that unfolding r by (auto simp: ping_def run_stmt_def Let_def split: if_splits)
qed

lemma database_Open_Inr:
  assumes "database_Open out url w = (Inr pg, w')"
  shows "tables (pf_db w') = tables (pf_db w) \<and> \<not> pg_fault pg (tick (pf_db w))
    \<and> pf_pools w' = Suc (pf_pools w) \<and> pf_clients w' = pf_clients w
    \<and> (\<exists>cfg. out_ParseConfig out url = Inr cfg \<and> out_NewWithConfig out (pool_limits cfg) = Inr pg)"
  using assms by (auto simp: database_Open_def split: sum.splits prod.splits dest: ping_frame)

lemma database_Open_Inl:
  assumes "database_Open out url w = (Inl e, w')"
  shows "tables (pf_db w') = tables (pf_db w) \<and> pf_pools w' = pf_pools w \<and> pf_clients w' = pf_clients w"
  using assms by (auto simp: database_Open_def split: sum.splits prod.splits dest: ping_frame)

end
