(* ===== verification/Api.thy ===== *)
theory Api
  imports Routing Decoding
begin

text \<open>
  What the HTTP boundary promises whatever services it is given: the interface \<open>services\<close> is what
  it needs of them, and its lemmas say what one request can do to what the services keep.
\<close>

section \<open>The interface of the services\<close>

text \<open>
  A call either makes an allowed change, or leaves things as they are and returns an error; an error
  with the change made is one the boundary answers with status 500.
\<close>

definition all_or_nothing :: "('w \<Rightarrow> 'v) \<Rightarrow> ('v \<Rightarrow> 'v \<Rightarrow> bool) \<Rightarrow> ('e \<Rightarrow> bool) \<Rightarrow> ('w, 'e, 'a) action \<Rightarrow> bool" where
  "all_or_nothing view change internal m \<longleftrightarrow> (\<forall>w. case m w of
     (Inr _, w') \<Rightarrow> change (view w) (view w')
   | (Inl e, w') \<Rightarrow> view w' = view w \<or> internal e \<and> change (view w) (view w'))"

definition reg_internal :: "reg_error \<Rightarrow> bool" where
  "reg_internal e \<longleftrightarrow> (\<forall>cx h. rs_Status (writeRegistrationMutationError cx h e) = 500)"

definition pol_internal :: "pol_error \<Rightarrow> bool" where
  "pol_internal e \<longleftrightarrow> (\<forall>cx h. rs_Status (writePolicyMutationError cx h e) = 500)"

locale services =
  fixes srv :: "'w Server"
    and view :: "'w \<Rightarrow> 'v"
    and change :: "endpoint \<Rightarrow> Principal \<Rightarrow> string \<Rightarrow> 'v \<Rightarrow> 'v \<Rightarrow> bool"
  assumes draws: "view (snd (env_random (srv_env srv) w)) = view w"
    and pings: "view (snd (srv_readiness srv w)) = view w"
    and lists: "view (snd (srv_workloads srv org w)) = view w"
    and creates: "all_or_nothing view (change CreateRule p c) reg_internal
      (mut_CreateDesired (srv_registrationMutations srv) (reg_actor_of p) c cin)"
    and replaces: "all_or_nothing view (change (ReplaceRule i) p c) reg_internal
      (mut_ReplaceDesired (srv_registrationMutations srv) (reg_actor_of p) c i rin)"
    and creates_policy: "all_or_nothing view (change CreatePolicy p c) pol_internal
      (mgr_Create (srv_policyManager srv) (pol_actor_of p) c pin)"
    and appends: "all_or_nothing view (change (AppendPolicyVersion i) p c) pol_internal
      (mgr_AppendVersion (srv_policyManager srv) (pol_actor_of p) c i ain)"
    and activates: "all_or_nothing view (change (ActivatePolicy i) p c) pol_internal
      (mgr_Activate (srv_policyManager srv) (pol_actor_of p) c i vin)"

section \<open>Decoding\<close>

definition json_body :: "Request \<Rightarrow> bool" where
  "json_body req \<longleftrightarrow> ParseMediaType (rq_ContentType req) = Some ''application/json''
     \<and> length (rq_Body req) \<le> maxMutationRequestBytes \<and> json_parse (rq_Body req) \<noteq> None"

lemma decodeStrictJSON_Inr: "decodeStrictJSON flds zero req = Inr r \<Longrightarrow> json_body req"
  by (elim decodeStrictJSON_value) (simp add: json_body_def)

section \<open>Statuses\<close>

lemma status_writeError [simp]: "rs_Status (writeError cx h status code message) = status"
  by (simp add: writeError_def writeJSONStatus_def)

lemma status_writeJSON [simp]: "rs_Status (writeJSON h status v) = status"
  by (simp add: writeJSON_def writeJSONStatus_def)

lemma status_errors [simp]:
  "rs_Status (forbidden cx h) = 403" "rs_Status (internal_error cx h) = 500" "rs_Status (unauthorized cx h) = 401"
  by (simp_all add: forbidden_def internal_error_def unauthorized_def)

lemma status_decode_error: "rs_Status (writeMutationDecodeError cx h e) \<in> {400, 413, 415}"
  by (cases e) (simp_all add: writeMutationDecodeError_def)

lemma status_reg_error: "rs_Status (writeRegistrationMutationError cx h e) \<in> {400, 404, 409, 500}"
  by (cases e) (simp_all add: writeRegistrationMutationError_def)

lemma reg_error_status [simp]:
  "400 \<le> rs_Status (writeRegistrationMutationError cx h e)"
  "reg_internal e \<Longrightarrow> rs_Status (writeRegistrationMutationError cx h e) = 500"
  using status_reg_error[of cx h e] by (auto simp: reg_internal_def)

lemma status_pol_error: "rs_Status (writePolicyMutationError cx h e) \<in> {400, 403, 404, 409, 500}"
  by (cases e) (simp_all add: writePolicyMutationError_def)

lemma pol_error_status [simp]:
  "400 \<le> rs_Status (writePolicyMutationError cx h e)"
  "pol_internal e \<Longrightarrow> rs_Status (writePolicyMutationError cx h e) = 500"
  using status_pol_error[of cx h e] by (auto simp: pol_internal_def)

section \<open>What a handler does\<close>

text \<open>
  A handler of a mutation either answers with an error status and changes nothing, or the request
  carried an acceptable body, the principal's change was made, and the answer is a success or 500.
\<close>

definition mutation_outcome ::
    "('w \<Rightarrow> 'v) \<Rightarrow> (Principal \<Rightarrow> string \<Rightarrow> 'v \<Rightarrow> 'v \<Rightarrow> bool) \<Rightarrow> request_context \<Rightarrow> Request \<Rightarrow> 'w \<Rightarrow> Response \<times> 'w \<Rightarrow> bool" where
  "mutation_outcome view change cx req w out \<longleftrightarrow>
     400 \<le> rs_Status (fst out) \<and> view (snd out) = view w
   \<or> json_body req \<and> (\<exists>p. cx_Principal cx = Some p \<and> change p (cx_RequestID cx) (view w) (view (snd out)))
     \<and> rs_Status (fst out) \<in> {200, 201, 500}"

lemma mutation_outcome_mutation:
  assumes call: "\<And>p c r. all_or_nothing view (change p c) internal (call p c r)"
    and fail: "\<And>e. 400 \<le> rs_Status (fail cx h e)" "\<And>e. internal e \<Longrightarrow> rs_Status (fail cx h e) = 500"
    and succeed: "\<And>a. rs_Status (succeed h a) \<in> {200, 201}"
  shows "mutation_outcome view change cx req w (mutation flds zero call fail succeed cx h req vals w)"
proof (cases "decodeStrictJSON flds zero req")
  case (Inl e)
  then show ?thesis using status_decode_error[of cx h e] by (auto simp: mutation_outcome_def mutation_def)
next
  case (Inr r)
  note j = decodeStrictJSON_Inr[OF Inr]
  show ?thesis
  proof (cases "cx_Principal cx")
    case None
    with Inr show ?thesis by (simp add: mutation_outcome_def mutation_def operatorPrincipalFrom_def)
  next
    case (Some p)
    obtain x w' where x: "call p (cx_RequestID cx) r w = (x, w')" by fastforce
    with call[of p "cx_RequestID cx" r] Inr Some j fail succeed show ?thesis
      by (cases x) (fastforce simp: mutation_outcome_def mutation_def operatorPrincipalFrom_def all_or_nothing_def split: prod.splits)+
  qed
qed

lemma mutation_outcome_uuid:
  "(\<And>i. vals = [i] \<Longrightarrow> mutation_outcome view change cx req w (handle i cx h req vals w)) \<Longrightarrow> length vals = 1
     \<Longrightarrow> mutation_outcome view change cx req w (with_uuid code message handle cx h req vals w)"
  by (cases vals) (auto simp: with_uuid_def mutation_outcome_def Let_def)

section \<open>What a request does\<close>

definition mutates :: "endpoint \<Rightarrow> bool" where
  "mutates ep \<longleftrightarrow> ep \<noteq> Workloads \<and> ep \<noteq> NoRoute"

text \<open>The endpoint of a mutation that a request reaches, if any.\<close>

definition mutation_endpoint :: "Request \<Rightarrow> endpoint option" where
  "mutation_endpoint req =
     (if rq_Method req \<noteq> ''CONNECT'' \<and> servable req
      then (case front_endpoint (rq_Method req) (segments (EscapedPath (rq_URL req))) of
          Api ep \<Rightarrow> if mutates ep then Some ep else None | _ \<Rightarrow> None)
      else None)"

lemma mutation_endpoint_method: "mutation_endpoint req = Some ep \<Longrightarrow> rq_Method req = (case ep of ReplaceRule _ \<Rightarrow> ''PATCH'' | _ \<Rightarrow> ''POST'')"
  using endpoint_method[of "rq_Method req" "segments (EscapedPath (rq_URL req))"]
  by (auto simp: mutation_endpoint_def mutates_def dest!: front_Api split: front.splits if_splits endpoint.splits)

text \<open>The outcome of a request, with the authentication and the authorization of its change.\<close>

definition request_outcome ::
    "'w Server \<Rightarrow> ('w \<Rightarrow> 'v) \<Rightarrow> (endpoint \<Rightarrow> Principal \<Rightarrow> string \<Rightarrow> 'v \<Rightarrow> 'v \<Rightarrow> bool) \<Rightarrow> Request \<Rightarrow> 'w \<Rightarrow> Response \<times> 'w \<Rightarrow> bool" where
  "request_outcome srv view change req w out \<longleftrightarrow>
     view (snd out) = view w \<and> (mutation_endpoint req \<noteq> None \<longrightarrow> 400 \<le> rs_Status (fst out))
   \<or> (\<exists>ep p perm. mutation_endpoint req = Some ep \<and> srv_authenticator srv (rq_Authorization req) = Some p
        \<and> endpoint_permission ep = Some perm \<and> srv_authorizer srv p perm \<and> json_body req
        \<and> change ep p (fst (newRequestID srv w)) (view w) (view (snd out))
        \<and> rs_Status (fst out) \<in> {200, 201, 500})"

context services
begin

lemma service_outcome:
  assumes "mutates ep"
  shows "mutation_outcome view (change ep) cx req w (endpoint_service srv ep cx h req (endpoint_vals ep) w)"
proof (cases ep)
  case CreateRule
  show ?thesis unfolding CreateRule endpoint_service_def endpoint.case createRegistrationRule_def
    by (rule mutation_outcome_mutation[OF creates]) simp_all
next
  case (ReplaceRule i)
  show ?thesis unfolding ReplaceRule endpoint_service_def endpoint_vals_def endpoint.case replaceRegistrationRule_def
    by (rule mutation_outcome_uuid, simp, rule mutation_outcome_mutation[OF replaces])
      simp_all
next
  case CreatePolicy
  show ?thesis unfolding CreatePolicy endpoint_service_def endpoint.case createPolicy_def
    by (rule mutation_outcome_mutation[OF creates_policy]) simp_all
next
  case (AppendPolicyVersion i)
  show ?thesis unfolding AppendPolicyVersion endpoint_service_def endpoint_vals_def endpoint.case appendPolicyVersion_def
    by (rule mutation_outcome_uuid, simp, rule mutation_outcome_mutation[OF appends])
      simp_all
next
  case (ActivatePolicy i)
  show ?thesis unfolding ActivatePolicy endpoint_service_def endpoint_vals_def endpoint.case activatePolicy_def
    by (rule mutation_outcome_uuid, simp, rule mutation_outcome_mutation[OF activates])
      simp_all
qed (use assms in \<open>simp_all add: mutates_def\<close>)

text \<open>The handlers that only read.\<close>

lemma health_keeps: "view (snd (getOnly health cx h req vals w)) = view w"
  by (simp add: getOnly_def health_def)

lemma ready_keeps: "view (snd (getOnly (ready srv) cx h req vals w)) = view w"
  using pings[of w] by (auto simp: getOnly_def ready_def split: prod.splits sum.splits)

lemma notFound_keeps: "view (snd (notFound cx h req vals w)) = view w"
  by (simp add: notFound_def)

lemma workloads_keeps: "view (snd (getOnly (listWorkloads srv) cx h req vals w)) = view w"
  using lists[of "Values_Get ''organization_id'' (URL_Query (rq_URL req))" w]
  by (auto simp: getOnly_def listWorkloads_def Let_def split: prod.splits sum.splits)

lemma newRequestID_keeps: "view (snd (newRequestID srv w)) = view w"
  using draws[of w] by (auto simp: newRequestID_def split: prod.splits sum.splits)

lemma reading_keeps: "\<not> mutates ep \<Longrightarrow> view (snd (endpoint_service srv ep cx h req vals w)) = view w"
  using workloads_keeps notFound_keeps by (cases ep) (simp_all add: mutates_def endpoint_service_def)

lemma unauthorized_keeps: "view (snd (unauthorized cx h, w)) = view w"
  by simp

text \<open>A \<open>CONNECT\<close> request reaches only handlers that read.\<close>

lemma connect_api:
  assumes "rq_Method req = ''CONNECT''"
  shows "view (snd (serve_mux srv (api_routes srv) cx h req vals w)) = view w"
proof (cases "mux_route (api_routes srv) req")
  case (Routed handle vals')
  let ?ep = "api_endpoint ''CONNECT'' (segments (EscapedPath (rq_URL req)))"
  from Routed assms have h: "handle = endpoint_handler srv ?ep"
    by (auto simp: mux_route_def match_api api_handler Let_def split: if_splits)
  have m: "\<not> mutates ?ep" using endpoint_any[of "''CONNECT''"] by (simp add: mutates_def)
  from reading_keeps[OF m] Routed h show ?thesis
    by (auto simp: serve_mux_def endpoint_handler_def requirePermission_def split: option.split)
qed (simp_all add: serve_mux_def)

lemma connect_keeps:
  assumes "rq_Method req = ''CONNECT''"
  shows "view (snd (ServeHTTP srv req w)) = view w"
proof -
  obtain rid w1 where r: "newRequestID srv w = (rid, w1)" by fastforce
  have front: "view (snd (route_handler (root_routes srv ! front_index f) cx h req vals w1)) = view w1" for f cx h vals
    using connect_api[OF assms] health_keeps ready_keeps notFound_keeps
    by (auto simp: root_handlers requireOperator_def split: front.split option.split)
  have "view (snd (serve_mux srv (root_routes srv) cx h req vals w1)) = view w1" for cx h vals
  proof (cases "mux_route (root_routes srv) req")
    case (Routed handle vals')
    then obtain f where "handle = route_handler (root_routes srv ! front_index f)"
      by (auto simp: mux_route_def match_root Let_def split: if_splits)
    with Routed front show ?thesis by (simp add: serve_mux_def)
  qed (simp_all add: serve_mux_def)
  with r newRequestID_keeps[of w] show ?thesis
    by (simp add: ServeHTTP_def securityHeaders_def requestIDMiddleware_def)
qed

lemma api_answer_outcome:
  assumes "cx_Principal cx = None"
  shows "view (snd (api_answer srv ep cx h req w)) = view w
       \<and> (mutates ep \<longrightarrow> 400 \<le> rs_Status (fst (api_answer srv ep cx h req w)))
     \<or> mutates ep \<and> json_body req \<and> (\<exists>p perm. srv_authenticator srv (rq_Authorization req) = Some p
        \<and> endpoint_permission ep = Some perm \<and> srv_authorizer srv p perm
        \<and> change ep p (cx_RequestID cx) (view w) (view (snd (api_answer srv ep cx h req w)))
        \<and> rs_Status (fst (api_answer srv ep cx h req w)) \<in> {200, 201, 500})"
proof (cases "srv_authenticator srv (rq_Authorization req)")
  case (Some p)
  let ?cx = "cx\<lparr>cx_Principal := Some p\<rparr>"
  show ?thesis
  proof (cases "endpoint_permission ep")
    case None
    then have "\<not> mutates ep" by (cases ep) (simp_all add: endpoint_permission_def mutates_def)
    with None Some notFound_keeps show ?thesis by (simp add: api_answer_def Let_def)
  next
    case (Some perm)
    show ?thesis
    proof (cases "srv_authorizer srv p perm")
      case True
      with Some \<open>srv_authenticator srv (rq_Authorization req) = Some p\<close>
      have a: "api_answer srv ep cx h req w = endpoint_service srv ep ?cx h req (endpoint_vals ep) w"
        by (simp add: api_answer_def Let_def)
      show ?thesis
      proof (cases "mutates ep")
        case True
        with service_outcome[OF True, of ?cx req w h] Some \<open>srv_authorizer srv p perm\<close>
          \<open>srv_authenticator srv (rq_Authorization req) = Some p\<close> show ?thesis
          unfolding a mutation_outcome_def by auto
      next
        case False
        with reading_keeps[OF False] show ?thesis unfolding a by simp
      qed
    qed (use Some \<open>srv_authenticator srv (rq_Authorization req) = Some p\<close> in \<open>simp add: api_answer_def Let_def\<close>)
  qed
qed (simp add: api_answer_def)

text \<open>The contract of the whole server: this is what a request can do.\<close>

lemma serve_outcome: "request_outcome srv view change req w (ServeHTTP srv req w)"
proof (cases "rq_Method req = ''CONNECT''")
  case True
  then show ?thesis using connect_keeps[OF True] by (simp add: request_outcome_def mutation_endpoint_def)
next
  case c: False
  obtain rid w1 where r: "newRequestID srv w = (rid, w1)" by fastforce
  then have v: "view w1 = view w" using newRequestID_keeps[of w] by simp
  let ?f = "front_endpoint (rq_Method req) (segments (EscapedPath (rq_URL req)))"
  let ?cx = "\<lparr>cx_RequestID = rid, cx_Principal = None\<rparr>"
  note t = serve_table[OF c, of srv w]
  show ?thesis
  proof (cases "servable req")
    case s: True
    show ?thesis
    proof (cases ?f)
      case (Api ep)
      then have e: "mutation_endpoint req = (if mutates ep then Some ep else None)"
        using c s by (simp add: mutation_endpoint_def)
      have a: "ServeHTTP srv req w = api_answer srv ep ?cx (base_header rid) req w1"
        using t r s Api by (simp add: answer_def)
      from api_answer_outcome[of ?cx ep "base_header rid" req w1] show ?thesis
        unfolding request_outcome_def a e by (auto simp: v r)
    qed (use t r s v c health_keeps ready_keeps notFound_keeps in
        \<open>simp_all add: answer_def request_outcome_def mutation_endpoint_def\<close>)
  qed (use t r v in \<open>simp add: answer_def request_outcome_def mutation_endpoint_def\<close>)
qed

end

end
