(* ===== verification/Responses.thy ===== *)
theory Responses
  imports Api
begin

text \<open>The shape of the responses: what a client can rely on whatever it sends.\<close>

section \<open>Well-formed responses\<close>

definition base_ok :: "string \<Rightarrow> header \<Rightarrow> bool" where
  "base_ok rid h \<longleftrightarrow> Header_Get ''Cache-Control'' h = ''no-store'' \<and> Header_Get ''X-Content-Type-Options'' h = ''nosniff''
     \<and> Header_Get ''X-Request-Id'' h = rid"

definition statuses :: "int set" where
  "statuses = {200, 201, 400, 401, 403, 404, 405, 409, 413, 415, 500, 503}"

text \<open>
  The base headers, the JSON content type, a status of the program, a body that is one JSON document
  and a line end, and for an error status the error envelope with the request ID. Where \<open>blank\<close>, a
  response with status 200 can be without a body.
\<close>

definition well_formed :: "bool \<Rightarrow> string \<Rightarrow> Response \<Rightarrow> bool" where
  "well_formed blank rid resp \<longleftrightarrow> base_ok rid (rs_Header resp)
     \<and> Header_Get ''Content-Type'' (rs_Header resp) = ''application/json; charset=utf-8''
     \<and> rs_Status resp \<in> statuses
     \<and> (blank \<and> rs_Status resp = 200 \<and> rs_Body resp = []
        \<or> (\<exists>v. encodable 0 v \<and> rs_Body resp = Marshal v @ [char_of (10::nat)]
          \<and> (400 \<le> rs_Status resp \<longrightarrow> (\<exists>code message. v = errorEnvelope code message rid))))
     \<and> (rs_Status resp = 401 \<longrightarrow> Header_Get ''Www-Authenticate'' (rs_Header resp)
          = ''Bearer realm='' @ [quote] @ ''workload-trust-platform'' @ [quote])
     \<and> (rs_Status resp = 405 \<longrightarrow> Header_Get ''Allow'' (rs_Header resp) = ''GET'')"

lemma base_ok_Set [simp]:
  "k \<notin> {''Cache-Control'', ''X-Content-Type-Options'', ''X-Request-Id''} \<Longrightarrow> base_ok rid (Header_Set k v h) = base_ok rid h"
  by (auto simp: base_ok_def)

lemma base_ok_base [simp]: "base_ok rid (base_header rid)"
  by (simp add: base_ok_def base_header_def)

lemma encodable_error [simp]: "encodable 0 (errorEnvelope code message rid)"
  by (simp add: errorEnvelope_def maxNestingDepth_def)

lemma error_document [simp]:
  "\<exists>v. encodable 0 v \<and> Marshal (errorEnvelope code message rid) = Marshal v
     \<and> (b \<longrightarrow> (\<exists>code message. v = errorEnvelope code message rid))"
  "\<exists>v. encodable 0 v \<and> Marshal (errorEnvelope code message rid) = Marshal v
     \<and> (\<exists>code message. v = errorEnvelope code message rid)"
  using encodable_error by blast+

lemma well_formed_error:
  assumes "base_ok (cx_RequestID cx) h" "status \<in> statuses" "status \<noteq> 401" "status \<noteq> 405"
  shows "well_formed blank (cx_RequestID cx) (writeError cx h status code message)"
  using assms by (simp add: well_formed_def writeError_def writeJSONStatus_def)

lemma well_formed_data:
  assumes "base_ok rid h" "status = 200 \<or> status = 201" "encodable 0 v"
  shows "well_formed blank rid (writeJSON h status v)"
  using assms by (auto simp: well_formed_def writeJSON_def writeJSONStatus_def statuses_def)

lemma well_formed_errors:
  assumes "base_ok (cx_RequestID cx) h"
  shows "well_formed blank (cx_RequestID cx) (forbidden cx h)" "well_formed blank (cx_RequestID cx) (internal_error cx h)"
    "well_formed blank (cx_RequestID cx) (unauthorized cx h)" "well_formed blank (cx_RequestID cx) (writeMutationDecodeError cx h de)"
    "well_formed blank (cx_RequestID cx) (writeRegistrationMutationError cx h re)"
    "well_formed blank (cx_RequestID cx) (writePolicyMutationError cx h pe)"
proof -
  note e = well_formed_error[OF assms]
  show f: "well_formed blank (cx_RequestID cx) (forbidden cx h)" "well_formed blank (cx_RequestID cx) (internal_error cx h)"
    by (simp_all add: forbidden_def internal_error_def e statuses_def)
  show "well_formed blank (cx_RequestID cx) (unauthorized cx h)"
    using assms by (simp add: unauthorized_def well_formed_def writeError_def writeJSONStatus_def statuses_def)
  show "well_formed blank (cx_RequestID cx) (writeMutationDecodeError cx h de)"
    by (cases de) (simp_all add: writeMutationDecodeError_def e statuses_def)
  show "well_formed blank (cx_RequestID cx) (writeRegistrationMutationError cx h re)"
    by (cases re) (simp_all add: writeRegistrationMutationError_def e f statuses_def)
  show "well_formed blank (cx_RequestID cx) (writePolicyMutationError cx h pe)"
    by (cases pe) (simp_all add: writePolicyMutationError_def e f statuses_def)
qed

text \<open>The listing that is asked for has a workload with a time that JSON cannot encode.\<close>

definition unwritable_listing :: "'w Server \<Rightarrow> Request \<Rightarrow> 'w \<Rightarrow> bool" where
  "unwritable_listing srv req w \<longleftrightarrow>
     (case fst (srv_workloads srv (Values_Get ''organization_id'' (URL_Query (rq_URL req))) w) of
        Inl _ \<Rightarrow> False
      | Inr items \<Rightarrow> list_ex (\<lambda>x. workload_json (env_zone (srv_env srv)) x = None) items)"

text \<open>Every payload is a document of a fixed shape.\<close>

lemma encodable_payloads [simp]:
  "d < maxNestingDepth \<Longrightarrow> encodable d (mutation_json m)" "d < maxNestingDepth \<Longrightarrow> encodable d (policy_json p)"
  "d < maxNestingDepth \<Longrightarrow> encodable d (version_json v)" 
    "d < maxNestingDepth \<Longrightarrow> workload_json zone w = Some x \<Longrightarrow> encodable d x"
  by (auto simp: mutation_json_def policy_json_def version_json_def workload_json_def time_json_def split: option.splits)

lemma those_Some: "those xs = Some ys \<longleftrightarrow> xs = map Some ys"
  by (induction xs arbitrary: ys) (auto split: option.splits)

lemma those_None: "those xs = None \<longleftrightarrow> None \<in> set xs"
  by (induction xs) (auto split: option.splits)

lemma encodable_data:
  "encodable 0 (data_response (mutation_json m))" "encodable 0 (data_response (policy_json p))"
  "encodable 0 (data_response (version_json v))" "encodable 0 (data_response (create_result_json c))"
  "encodable 0 (JObj [(k, JStr s)])"
    "those (map (workload_json zone) ws) = Some vs \<Longrightarrow> encodable 0 (data_response (JArr vs))"
proof -
  have "encodable (Suc (Suc 0)) v" if ws: "map (workload_json zone) ws = map Some vs" and v: "v \<in> set vs" for v
  proof -
    have "Some v \<in> set (map (workload_json zone) ws)" unfolding ws using v by simp
    then show ?thesis by (auto simp: maxNestingDepth_def intro: encodable_payloads(4)[OF _ sym])
  qed
  then show "those (map (workload_json zone) ws) = Some vs \<Longrightarrow> encodable 0 (data_response (JArr vs))"
    by (auto simp: those_Some data_response_def maxNestingDepth_def)
qed (auto simp: data_response_def create_result_json_def maxNestingDepth_def)

lemma well_formed_listing:
  assumes "base_ok rid h" "blank = list_ex (\<lambda>x. workload_json zone x = None) items"
  shows "well_formed blank rid (writeJSONStatus h 200 (map_option (\<lambda>vs. data_response (JArr vs)) (those (map (workload_json zone) items))))"
proof (cases "those (map (workload_json zone) items)")
  case None
  then have "\<exists>x \<in> set items. workload_json zone x = None" unfolding those_None by (metis (no_types, lifting) imageE set_map)
  then have blank using assms(2) by (simp add: list_ex_iff)
  with None assms(1) show ?thesis by (simp add: well_formed_def writeJSONStatus_def statuses_def)
next
  case (Some vs)
  with assms(1) encodable_data(6)[OF Some] show ?thesis by (auto simp: well_formed_def writeJSONStatus_def statuses_def)
qed

section \<open>Every handler\<close>

lemma well_formed_getOnly:
  assumes "base_ok (cx_RequestID cx) h" "well_formed blank (cx_RequestID cx) (fst (handle cx h req vals w))"
  shows "well_formed blank (cx_RequestID cx) (fst (getOnly handle cx h req vals w))"
  using assms by (simp add: getOnly_def well_formed_def writeError_def writeJSONStatus_def statuses_def)

lemma well_formed_reads:
  assumes "base_ok (cx_RequestID cx) h"
  shows "well_formed blank (cx_RequestID cx) (fst (getOnly health cx h req vals w))"
    "well_formed blank (cx_RequestID cx) (fst (getOnly (ready srv) cx h req vals w))"
    "well_formed blank (cx_RequestID cx) (fst (notFound cx h req vals w))"
    "well_formed (unwritable_listing srv req w) (cx_RequestID cx) (fst (getOnly (listWorkloads srv) cx h req vals w))"
  using assms well_formed_error[OF assms] well_formed_data[OF assms] well_formed_listing[OF assms] encodable_data
  by (auto intro!: well_formed_getOnly well_formed_errors
      simp: health_def ready_def listWorkloads_def notFound_def unwritable_listing_def Let_def statuses_def
      split: prod.split sum.split)

lemma well_formed_mutation:
  assumes "base_ok (cx_RequestID cx) h" "\<And>e. well_formed blank (cx_RequestID cx) (fail cx h e)"
    "\<And>a. well_formed blank (cx_RequestID cx) (succeed h a)"
  shows "well_formed blank (cx_RequestID cx) (fst (mutation flds zero call fail succeed cx h req vals w))"
  using assms well_formed_errors[OF assms(1)] by (simp add: mutation_def split: sum.split option.split prod.split)

lemma well_formed_uuid:
  assumes "base_ok (cx_RequestID cx) h" "\<And>i. well_formed blank (cx_RequestID cx) (fst (handle i cx h req vals w))"
  shows "well_formed blank (cx_RequestID cx) (fst (with_uuid code message handle cx h req vals w))"
  using assms well_formed_error[OF assms(1)] by (simp add: with_uuid_def Let_def statuses_def)

lemma well_formed_service:
  assumes "base_ok (cx_RequestID cx) h"
  shows "well_formed (unwritable_listing srv req w) (cx_RequestID cx) (fst (endpoint_service srv ep cx h req vals w))"
proof (cases ep)
  case CreateRule
  show ?thesis unfolding CreateRule endpoint_service_def endpoint.case createRegistrationRule_def
    by (intro well_formed_mutation well_formed_errors well_formed_data encodable_data) (use assms in simp_all)
next
  case (ReplaceRule i)
  show ?thesis unfolding ReplaceRule endpoint_service_def endpoint.case replaceRegistrationRule_def
    by (intro well_formed_uuid well_formed_mutation well_formed_errors well_formed_data encodable_data) (use assms in simp_all)
next
  case CreatePolicy
  show ?thesis unfolding CreatePolicy endpoint_service_def endpoint.case createPolicy_def
    by (intro well_formed_mutation well_formed_errors well_formed_data encodable_data) (use assms in simp_all)
next
  case (AppendPolicyVersion i)
  show ?thesis unfolding AppendPolicyVersion endpoint_service_def endpoint.case appendPolicyVersion_def
    by (intro well_formed_uuid well_formed_mutation well_formed_errors well_formed_data encodable_data) (use assms in simp_all)
next
  case (ActivatePolicy i)
  show ?thesis unfolding ActivatePolicy endpoint_service_def endpoint.case activatePolicy_def
    by (intro well_formed_uuid well_formed_mutation well_formed_errors well_formed_data encodable_data) (use assms in simp_all)
qed (use well_formed_reads[OF assms] in \<open>simp_all add: endpoint_service_def\<close>)

lemma well_formed_api:
  assumes "base_ok (cx_RequestID cx) h"
  shows "well_formed (unwritable_listing srv req w) (cx_RequestID cx) (fst (api_answer srv ep cx h req w))"
proof -
  have "base_ok (cx_RequestID (cx\<lparr>cx_Principal := Some p\<rparr>)) h" for p using assms by simp
  note s = well_formed_service[OF this] well_formed_errors(1)[OF this] well_formed_reads(3)[OF this]
  show ?thesis
    using well_formed_errors(3)[OF assms] by (simp add: api_answer_def Let_def s[simplified] split: option.split)
qed

lemma serve_well_formed:
  assumes "rq_Method req \<noteq> ''CONNECT''" "servable req"
  shows "well_formed (unwritable_listing srv req (snd (newRequestID srv w))) (fst (newRequestID srv w)) (fst (ServeHTTP srv req w))"
proof -
  obtain rid w1 where r: "newRequestID srv w = (rid, w1)" by fastforce
  let ?cx = "\<lparr>cx_RequestID = rid, cx_Principal = None\<rparr>"
  have b: "base_ok (cx_RequestID ?cx) (base_header rid)" by simp
  note parts = well_formed_reads[OF b] well_formed_api[OF b]
  show ?thesis
    using r assms(2)
    by (cases "front_endpoint (rq_Method req) (segments (EscapedPath (rq_URL req)))")
      (simp_all add: serve_table[OF assms(1)] answer_def parts[simplified])
qed

end
