(* ===== verification/Platform_Api.thy ===== *)
theory Platform_Api
  imports Platform Responses Registration_Facts Policy_Properties
begin

text \<open>
  The control plane's API over its database: which changes of the tables a request can make, the
  interpretation of the service interface on the program's own services, and what follows for every
  request a started control plane serves.
\<close>

section \<open>The changes of the API\<close>

inductive api_change :: "pg \<Rightarrow> endpoint \<Rightarrow> Principal \<Rightarrow> string \<Rightarrow> tables \<Rightarrow> tables \<Rightarrow> bool" for pg where
  rule_create: "reg_validateCreateInput input = None
     \<Longrightarrow> rule_created pg (reg_actor_of p) c input now t res t' \<Longrightarrow> api_change pg CreateRule p c t t'"
| rule_replace: "validateReplaceInput i input = None
     \<Longrightarrow> rule_replaced (reg_actor_of p) c i input now t res t' \<Longrightarrow> api_change pg (ReplaceRule i) p c t t'"
| policy_create: "pol_validateCreateInput (normalizeCreateInput input) = None
     \<Longrightarrow> policy_created pg (pol_actor_of p) c (normalizeCreateInput input) now t res t'
     \<Longrightarrow> api_change pg CreatePolicy p c t t'"
| version_append: "validateAppendInput i (normalizeAppendInput input) = None
     \<Longrightarrow> version_appended (pol_actor_of p) c i (normalizeAppendInput input) now t res t'
     \<Longrightarrow> api_change pg (AppendPolicyVersion i) p c t t'"
| version_activate: "version_activated (pol_actor_of p) c i input now t res t'
     \<Longrightarrow> api_change pg (ActivatePolicy i) p c t t'"

inductive_cases api_change_CreateRule [elim!]: "api_change pg CreateRule p c t t'"
inductive_cases api_change_ReplaceRule [elim!]: "api_change pg (ReplaceRule i) p c t t'"
inductive_cases api_change_CreatePolicy [elim!]: "api_change pg CreatePolicy p c t t'"
inductive_cases api_change_Append [elim!]: "api_change pg (AppendPolicyVersion i) p c t t'"
inductive_cases api_change_Activate [elim!]: "api_change pg (ActivatePolicy i) p c t t'"

text \<open>A change is made by an operator, and only at an endpoint of a mutation.\<close>

lemma CreateDesired_tables:
  assumes "CreateDesired pg actor c input s = (r, s')"
  shows "case r of Inr res \<Rightarrow> reg_validateActor actor = None \<and> reg_validateCreateInput input = None
        \<and> rule_created pg actor c input (pg_now pg (tick s)) (tables s) res (tables s')
     | Inl e \<Rightarrow> tables s' = tables s \<or> reg_internal e \<and> reg_validateActor actor = None \<and> reg_validateCreateInput input = None
        \<and> (\<exists>res. rule_created pg actor c input (pg_now pg (tick s)) (tables s) res (tables s'))"
proof (cases r)
  case (Inr res)
  from CreateDesired_Inr[OF assms[unfolded Inr]] Inr show ?thesis by simp
next
  case (Inl e)
  show ?thesis
  proof (cases "reg_validateActor actor = None \<and> reg_validateCreateInput input = None")
    case True
    from CreateDesired_Inl[OF assms[unfolded Inl]] True Inl show ?thesis
      by (auto simp: reg_internal_def writeRegistrationMutationError_def)
  next
    case False
    with assms have "s' = s" unfolding Inl CreateDesired_def by (auto simp: action_Inl)
    with Inl show ?thesis by simp
  qed
qed

lemma ReplaceDesired_tables:
  assumes "ReplaceDesired pg actor c rid input s = (r, s')"
  shows "case r of Inr res \<Rightarrow> reg_validateActor actor = None \<and> validateReplaceInput rid input = None
        \<and> rule_replaced actor c rid input (pg_now pg (tick s)) (tables s) res (tables s')
     | Inl e \<Rightarrow> tables s' = tables s \<or> reg_internal e \<and> reg_validateActor actor = None \<and> validateReplaceInput rid input = None
        \<and> (\<exists>res. rule_replaced actor c rid input (pg_now pg (tick s)) (tables s) res (tables s'))"
proof (cases r)
  case (Inr res)
  from ReplaceDesired_Inr[OF assms[unfolded Inr]] Inr show ?thesis by simp
next
  case (Inl e)
  show ?thesis
  proof (cases "reg_validateActor actor = None \<and> validateReplaceInput rid input = None")
    case True
    from ReplaceDesired_Inl[OF assms[unfolded Inl]] True Inl show ?thesis
      by (auto simp: reg_internal_def writeRegistrationMutationError_def)
  next
    case False
    with assms have "s' = s" unfolding Inl ReplaceDesired_def by (auto simp: action_Inl)
    with Inl show ?thesis by simp
  qed
qed

text \<open>The services of the control plane make only these changes.\<close>

definition view :: "'sp platform \<Rightarrow> tables" where
  "view w = tables (pf_db w)"

lemma on_db_all_or_nothing:
  assumes "\<And>s r s'. m s = (r, s') \<Longrightarrow> (case r of Inr _ \<Rightarrow> chg (tables s) (tables s')
     | Inl e \<Rightarrow> tables s' = tables s \<or> internal e \<and> chg (tables s) (tables s'))"
  shows "all_or_nothing view chg internal (on_db m)"
  unfolding all_or_nothing_def
proof (intro allI)
  fix w :: "'c platform"
  obtain r s' where "m (pf_db w) = (r, s')" by fastforce
  with assms[OF this] show "case on_db m w of (Inl e, w') \<Rightarrow> view w' = view w \<or> internal e \<and> chg (view w) (view w')
       | (Inr x, w') \<Rightarrow> chg (view w) (view w')"
    by (cases r) (simp_all add: on_db_def view_def)
qed

lemma pol_commit_internal: "pol_internal (PolicyDb m e)"
  by (simp add: pol_internal_def writePolicyMutationError_def)

lemma Policy_Create_change:
  assumes "Policy_Create pg (pol_actor_of p) c pin s = (r, s')"
  shows "case r of Inr _ \<Rightarrow> api_change pg CreatePolicy p c (tables s) (tables s')
     | Inl e \<Rightarrow> tables s' = tables s \<or> pol_internal e \<and> api_change pg CreatePolicy p c (tables s) (tables s')"
  using Policy_Create_Inr(3,4)[of pg "pol_actor_of p" c pin s _ s'] Policy_Create_Inl[of pg "pol_actor_of p" c pin s _ s'] assms
  by (cases r) (auto intro: api_change.policy_create pol_commit_internal)

lemma AppendVersion_change:
  assumes "AppendVersion pg (pol_actor_of p) c i ain s = (r, s')"
  shows "case r of Inr _ \<Rightarrow> api_change pg (AppendPolicyVersion i) p c (tables s) (tables s')
     | Inl e \<Rightarrow> tables s' = tables s \<or> pol_internal e \<and> api_change pg (AppendPolicyVersion i) p c (tables s) (tables s')"
  using AppendVersion_Inr(3,4)[of pg "pol_actor_of p" c i ain s _ s'] AppendVersion_Inl[of pg "pol_actor_of p" c i ain s _ s'] assms
  by (cases r) (auto intro: api_change.version_append pol_commit_internal)

lemma Activate_change:
  assumes "Activate pg (pol_actor_of p) c i vin s = (r, s')"
  shows "case r of Inr _ \<Rightarrow> api_change pg (ActivatePolicy i) p c (tables s) (tables s')
     | Inl e \<Rightarrow> tables s' = tables s \<or> pol_internal e \<and> api_change pg (ActivatePolicy i) p c (tables s) (tables s')"
  using Activate_Inr(4)[of pg "pol_actor_of p" c i vin s _ s'] Activate_Inl[of pg "pol_actor_of p" c i vin s _ s'] assms
  by (cases r) (auto intro: api_change.version_activate pol_commit_internal)

interpretation http: services "platform_server out pg bearer" view "api_change pg"
proof
  fix w :: "'a platform" and org p c cin i rin pin ain vin
  let ?srv = "platform_server out pg bearer"
  show "view (snd (env_random (srv_env ?srv) w)) = view w"
    by (simp add: platform_server_def http_surroundings_def view_def)
  show "view (snd (srv_readiness ?srv w)) = view w"
    by (simp add: platform_server_def dependencies_def view_def)
  show "view (snd (srv_workloads ?srv org w)) = view w"
    using ListByOrganization_reads[of pg "out_collation out" org "pf_db w"]
    by (cases "ListByOrganization pg (out_collation out) org (pf_db w)") (simp add: platform_server_def dependencies_def view_def)
  show "all_or_nothing view (api_change pg CreateRule p c) reg_internal
      (mut_CreateDesired (srv_registrationMutations ?srv) (reg_actor_of p) c cin)"
    unfolding platform_server_def dependencies_def Server.select_convs Dependencies.select_convs option.sel Mutator.select_convs
    by (rule on_db_all_or_nothing, drule CreateDesired_tables) (auto split: sum.splits intro: api_change.rule_create)
  show "all_or_nothing view (api_change pg (ReplaceRule i) p c) reg_internal
      (mut_ReplaceDesired (srv_registrationMutations ?srv) (reg_actor_of p) c i rin)"
    unfolding platform_server_def dependencies_def Server.select_convs Dependencies.select_convs option.sel Mutator.select_convs
    by (rule on_db_all_or_nothing, drule ReplaceDesired_tables) (auto split: sum.splits intro: api_change.rule_replace)
  show "all_or_nothing view (api_change pg CreatePolicy p c) pol_internal
      (mgr_Create (srv_policyManager ?srv) (pol_actor_of p) c pin)"
    unfolding platform_server_def dependencies_def Server.select_convs Dependencies.select_convs option.sel Manager.select_convs
    by (rule on_db_all_or_nothing, drule Policy_Create_change) (auto split: sum.splits)
  show "all_or_nothing view (api_change pg (AppendPolicyVersion i) p c) pol_internal
      (mgr_AppendVersion (srv_policyManager ?srv) (pol_actor_of p) c i ain)"
    unfolding platform_server_def dependencies_def Server.select_convs Dependencies.select_convs option.sel Manager.select_convs
    by (rule on_db_all_or_nothing, drule AppendVersion_change) (auto split: sum.splits)
  show "all_or_nothing view (api_change pg (ActivatePolicy i) p c) pol_internal
      (mgr_Activate (srv_policyManager ?srv) (pol_actor_of p) c i vin)"
    unfolding platform_server_def dependencies_def Server.select_convs Dependencies.select_convs option.sel Manager.select_convs
    by (rule on_db_all_or_nothing, drule Activate_change) (auto split: sum.splits)
qed

section \<open>What a request does\<close>

lemma serve_request:
  assumes "control_plane out env w0 = (Inr srv, w1)" "ServeHTTP srv req w = (resp, w')"
  obtains cfg bearer pg where "control_plane_start env = Inr (cfg, bearer)" "srv = platform_server out pg bearer"
    "request_outcome srv view (api_change pg) req w (resp, w')"
  using assms http.serve_outcome by (metis control_plane_Inr)

text \<open>A change needs the operator's credentials and role: the principal is the configured one.\<close>

lemma operator_only:
  assumes "control_plane_start env = Inr (cfg, bearer)" "Authenticate bearer header = Some p"
    and "mutates ep" "endpoint_permission ep = Some perm" "RBAC_Allowed p perm"
  shows "p = \<lparr>ActorType = ''operator'', ActorID = OperatorID cfg, PrincipalRole = ''operator''\<rparr>"
    and "OperatorRole cfg = ''operator''"
    and "\<exists>scheme credential. header = scheme @ '' '' @ credential \<and> EqualFold scheme ''Bearer''
           \<and> Sum256 credential = Sum256 (OperatorToken cfg)"
proof -
  from assms(1) have b: "NewStaticBearer (OperatorToken cfg) (OperatorID cfg) (OperatorRole cfg) = Inr bearer"
    by (auto simp: control_plane_start_def split: sum.splits)
  from assms(3,4) have "\<not> is_read perm"
    by (cases ep) (auto simp: mutates_def endpoint_permission_def is_read_def permission_defs)
  with assms(5) rbac.viewer_reads_only[of p perm] have r: "PrincipalRole p \<noteq> RoleViewer" by (auto simp: RBAC_Allowed_def)
  note a = Authenticate_Some[OF assms(2)]
  with b have p: "p = \<lparr>ActorType = ''operator'', ActorID = OperatorID cfg, PrincipalRole = OperatorRole cfg\<rparr>"
    "Role_Valid (OperatorRole cfg)" by (auto simp: NewStaticBearer_Inr)
  with r show "p = \<lparr>ActorType = ''operator'', ActorID = OperatorID cfg, PrincipalRole = ''operator''\<rparr>"
    "OperatorRole cfg = ''operator''" by (auto simp: Role_Valid_def role_defs)
  from a b show "\<exists>scheme credential. header = scheme @ '' '' @ credential \<and> EqualFold scheme ''Bearer''
           \<and> Sum256 credential = Sum256 (OperatorToken cfg)" by (auto simp: NewStaticBearer_Inr)
qed

section \<open>An example system\<close>

definition example_outside :: "(proto_entry option) outside" where
  "example_outside = \<lparr>
     out_ParseConfig = (\<lambda>_. Inr \<lparr>MaxConns = 4, MinConns = 0, MaxConnLifetime = 0, MaxConnIdleTime = 0,
       HealthCheckPeriod = 0, ConnectTimeout = 0\<rparr>),
     out_NewWithConfig = (\<lambda>_. Inr example_pg), out_collation = (\<lambda>s. s),
     out_random = (\<lambda>n. Inr (replicate 16 (char_of n))), out_zone = (\<lambda>_. 0),
     out_mux_answer = (\<lambda>h req. \<lparr>rs_Status = 301, rs_Header = h, rs_Body = []\<rparr>),
     out_newClient = (\<lambda>_. Inr one_entry_api)\<rparr>"

definition example_platform :: "proto_entry option platform" where
  "example_platform = \<lparr>pf_db = rule_db, pf_spire = None, pf_draws = 0, pf_pools = 0, pf_clients = 0\<rparr>"

definition operator_env :: "string \<Rightarrow> string" where
  "operator_env = example_env(''WTP_OPERATOR_ROLE'' := ''operator'')"

definition example_token :: string where
  "example_token = ''0123456789abcdef0123456789abcdef''"

definition example_principal :: Principal where
  "example_principal = \<lparr>ActorType = ''operator'', ActorID = ''local-admin'', PrincipalRole = ''operator''\<rparr>"

definition example_bearer :: StaticBearer where
  "example_bearer = \<lparr>tokenDigest = Sum256 example_token, bearer_principal = example_principal\<rparr>"

definition api_request :: "string \<Rightarrow> string \<Rightarrow> string \<Rightarrow> Request" where
  "api_request m path body = \<lparr>rq_Method = m, rq_RequestURI = path, rq_URL = empty_url\<lparr>u_path := path\<rparr>,
     rq_Authorization = ''Bearer '' @ example_token, rq_ContentType = ''application/json'', rq_Body = body\<rparr>"

definition replace_request :: Request where
  "replace_request = api_request ''PATCH'' (''/v1/registration-rules/'' @ uuid_n 80)
     (Marshal (JObj [(''expected_revision'', json_int 1), (''desired_state'', JStr ''absent''),
        (''selectors'', string_array [''unix:uid:1000'']), (''parent_spiffe_id'', JStr ''spiffe://td.example/agent''),
        (''x509_svid_ttl_seconds'', json_int 900)]))"

lemma operator_env_starts:
  "\<exists>cfg. control_plane_start operator_env = Inr (cfg, example_bearer) \<and> OperatorID cfg = ''local-admin''"
proof -
  have "Load operator_env = Inr \<lparr>ListenAddr = ''127.0.0.1:8080'', DatabaseURL = ''postgres://example'',
      OperatorID = ''local-admin'', OperatorToken = ''0123456789abcdef0123456789abcdef'', OperatorRole = ''operator''\<rparr>"
    by code_simp
  moreover have "TrimSpace ''local-admin'' \<noteq> []" by code_simp
  ultimately show ?thesis
    by (simp add: control_plane_start_def NewStaticBearer_def MinTokenBytes_def Role_Valid_def role_defs example_bearer_def
        example_token_def example_principal_def)
qed

lemma example_starts:
  "\<exists>w1. control_plane example_outside operator_env example_platform
     = (Inr (platform_server example_outside example_pg example_bearer), w1)"
proof -
  obtain cfg where "control_plane_start operator_env = Inr (cfg, example_bearer)" using operator_env_starts by blast
  moreover have "\<exists>w1. database_Open example_outside url example_platform = (Inr example_pg, w1)" for url
    by (simp add: on_db_def database_Open_def example_outside_def ping_def run_stmt_def Let_def example_pg_def and_then_def
        wrap_err_def returns_def)
  ultimately show ?thesis by (simp only: control_plane_Inr) blast
qed

lemma example_authenticates: "Authenticate example_bearer (''Bearer '' @ example_token) = Some example_principal"
proof -
  have "EqualFold ''Bearer'' ''Bearer''" "\<not> ContainsAny example_token credential_blank" by code_simp+
  then show ?thesis
    using Authenticate_header[of "''Bearer''" example_token example_bearer] by (simp add: example_bearer_def example_token_def)
qed

text \<open>A run of the server for an authenticated request does not need the token's digest again.\<close>

definition known_server :: "(proto_entry option platform) Server" where
  "known_server = (platform_server example_outside example_pg \<lparr>tokenDigest = [], bearer_principal = example_principal\<rparr>)
     \<lparr>srv_authenticator := (\<lambda>_. Some example_principal)\<rparr>"

lemma known_fields:
  "srv_workloads known_server = srv_workloads (platform_server example_outside example_pg example_bearer)"
  "srv_readiness known_server = srv_readiness (platform_server example_outside example_pg example_bearer)"
  "srv_registrationMutations known_server = srv_registrationMutations (platform_server example_outside example_pg example_bearer)"
  "srv_policyManager known_server = srv_policyManager (platform_server example_outside example_pg example_bearer)"
  "srv_env known_server = srv_env (platform_server example_outside example_pg example_bearer)"
  "srv_authorizer known_server = srv_authorizer (platform_server example_outside example_pg example_bearer)"
  by (simp_all add: known_server_def platform_server_def dependencies_def)

lemma known_service: "endpoint_service known_server ep = endpoint_service (platform_server example_outside example_pg example_bearer) ep"
  unfolding endpoint_service_def createRegistrationRule_def replaceRegistrationRule_def createPolicy_def appendPolicyVersion_def
    activatePolicy_def listWorkloads_def[abs_def] known_fields by (rule refl)

lemma known_server_serves:
  assumes "rq_Method req \<noteq> ''CONNECT''" "rq_Authorization req = ''Bearer '' @ example_token"
  shows "ServeHTTP (platform_server example_outside example_pg example_bearer) req w = ServeHTTP known_server req w"
proof -
  let ?srv = "platform_server example_outside example_pg example_bearer"
  have r: "newRequestID known_server w = newRequestID ?srv w" "ready known_server = ready ?srv"
    unfolding newRequestID_def ready_def[abs_def] known_fields by (rule refl)+
  have a: "srv_authenticator known_server h = Some example_principal" for h by (simp add: known_server_def)
  have b: "srv_authenticator ?srv (rq_Authorization req) = Some example_principal"
    using example_authenticates assms(2) by (simp add: platform_server_def)
  show ?thesis
    unfolding serve_table[OF assms(1)] answer_def api_answer_def known_service known_fields a b r by (rule refl)
qed

definition example_rid :: string where
  "example_rid = replicate 32 (CHR ''0'')"

lemma example_draw:
  "newRequestID (platform_server example_outside pg bearer) example_platform = (example_rid, example_platform\<lparr>pf_draws := 1\<rparr>)"
proof -
  have "hex_EncodeToString (replicate 16 (char_of (0::nat))) = example_rid" by code_simp
  then show ?thesis
    by (simp add: newRequestID_def platform_server_def http_surroundings_def draw_def example_outside_def example_platform_def)
qed

lemma example_update:
  "\<exists>res s'. ReplaceDesired example_pg (reg_actor_of example_principal) example_rid (uuid_n 80) example_replace rule_db
     = (Inr res, s') \<and> length (audit_events (tables s')) = 1"
proof -
  have "map_prod isl (\<lambda>s. length (audit_events (tables s)))
      (ReplaceDesired example_pg (reg_actor_of example_principal) example_rid (uuid_n 80) example_replace rule_db) = (False, 1)"
    by code_simp
  then show ?thesis
    by (cases "ReplaceDesired example_pg (reg_actor_of example_principal) example_rid (uuid_n 80) example_replace rule_db";
        cases "fst (ReplaceDesired example_pg (reg_actor_of example_principal) example_rid (uuid_n 80) example_replace rule_db)") auto
qed

lemma example_route:
  "servable replace_request" "front_endpoint (rq_Method replace_request) (segments (EscapedPath (rq_URL replace_request)))
     = Api (ReplaceRule (uuid_n 80))" "MatchString uuid_items (uuid_n 80)" "rq_Method replace_request \<noteq> ''CONNECT''"
  "rq_Authorization replace_request = ''Bearer '' @ example_token"
  by code_simp+

lemma example_decode:
  "decodeStrictJSON replaceRegistration_fields zero_replaceRegistration replace_request =
     Inr \<lparr>rrr_ExpectedRevision = 1, rrr_DesiredState = ''absent'', rrr_Selectors = ([''unix:uid:1000''], []),
       rrr_ParentSPIFFEID = ''spiffe://td.example/agent'', rrr_X509SVIDTTLSeconds = 900\<rparr>"
  by code_simp

lemma example_serves:
  "\<exists>resp w'. ServeHTTP (platform_server example_outside example_pg example_bearer) replace_request example_platform = (resp, w')
     \<and> rs_Status resp = 200 \<and> length (audit_events (tables (pf_db w'))) = 1"
proof -
  let ?srv = "platform_server example_outside example_pg example_bearer"
  obtain res s' where u: "ReplaceDesired example_pg (reg_actor_of example_principal) example_rid (uuid_n 80) example_replace rule_db
      = (Inr res, s')" "length (audit_events (tables s')) = 1" using example_update by blast
  have i: "replace_input_of \<lparr>rrr_ExpectedRevision = 1, rrr_DesiredState = ''absent'', rrr_Selectors = ([''unix:uid:1000''], []),
       rrr_ParentSPIFFEID = ''spiffe://td.example/agent'', rrr_X509SVIDTTLSeconds = 900\<rparr> = example_replace"
    by (simp add: replace_input_of_def example_replace_def)
  have a: "srv_authenticator ?srv (''Bearer '' @ example_token) = Some example_principal"
    "srv_authorizer ?srv example_principal PermissionRegistrationsWrite"
    using example_authenticates
    by (simp_all add: platform_server_def RBAC_Allowed_def example_principal_def Role_Valid_def role_defs)
  have m: "mut_ReplaceDesired (srv_registrationMutations ?srv) actor c i input = on_db (ReplaceDesired example_pg actor c i input)"
    for actor c i input by (simp add: platform_server_def dependencies_def)
  have "endpoint_service ?srv (ReplaceRule (uuid_n 80)) \<lparr>cx_RequestID = example_rid, cx_Principal = Some example_principal\<rparr>
      (base_header example_rid) replace_request [uuid_n 80] (example_platform\<lparr>pf_draws := 1\<rparr>)
    = (writeJSON (base_header example_rid) 200 (data_response (mutation_json res)), example_platform\<lparr>pf_draws := 1, pf_db := s'\<rparr>)"
    using example_route(3) u(1)
    by (simp add: endpoint_service_def replaceRegistrationRule_def with_uuid_def Let_def mutation_def example_decode i m
        operatorPrincipalFrom_def on_db_def example_platform_def)
  then have "ServeHTTP ?srv replace_request example_platform
      = (writeJSON (base_header example_rid) 200 (data_response (mutation_json res)), example_platform\<lparr>pf_draws := 1, pf_db := s'\<rparr>)"
    using a by (simp add: serve_table[OF example_route(4)] answer_def example_draw example_route(1,2,5) api_answer_def
        endpoint_permission_def endpoint_vals_def Let_def)
  with u(2) show ?thesis by simp
qed

section \<open>Properties\<close>

text \<open>
  C4. Whatever a started control plane is sent, the tables change only for an authorized operator: the
  request is a \<open>POST\<close> or \<open>PATCH\<close> that reaches the endpoint of a mutation, its bearer credential has
  the digest of the configured token, the configured role is \<open>operator\<close>, and its body is one JSON
  value of at most 64 KiB sent as \<open>application/json\<close>. The change is exactly one change of that endpoint,
  made in the name of the configured operator with the request ID as its correlation, the answer is
  a success or 500, and SPIRE is not touched.
\<close>

theorem changes_are_authorized:
  assumes "control_plane out env w0 = (Inr srv, w1)" and "ServeHTTP srv req w = (resp, w')"
    and "tables (pf_db w') \<noteq> tables (pf_db w)"
  shows "\<exists>cfg bearer pg ep p. control_plane_start env = Inr (cfg, bearer)
    \<and> mutation_endpoint req = Some ep \<and> rq_Method req = (case ep of ReplaceRule _ \<Rightarrow> ''PATCH'' | _ \<Rightarrow> ''POST'')
    \<and> p = \<lparr>ActorType = ''operator'', ActorID = OperatorID cfg, PrincipalRole = ''operator''\<rparr>
    \<and> OperatorRole cfg = ''operator''
    \<and> (\<exists>scheme credential. rq_Authorization req = scheme @ '' '' @ credential \<and> EqualFold scheme ''Bearer''
         \<and> Sum256 credential = Sum256 (OperatorToken cfg))
    \<and> ParseMediaType (rq_ContentType req) = Some ''application/json'' \<and> length (rq_Body req) \<le> 65536
    \<and> json_parse (rq_Body req) \<noteq> None
    \<and> api_change pg ep p (Header_Get ''X-Request-Id'' (rs_Header resp)) (tables (pf_db w)) (tables (pf_db w'))
    \<and> rs_Status resp \<in> {200, 201, 500}"
proof -
  from assms(1,2) obtain cfg bearer pg where start: "control_plane_start env = Inr (cfg, bearer)"
    and srv: "srv = platform_server out pg bearer" and o: "request_outcome srv view (api_change pg) req w (resp, w')"
    by (rule serve_request)
  from o assms(3) obtain ep p perm where
    e: "mutation_endpoint req = Some ep" "srv_authenticator srv (rq_Authorization req) = Some p"
      "endpoint_permission ep = Some perm" "srv_authorizer srv p perm" "json_body req"
      "api_change pg ep p (fst (newRequestID srv w)) (view w) (view w')" "rs_Status resp \<in> {200, 201, 500}"
    unfolding request_outcome_def view_def by auto
  from e(1) have m: "mutates ep" "rq_Method req \<noteq> ''CONNECT''" "servable req"
    by (auto simp: mutation_endpoint_def split: if_splits front.splits)
  have "Authenticate bearer (rq_Authorization req) = Some p" "RBAC_Allowed p perm"
    using e(2,4) by (simp_all add: srv platform_server_def)
  note op = operator_only[OF start this(1) m(1) e(3) this(2)]
  have "Header_Get ''X-Request-Id'' (rs_Header resp) = fst (newRequestID srv w)"
    using serve_well_formed[OF m(2,3), of srv w] assms(2) by (simp add: well_formed_def base_ok_def)
  with start e op mutation_endpoint_method[OF e(1)] show ?thesis
    by (intro exI[of _ cfg] exI[of _ bearer] exI[of _ pg] exI[of _ ep] exI[of _ p])
      (simp add: json_body_def maxMutationRequestBytes_def view_def)
qed

theorem changes_are_authorized_witness:
  "\<exists>resp w' pg p. ServeHTTP (platform_server example_outside example_pg example_bearer) replace_request example_platform = (resp, w')
     \<and> tables (pf_db w') \<noteq> tables (pf_db example_platform) \<and> mutation_endpoint replace_request = Some (ReplaceRule (uuid_n 80))
     \<and> api_change pg (ReplaceRule (uuid_n 80)) p (Header_Get ''X-Request-Id'' (rs_Header resp))
          (tables (pf_db example_platform)) (tables (pf_db w'))"
proof -
  obtain resp w' where run: "ServeHTTP (platform_server example_outside example_pg example_bearer) replace_request example_platform
      = (resp, w')" and n: "length (audit_events (tables (pf_db w'))) = 1" using example_serves by blast
  have ne: "tables (pf_db w') \<noteq> tables (pf_db example_platform)"
    using n by (auto simp: example_platform_def rule_db_def example_tables_def)
  obtain w1 where start: "control_plane example_outside operator_env example_platform
      = (Inr (platform_server example_outside example_pg example_bearer), w1)" using example_starts by blast
  have e: "mutation_endpoint replace_request = Some (ReplaceRule (uuid_n 80))"
    using example_route by (simp add: mutation_endpoint_def mutates_def)
  from changes_are_authorized[OF start run ne, unfolded e option.inject] obtain pg p where
    "api_change pg (ReplaceRule (uuid_n 80)) p (Header_Get ''X-Request-Id'' (rs_Header resp))
       (tables (pf_db example_platform)) (tables (pf_db w'))" by (elim exE conjE) simp
  with run ne e show ?thesis by (intro exI conjI)
qed

text \<open>
  C36. The status tells whether the change was made. A request to the endpoint of a mutation that is
  answered with 200 or 201 has made exactly one change of that endpoint; one that is answered with any
  other status but 500 has changed no table; and 500 leaves only these two cases. A request that
  reaches no such endpoint changes no table.
\<close>

theorem status_tells_change:
  assumes "control_plane out env w0 = (Inr srv, w1)" and "ServeHTTP srv req w = (resp, w')"
  shows "\<exists>pg. case mutation_endpoint req of
      None \<Rightarrow> tables (pf_db w') = tables (pf_db w)
    | Some ep \<Rightarrow>
        if rs_Status resp = 200 \<or> rs_Status resp = 201
        then \<exists>p c. api_change pg ep p c (tables (pf_db w)) (tables (pf_db w'))
        else tables (pf_db w') = tables (pf_db w)
          \<or> rs_Status resp = 500 \<and> (\<exists>p c. api_change pg ep p c (tables (pf_db w)) (tables (pf_db w')))"
proof -
  from assms obtain pg where "request_outcome srv view (api_change pg) req w (resp, w')" by (metis serve_request)
  then show ?thesis
    unfolding request_outcome_def view_def
    by (intro exI[of _ pg], cases "mutation_endpoint req") (simp, simp split del: if_split, elim disjE, simp_all, blast+)
qed

theorem status_tells_change_witness:
  "\<exists>resp w' pg p c. ServeHTTP (platform_server example_outside example_pg example_bearer) replace_request example_platform = (resp, w')
     \<and> rs_Status resp = 200 \<and> api_change pg (ReplaceRule (uuid_n 80)) p c (tables rule_db) (tables (pf_db w'))"
proof -
  obtain resp w' where run: "ServeHTTP (platform_server example_outside example_pg example_bearer) replace_request example_platform
      = (resp, w')" and n: "rs_Status resp = 200" using example_serves by blast
  obtain w1 where "control_plane example_outside operator_env example_platform
      = (Inr (platform_server example_outside example_pg example_bearer), w1)" using example_starts by blast
  moreover have "mutation_endpoint replace_request = Some (ReplaceRule (uuid_n 80))"
    using example_route by (simp add: mutation_endpoint_def mutates_def)
  ultimately show ?thesis using status_tells_change[OF _ run] run n by (auto simp: example_platform_def)
qed

text \<open>
  C37. What a client can rely on: whatever it sends, an answer that does not come from the mux itself
  carries the request's ID, \<open>no-store\<close>, \<open>nosniff\<close> and the JSON content type, its status is one of
  twelve, and its body is one valid JSON document and a line end. An error status comes with the
  error envelope that names the request ID, 401 with the challenge and 405 with the allowed method. There
  is one exception: a listing with a workload whose stored time has a year JSON cannot write is answered
  with status 200 and no body at all, because the status is sent before the encoding and the encoder's
  error is dropped.
\<close>

theorem responses_well_formed:
  assumes "rq_Method req \<noteq> ''CONNECT''" "servable req"
  shows "\<exists>rid v. let resp = fst (ServeHTTP srv req w) in
      Header_Get ''X-Request-Id'' (rs_Header resp) = rid \<and> rid = fst (newRequestID srv w)
    \<and> Header_Get ''Cache-Control'' (rs_Header resp) = ''no-store''
    \<and> Header_Get ''X-Content-Type-Options'' (rs_Header resp) = ''nosniff''
    \<and> Header_Get ''Content-Type'' (rs_Header resp) = ''application/json; charset=utf-8''
    \<and> rs_Status resp \<in> {200, 201, 400, 401, 403, 404, 405, 409, 413, 415, 500, 503}
    \<and> (rs_Body resp = Marshal v @ [char_of (10::nat)] \<and> json_parse (Marshal v) = Some (utf8_json v)
          \<and> (400 \<le> rs_Status resp \<longrightarrow> (\<exists>code message. v = errorEnvelope code message rid))
        \<or> rs_Body resp = [] \<and> rs_Status resp = 200 \<and> unwritable_listing srv req (snd (newRequestID srv w)))
    \<and> (rs_Status resp = 401 \<longrightarrow> Header_Get ''Www-Authenticate'' (rs_Header resp)
         = ''Bearer realm='' @ [quote] @ ''workload-trust-platform'' @ [quote])
    \<and> (rs_Status resp = 405 \<longrightarrow> Header_Get ''Allow'' (rs_Header resp) = ''GET'')"
proof -
  let ?resp = "fst (ServeHTTP srv req w)" and ?rid = "fst (newRequestID srv w)"
  note wf = serve_well_formed[OF assms, of srv w, unfolded well_formed_def base_ok_def]
  then consider "unwritable_listing srv req (snd (newRequestID srv w))" "rs_Status ?resp = 200" "rs_Body ?resp = []"
    | v where "encodable 0 v" "rs_Body ?resp = Marshal v @ [char_of (10::nat)]"
      "400 \<le> rs_Status ?resp \<longrightarrow> (\<exists>code message. v = errorEnvelope code message ?rid)" by blast
  then show ?thesis
  proof cases
    case 1
    with wf show ?thesis unfolding Let_def statuses_def by (intro exI[of _ ?rid] exI[of _ JNull]) simp
  next
    case (2 v)
    with wf show ?thesis unfolding Let_def statuses_def by (intro exI[of _ ?rid] exI[of _ v]) (simp add: parse_Marshal)
  qed
qed

theorem responses_well_formed_witness:
  "\<exists>v. rs_Body (fst (ServeHTTP (platform_server example_outside example_pg example_bearer) replace_request example_platform))
     = Marshal v @ [char_of (10::nat)]"
proof -
  have q: "Values_Get ''organization_id'' (URL_Query (rq_URL replace_request)) = []" "uuid_in [] = None" by code_simp+
  have "\<not> unwritable_listing (platform_server example_outside example_pg example_bearer) replace_request w" for w
    using ListByOrganization_rows[of example_pg "out_collation example_outside" "[]" "pf_db w"]
    by (auto simp: unwritable_listing_def q platform_server_def dependencies_def on_db_def split: prod.splits sum.splits)
  then show ?thesis
    using responses_well_formed[OF example_route(4,1), of "platform_server example_outside example_pg example_bearer" example_platform]
    unfolding Let_def by blast
qed

text \<open>The witness of the decision table of \<open>Routing\<close>, at this server and request.\<close>

theorem ServeHTTP_table_witness:
  "ServeHTTP (platform_server example_outside example_pg example_bearer) replace_request example_platform
     = answer (platform_server example_outside example_pg example_bearer) replace_request example_platform
   \<and> front_endpoint (rq_Method replace_request) (segments (EscapedPath (rq_URL replace_request))) = Api (ReplaceRule (uuid_n 80))"
  by (intro conjI ServeHTTP_table[OF example_route(4)] example_route(2))

end
