(* ===== verification/Reconcile_Frame.thy ===== *)
theory Reconcile_Frame
  imports Reconcile
begin

text \<open>
  What a reconciler cannot do whatever it decides: a relation between states that each single call of
  the service keeps is kept by a run on a rule and by a whole pass.
\<close>

definition frames :: "('w \<Rightarrow> 'w \<Rightarrow> bool) \<Rightarrow> ('w, 'e, 'a) action \<Rightarrow> bool" where
  "frames R m \<longleftrightarrow> (\<forall>w. R w (snd (m w)))"

locale step_frame =
  fixes R :: "'w \<Rightarrow> 'w \<Rightarrow> bool"
  assumes refl: "R w w" and trans: "R u v \<Longrightarrow> R v w \<Longrightarrow> R u w"
begin

lemma simple_frame: "frames R (returns a)" "frames R (throws x)"
  by (simp_all add: frames_def refl)

lemma and_then_frame:
  assumes "frames R m" "\<And>a. frames R (k a)"
  shows "frames R (and_then m k)"
  unfolding frames_def
proof
  fix w
  obtain r w' where m: "m w = (r, w')" by fastforce
  with assms(1) have "R w w'" unfolding frames_def by (metis snd_conv)
  with assms(2) m trans show "R w (snd (and_then m k w))" by (cases r) (auto simp: and_then_def frames_def)
qed

lemma wrap_err_frame: "frames R m \<Longrightarrow> frames R (wrap_err f m)"
  by (simp add: frames_def wrap_err_def split: prod.split sum.split) (metis snd_conv)

lemma on_result_frame:
  assumes "frames R m" "\<And>x. frames R (fail x)" "\<And>a. frames R (ok a)"
  shows "frames R (on_result m fail ok)"
  unfolding frames_def
proof
  fix w
  obtain r w' where m: "m w = (r, w')" by fastforce
  with assms(1) have "R w w'" unfolding frames_def by (metis snd_conv)
  with assms(2,3) m trans show "R w (snd (on_result m fail ok w))"
    by (cases r) (auto simp: on_result_run frames_def)
qed

lemma if_frame: "(b \<Longrightarrow> frames R m) \<Longrightarrow> (\<not> b \<Longrightarrow> frames R n) \<Longrightarrow> frames R (if b then m else n)"
  by simp

end

text \<open>A service whose calls each keep the relation.\<close>

locale service_frame = step_frame R for R :: "'w \<Rightarrow> 'w \<Rightarrow> bool" +
  fixes svc :: "'w Service"
  assumes list_frame: "frames R (store_List (svc_rules svc))"
    and mark_frame: "frames R (store_MarkConverged (svc_rules svc) i entry)" "frames R (store_MarkError (svc_rules svc) i code)"
    and spire_frame: "frames R (GetEntry (svc_spire svc) i)" "frames R (CreateEntry (svc_spire svc) e)"
      "frames R (UpdateEntry (svc_spire svc) e)" "frames R (DeleteEntry (svc_spire svc) i)"
    and audit_frame: "frames R (svc_audit svc (reconcile_event rule c operation entryID))"
    and random_frame: "frames R (svc_random svc)"
begin

lemmas frame_rules = simple_frame on_result_frame if_frame mark_frame spire_frame audit_frame

lemma recordAudit_frame: "frames R (recordAudit svc rule c operation entry)"
  unfolding recordAudit_def by (intro frame_rules)

lemma failRule_frame: "frames R (failRule svc rule code cause)"
  unfolding failRule_def by (intro frame_rules)

lemma conflict_frame: "frames R (conflict svc rule entry c)"
  unfolding conflict_def by (intro frame_rules recordAudit_frame failRule_frame)

lemma record_and_mark_frame: "frames R (record_and_mark svc rule c operation entryID entry changed)"
  unfolding record_and_mark_def markConverged_def by (intro frame_rules recordAudit_frame)

lemmas outcome_frames = recordAudit_frame failRule_frame conflict_frame record_and_mark_frame

lemma createOrBind_frame: "frames R (createOrBind svc rule desired c)"
  unfolding createOrBind_def Let_def by (intro frame_rules outcome_frames)

lemma reconcilePresent_frame: "frames R (reconcilePresent svc rule c)"
  unfolding reconcilePresent_def Let_def
  by (cases "desiredEntry rule"; cases "SPIREEntryID rule"; simp)
    (intro frame_rules outcome_frames createOrBind_frame)+

lemma reconcileAbsent_frame: "frames R (reconcileAbsent svc rule c)"
  unfolding reconcileAbsent_def by (cases "SPIREEntryID rule"; simp only: option.case)
    (intro frame_rules outcome_frames)+

lemma reconcileRule_frame: "frames R (reconcileRule svc rule c)"
  unfolding reconcileRule_def by (intro frame_rules reconcilePresent_frame reconcileAbsent_frame outcome_frames)


lemma run_rules_frame: "R w (snd (run_rules svc c rules acc w))"
proof (induction rules arbitrary: acc w)
  case Nil
  then show ?case by (simp add: refl)
next
  case (Cons rule rest)
  obtain summary errs where acc: "acc = (summary, errs)" by fastforce
  obtain r w' where m: "reconcileRule svc rule c w = (r, w')" by fastforce
  have "R w w'" using reconcileRule_frame[of rule c] m unfolding frames_def by (metis snd_conv)
  with Cons trans show ?case by (cases r) (auto simp: acc m)
qed

lemma newCorrelationID_frame: "R w (snd (newCorrelationID svc w))"
  using random_frame[unfolded frames_def, rule_format, of w]
  by (auto simp: newCorrelationID_def split: prod.splits sum.splits)

lemma Run_frame: "R w (snd (Run svc w))"
proof -
  obtain l w1 where l: "store_List (svc_rules svc) w = (l, w1)" by fastforce
  obtain c w2 where c: "newCorrelationID svc w1 = (c, w2)" by fastforce
  have "R w w1" using list_frame[unfolded frames_def, rule_format, of w] l by simp
  moreover have "R w1 w2" using newCorrelationID_frame[of w1] c by simp
  ultimately have w2: "R w w2" by (rule trans)
  show ?thesis
  proof (cases l)
    case (Inl e)
    then show ?thesis using l \<open>R w w1\<close> by (simp add: Run_def)
  next
    case (Inr rules)
    then show ?thesis
      using l c trans[OF w2 run_rules_frame[of w2 c rules "(empty_summary\<lparr>Total := int (length rules)\<rparr>, [])"]]
      by (auto simp: Run_def split: prod.split)
  qed
qed

end

end
