(* ===== verification/System.thy ===== *)
theory System
  imports Audit_Trail Platform_Api Reconcile_Frame Registration_Store
begin

text \<open>
  The running platform: the control plane serves requests and the reconciler works on rules, over one
  database, in any order, while SPIRE and the random source move on their own. The steps of the
  reconciler are taken rule by rule, on whatever rule it was given, so that requests fall between
  them and a rule it works on may be older than the stored one.
\<close>

section \<open>Steps\<close>

inductive system_step :: "'sp outside \<Rightarrow> pg \<Rightarrow> StaticBearer \<Rightarrow> pg \<Rightarrow> 'sp entry_api \<Rightarrow> 'sp platform \<Rightarrow> 'sp platform \<Rightarrow> bool"
  for out pg bearer rpg api where
  request: "ServeHTTP (platform_server out pg bearer) req w = (resp, w') \<Longrightarrow> system_step out pg bearer rpg api w w'"
| listing: "reconciler_service out rpg api = Inr svc \<Longrightarrow> store_List (svc_rules svc) w = (r, w')
     \<Longrightarrow> system_step out pg bearer rpg api w w'"
| rule: "reconciler_service out rpg api = Inr svc \<Longrightarrow> reconcileRule svc x c w = (res, w')
     \<Longrightarrow> system_step out pg bearer rpg api w w'"
| elsewhere: "tables (pf_db w') = tables (pf_db w) \<Longrightarrow> system_step out pg bearer rpg api w w'"

text \<open>A pass of the reconciler is such steps.\<close>

lemma run_rules_steps:
  assumes "reconciler_service out rpg api = Inr svc"
  shows "(system_step out pg bearer rpg api)\<^sup>*\<^sup>* w (snd (run_rules svc c rules acc w))"
proof (induction rules arbitrary: acc w)
  case (Cons x rest)
  obtain summary errs where acc: "acc = (summary, errs)" by fastforce
  obtain r w' where m: "reconcileRule svc x c w = (r, w')" by fastforce
  have "(system_step out pg bearer rpg api)\<^sup>*\<^sup>* w (snd (run_rules svc c rest acc' w'))" for acc'
    using system_step.rule[OF assms m] Cons by (rule converse_rtranclp_into_rtranclp)
  then show ?case by (cases r) (simp_all add: acc m)
qed simp

lemma draw_db: "pf_db (snd (newCorrelationID svc w)) = pf_db w" if "reconciler_service out rpg api = Inr svc"
  using that by (auto simp: newCorrelationID_def reconciler_service_def reconcile_New_def draw_def split: prod.splits sum.splits)

lemma Run_steps:
  assumes "reconciler_service out rpg api = Inr svc"
  shows "(system_step out pg bearer rpg api)\<^sup>*\<^sup>* w (snd (Run svc w))"
proof -
  obtain l w1 where l: "store_List (svc_rules svc) w = (l, w1)" by fastforce
  note one = system_step.listing[OF assms l]
  show ?thesis
  proof (cases l)
    case (Inl e)
    then show ?thesis using l one by (simp add: Run_def r_into_rtranclp)
  next
    case (Inr rules)
    obtain c w2 where c: "newCorrelationID svc w1 = (c, w2)" by fastforce
    have two: "system_step out pg bearer rpg api w1 w2" using draw_db[OF assms, of w1] c by (intro elsewhere) simp
    have "snd (Run svc w) = snd (run_rules svc c rules (empty_summary\<lparr>Total := int (length rules)\<rparr>, []) w2)"
      using l c Inr by (simp add: Run_def split: prod.split)
    with one two run_rules_steps[OF assms] show ?thesis
      by (metis converse_rtranclp_into_rtranclp)
  qed
qed

section \<open>The invariant\<close>

text \<open>What the API puts into a rule.\<close>

definition rule_ok :: "rule_row \<Rightarrow> bool" where
  "rule_ok r \<longleftrightarrow> (\<exists>sels parent. Unmarshal_strings (rr_selectors r) = Some sels \<and> 1 \<le> length sels \<and> length sels \<le> 32
     \<and> rr_desired r \<in> {''present'', ''absent''} \<and> 60 \<le> rr_ttl r \<and> rr_ttl r \<le> 86400
     \<and> rr_parent r = Some parent \<and> reg_validateSPIFFEID parent = None)"

definition rules_ok :: "tables \<Rightarrow> bool" where
  "rules_ok t \<longleftrightarrow> (\<forall>r \<in> set (registration_rules t). rule_ok r)"

lemma rule_ok_stored:
  assumes "validateDesiredFields (rr_desired r) sels parent (rr_ttl r) = None"
    and "rr_selectors r = string_array (map coerce sels)" "rr_parent r = Some parent"
  shows "rule_ok r"
proof -
  have "Unmarshal_strings (rr_selectors r) = Some (map coerce sels)"
    unfolding assms(2) string_array_def by (rule Unmarshal_JStr)
  with assms(1,3) show ?thesis
    by (auto simp: rule_ok_def validateDesiredFields_def MinX509SVIDTTLSeconds_def MaxX509SVIDTTLSeconds_def MaxSelectors_def
        Suc_le_eq split: if_splits option.splits)
qed

definition good :: "tables \<Rightarrow> bool" where
  "good t \<longleftrightarrow> schema_ok t \<and> policies_ok t \<and> rules_ok t"

text \<open>What every step keeps, and what the steps of the reconciler keep besides.\<close>

definition history :: "tables \<Rightarrow> tables \<Rightarrow> bool" where
  "history t t' \<longleftrightarrow> (\<exists>more. audit_events t' = audit_events t @ more)
     \<and> organizations t' = organizations t \<and> workloads t' = workloads t"

definition operator_events :: "tables \<Rightarrow> audit_row list" where
  "operator_events t = filter (\<lambda>ev. ae_actor_type ev = ''operator'') (audit_events t)"

definition reconciled :: "tables \<Rightarrow> tables \<Rightarrow> bool" where
  "reconciled t t' \<longleftrightarrow> history t t' \<and> intent_of t' = intent_of t \<and> operator_events t' = operator_events t \<and> (good t \<longrightarrow> good t')"

lemma history_trans: "history a b \<Longrightarrow> history b c \<Longrightarrow> history a c"
  by (auto simp: history_def)

lemma reconciled_refl [simp]: "reconciled t t"
  by (simp add: reconciled_def history_def)

lemma reconciled_trans: "reconciled a b \<Longrightarrow> reconciled b c \<Longrightarrow> reconciled a c"
  by (auto simp: reconciled_def intro: history_trans)

lemma reconciled_logged:
  assumes "logged t ev t'" "ae_actor_type ev \<noteq> ''operator''"
  shows "reconciled t t'"
  using assms(2) logged_with_event[OF assms(1)] schema_logged[OF _ assms(1)] policies_ok_logged[OF _ assms(1)] intent_logged[OF assms(1)]
  by (auto simp: reconciled_def history_def good_def rules_ok_def operator_events_def with_event_def)

lemma reconciled_marked:
  assumes "returning_id q g t = Inr (i, t')" "\<And>r. rr_id (g r) = rr_id r" "\<And>r. rule_intent_of (g r) = rule_intent_of r"
  shows "reconciled t t'"
proof -
  from assms(1) have u: "update_rules q g t = Inr t'" by (simp add: returning_id_Inr)
  then have t': "t' = t\<lparr>registration_rules := update_rows q g (registration_rules t)\<rparr>" by (simp add: update_rules_Inr)
  then have "rule_ok (g r) = rule_ok r" for r using assms(3)[of r] by (simp add: rule_ok_def rule_intent_of_def)
  then have "rules_ok t \<Longrightarrow> rules_ok t'" by (auto simp: rules_ok_def t' update_rows_def)
  moreover have "policies_ok t' = policies_ok t"
  proof -
    have f: "access_policies t' = access_policies t" "access_policy_versions t' = access_policy_versions t" by (simp_all add: t')
    show ?thesis unfolding policies_ok_def versions_of_def f by (rule refl)
  qed
  ultimately show ?thesis
    using update_rules_schema[OF _ assms(1)] intent_marked[OF u assms(2,3)]
    by (simp add: reconciled_def history_def good_def operator_events_def t')
qed

section \<open>The reconciler's steps\<close>

text \<open>
  A relation between platforms that SPIRE and the random source cannot break: the client of SPIRE
  keeps it, whatever it does.
\<close>

locale platform_frame = step_frame R for R :: "'sp platform \<Rightarrow> 'sp platform \<Rightarrow> bool" +
  assumes outside_moves: "R w (w\<lparr>pf_spire := x\<rparr>)" "R w (w\<lparr>pf_draws := n\<rparr>)"
begin

lemma on_spire_keeps: "frames R (on_spire m)"
  by (simp add: frames_def on_spire_def outside_moves split: prod.split)

lemma draw_keeps: "frames R (draw out)"
  by (simp add: frames_def draw_def outside_moves)

lemma client_frames:
  "frames R (grpc_GetEntry (lift_api api) i)" "frames R (grpc_CreateEntry (lift_api api) e)"
  "frames R (grpc_UpdateEntry (lift_api api) e)" "frames R (grpc_DeleteEntry (lift_api api) i)"
  unfolding grpc_GetEntry_def grpc_CreateEntry_def grpc_UpdateEntry_def grpc_DeleteEntry_def single_result_def lift_api_def
    entry_api.select_convs
  by (auto intro!: simple_frame and_then_frame wrap_err_frame on_spire_keeps split: sum.split list.split option.split prod.split)

end

interpretation kept: platform_frame "\<lambda>w w' :: 'sp platform. reconciled (view w) (view w')"
  by unfold_locales (auto simp: view_def intro: reconciled_trans)

text \<open>The calls of the reconciler's service keep the intent and the invariant.\<close>

lemma frames_on_db:
  assumes "\<And>s. reconciled (tables s) (tables (snd (m s)))"
  shows "frames (\<lambda>w w'. reconciled (view w) (view w')) (on_db m)"
  using assms by (simp add: frames_def view_def)

lemma list_reconciled: "reconciled (tables s) (tables (snd (reg_List pg s)))"
proof -
  have "tables (snd (pool_stmt pg sql_list_rules s)) = tables s"
    by (auto simp: pool_stmt_def sql_list_rules_def Let_def split: commit_outcome.split)
  then have "tables (snd (reg_List pg s)) = tables s"
    by (auto simp: reg_List_def action_defs split: prod.splits sum.splits option.splits)
  then show ?thesis by simp
qed

lemma marked_reconciled:
  "reconciled (tables s) (tables (snd (reg_MarkConverged pg i entry s)))"
  "reconciled (tables s) (tables (snd (reg_MarkError pg i code s)))"
proof -
  obtain r s' where m: "reg_MarkConverged pg i entry s = (r, s')" by fastforce
  from reg_MarkConverged_cases[OF m] consider "tables s' = tables s"
    | k where "returning_id (\<lambda>x. uuid_in i = Some (rr_id x)) (converged_row entry (pg_now pg (tick s))) (tables s) = Inr (k, tables s')"
    by blast
  then show "reconciled (tables s) (tables (snd (reg_MarkConverged pg i entry s)))"
    by cases (simp add: m, auto simp: m converged_row_def rule_intent_of_def intro: reconciled_marked)
next
  obtain r s' where m: "reg_MarkError pg i code s = (r, s')" by fastforce
  from reg_MarkError_cases[OF m] consider "tables s' = tables s"
    | k where "returning_id (\<lambda>x. uuid_in i = Some (rr_id x)) (error_row code (pg_now pg (tick s))) (tables s) = Inr (k, tables s')"
    by blast
  then show "reconciled (tables s) (tables (snd (reg_MarkError pg i code s)))"
    by cases (simp add: m, auto simp: m error_row_def rule_intent_of_def intro: reconciled_marked)
qed

lemma audit_reconciled: "reconciled (tables s) (tables (snd (Append (pool_queryer pg) (reconcile_event rule c operation entryID) s)))"
proof -
  let ?ev = "reconcile_event rule c operation entryID"
  obtain r s' where m: "Append (pool_queryer pg) ?ev s = (r, s')" by fastforce
  have "tables s' = tables s \<or> (\<exists>i at row. event_row (default_metadata ?ev) i at = Some row \<and> logged (tables s) row (tables s'))"
    using pool_audit.Append_Inr[of pg ?ev s _ s'] pool_audit.Append_Inl[of pg ?ev s _ s'] m by (cases r) (simp, blast)+
  moreover have "ae_actor_type row \<noteq> ''operator''" if "event_row (default_metadata ?ev) i at = Some row" for i at row
    using event_row_fields[OF that] by (simp add: default_metadata_def reconcile_event_def split: if_splits)
  ultimately show ?thesis using m by (auto intro: reconciled_logged)
qed

definition platform_service :: "'sp outside \<Rightarrow> pg \<Rightarrow> 'sp entry_api \<Rightarrow> ('sp platform) Service" where
  "platform_service out pg api = \<lparr>svc_rules = db_store pg, svc_spire = grpc_client (lift_api api),
     svc_audit = (\<lambda>ev. on_db (Append (pool_queryer pg) ev)), svc_random = draw out\<rparr>"

lemma reconciler_service_Inr: "reconciler_service out pg api = Inr svc \<longleftrightarrow> svc = platform_service out pg api"
  by (auto simp: reconciler_service_def reconcile_New_def platform_service_def)

interpretation pass: service_frame "\<lambda>w w' :: 'sp platform. reconciled (view w) (view w')" "platform_service out pg api"
proof
  let ?R = "\<lambda>w w' :: 'sp platform. reconciled (view w) (view w')" and ?svc = "platform_service out pg api"
  show "frames ?R (store_List (svc_rules ?svc))" "frames ?R (store_MarkConverged (svc_rules ?svc) i entry)"
    "frames ?R (store_MarkError (svc_rules ?svc) i code)" for i entry code
    unfolding platform_service_def db_store_def Service.select_convs rule_store.select_convs
    by (rule frames_on_db list_reconciled marked_reconciled)+
  show "frames ?R (GetEntry (svc_spire ?svc) i)" "frames ?R (CreateEntry (svc_spire ?svc) e)"
    "frames ?R (UpdateEntry (svc_spire ?svc) e)" "frames ?R (DeleteEntry (svc_spire ?svc) i)" for i e
    unfolding platform_service_def grpc_client_def Service.select_convs spire_client.select_convs
    by (rule kept.client_frames)+
  show "frames ?R (svc_audit ?svc (reconcile_event rule c operation entryID))" for rule c operation entryID
    unfolding platform_service_def Service.select_convs by (rule frames_on_db audit_reconciled)+
  show "frames ?R (svc_random ?svc)"
    unfolding platform_service_def Service.select_convs by (rule kept.draw_keeps)
qed

section \<open>The changes of requests\<close>

lemma policies_ok_frame:
  assumes a: "access_policies t' = access_policies t" and b: "access_policy_versions t' = access_policy_versions t"
  shows "policies_ok t' = policies_ok t"
  unfolding policies_ok_def versions_of_def a b by (rule refl)

lemma history_logged:
  assumes "logged mid ev t'" "audit_events mid = audit_events t" "organizations mid = organizations t"
    "workloads mid = workloads t"
  shows "history t t'"
  using logged_with_event[OF assms(1)] assms(2-4) by (auto simp: history_def with_event_def)

text \<open>The step of a rule change: the policies are kept, and the rule is a validated one.\<close>

lemma good_rules:
  assumes "good t" "schema_ok t'" "access_policies t' = access_policies t"
    "access_policy_versions t' = access_policy_versions t"
    "\<And>r. r \<in> set (registration_rules t') \<Longrightarrow> r \<in> set (registration_rules t) \<or> rule_ok r"
  shows "good t'"
proof -
  have "rules_ok t'" using assms(1,5) by (fastforce simp: good_def rules_ok_def)
  then show ?thesis using assms(1,2) policies_ok_frame[OF assms(3,4)] by (simp add: good_def)
qed

lemma rule_created_step:
  assumes "rule_created pg actor c input now t res t'"
  shows "history t t'" "good t \<Longrightarrow> reg_validateCreateInput input = None \<Longrightarrow> good t'"
proof -
  from assms obtain mid ev row where
    i: "insert_rule row t = Inr mid" "rr_selectors row = string_array (map coerce (cd_Selectors input))"
      "rr_desired row = ''present''" "rr_ttl row = cd_TTL input" "rr_parent row = Some (cd_ParentSPIFFEID input)"
    and l: "logged mid ev t'"
    unfolding rule_created_def by (elim exE conjE) (rule that, assumption, simp, simp, simp, simp, assumption)
  note mid = i(1)[unfolded insert_rule_Inr] and e = logged_with_event[OF l]
  show "history t t'" by (rule history_logged[OF l]) (use mid in auto)
  have m: "access_policies t' = access_policies t" "access_policy_versions t' = access_policy_versions t"
    "registration_rules t' = registration_rules t @ [row]" using mid e by (auto simp: with_event_def)
  show "good t'" if g: "good t" and v: "reg_validateCreateInput input = None"
  proof (rule good_rules[OF g _ m(1,2)])
    have "rule_ok row" using v i(3-)
      by (intro rule_ok_stored[OF _ i(2)]) (simp_all add: reg_validateCreateInput_def split: if_splits)
    then show "r \<in> set (registration_rules t) \<or> rule_ok r" if "r \<in> set (registration_rules t')" for r
      using that m(3) by auto
  qed (use g schema_rule_created[OF _ assms] in \<open>simp add: good_def\<close>)
qed

lemma rule_replaced_step:
  assumes "rule_replaced actor c rid input now t res t'"
  shows "history t t'" "good t \<Longrightarrow> validateReplaceInput rid input = None \<Longrightarrow> good t'"
proof -
  let ?g = "replaced_row (string_array (map coerce (rd_Selectors input))) (rd_DesiredState input)
         (rd_ParentSPIFFEID input) (rd_TTL input) now"
  from assms obtain q mid ev where u: "update_rules q ?g t = Inr mid" and l: "logged mid ev t'"
    unfolding rule_replaced_def by (elim exE conjE) (rule that)
  note mid = u[unfolded update_rules_Inr] and e = logged_with_event[OF l]
  show "history t t'" by (rule history_logged[OF l]) (use mid in auto)
  have m: "access_policies t' = access_policies t" "access_policy_versions t' = access_policy_versions t"
    "registration_rules t' = update_rows q ?g (registration_rules t)" using mid e by (auto simp: with_event_def)
  show "good t'" if g: "good t" and v: "validateReplaceInput rid input = None"
  proof (rule good_rules[OF g _ m(1,2)])
    have "rule_ok (?g x)" for x using v
      by (intro rule_ok_stored[of _ "rd_Selectors input" "rd_ParentSPIFFEID input"])
        (simp_all add: validateReplaceInput_def replaced_row_def split: if_splits)
    then show "r \<in> set (registration_rules t) \<or> rule_ok r" if "r \<in> set (registration_rules t')" for r
      using that unfolding m(3) update_rows_def by (auto split: if_splits)
  qed (use g schema_rule_replaced[OF _ assms] in \<open>simp add: good_def\<close>)
qed

text \<open>A change of the policies leaves the rules alone.\<close>

lemma good_policies:
  "good t \<Longrightarrow> schema_ok t' \<Longrightarrow> policies_ok t' \<Longrightarrow> registration_rules t' = registration_rules t \<Longrightarrow> good t'"
  by (simp add: good_def rules_ok_def)

lemma policies_step:
  assumes "logged mid ev t'" "audit_events mid = audit_events t" "organizations mid = organizations t"
    "workloads mid = workloads t" "registration_rules mid = registration_rules t"
  shows "history t t' \<and> registration_rules t' = registration_rules t"
  using history_logged[OF assms(1-4)] logged_with_event[OF assms(1)] assms(5) by (auto simp: with_event_def)

lemma policy_created_step:
  assumes "policy_created pg actor c input now t res t'"
  shows "history t t' \<and> registration_rules t' = registration_rules t"
proof -
  from assms obtain p v mid1 mid2 ev where m: "insert_policy p t = Inr mid1" "insert_version v mid1 = Inr mid2" and l: "logged mid2 ev t'"
    unfolding policy_created_def by (elim exE conjE) (rule that)
  show ?thesis by (rule policies_step[OF l]) (use m in \<open>auto simp: insert_policy_Inr insert_version_Inr\<close>)
qed

lemma version_appended_step:
  assumes "version_appended actor c pid input now t res t'"
  shows "history t t' \<and> registration_rules t' = registration_rules t"
proof -
  from assms obtain v q g mid1 mid2 ev where m: "insert_version v t = Inr mid1" "update_policies q g mid1 = Inr mid2" and l: "logged mid2 ev t'"
    unfolding version_appended_def by (elim exE conjE) (rule that)
  show ?thesis by (rule policies_step[OF l]) (use m in \<open>auto simp: insert_version_Inr update_policies_Inr\<close>)
qed

lemma version_activated_step:
  assumes "version_activated actor c pid input now t res t'"
  shows "history t t' \<and> registration_rules t' = registration_rules t"
proof -
  from assms obtain q g mid ev where m: "update_policies q g t = Inr mid" and l: "logged mid ev t'"
    unfolding version_activated_def by (elim exE conjE) (rule that)
  show ?thesis by (rule policies_step[OF l]) (use m in \<open>auto simp: update_policies_Inr\<close>)
qed

text \<open>The event of an endpoint.\<close>

definition event_of :: "endpoint \<Rightarrow> event \<Rightarrow> bool" where
  "event_of ep e \<longleftrightarrow> (case (ep, e) of
      (CreateRule, RuleAdded i) \<Rightarrow> True
    | (ReplaceRule i, RuleReplaced j n) \<Rightarrow> uuid_in i = Some j
    | (CreatePolicy, PolicyAdded i) \<Rightarrow> True
    | (AppendPolicyVersion i, VersionAppended j n) \<Rightarrow> uuid_in i = Some j
    | (ActivatePolicy i, VersionActivated j n) \<Rightarrow> uuid_in i = Some j
    | _ \<Rightarrow> False)"

lemma actors [simp]: "ra_Type (reg_actor_of p) = ActorType p" "ra_ID (reg_actor_of p) = ActorID p"
  "pa_Type (pol_actor_of p) = ActorType p" "pa_ID (pol_actor_of p) = ActorID p"
  by (simp_all add: reg_actor_of_def pol_actor_of_def)

lemma api_change_step:
  assumes "api_change pg ep p c t t'" "canonical_uuids pg" "good t"
  shows "history t t' \<and> good t' \<and> (\<exists>e. event_of ep e \<and> audited_step (ActorType p) (ActorID p) c e t t')"
  using assms(1)
proof cases
  case (rule_create input now res)
  with rule_created_step(1)[OF rule_create(3)] rule_created_step(2)[OF rule_create(3) _ rule_create(2)] rule_created_audited[OF rule_create(3)] assms(3) show ?thesis
    by (auto simp: event_of_def split: event.splits)
next
  case (rule_replace i input now res)
  with rule_replaced_step(1)[OF rule_replace(3)] rule_replaced_step(2)[OF rule_replace(3) _ rule_replace(2)] rule_replaced_audited[OF rule_replace(3)] assms(3) show ?thesis
    by (fastforce simp: event_of_def split: event.splits)
next
  case (policy_create input now res)
  have "validateRuleInput (ci_InitialVersion (normalizeCreateInput input)) = None"
    using policy_create(2) by (auto simp: pol_validateCreateInput_def split: if_splits)
  with policies_ok_created[OF policy_create(3)] schema_policy_created[OF _ policy_create(3)] assms(2,3)
  have "schema_ok t' \<and> policies_ok t'" by (simp add: good_def canonical_uuids_def)
  with policy_create policy_created_step[OF policy_create(3)] policy_created_audited[OF policy_create(3) _ assms(2)] assms(3)
    good_policies[of t t'] show ?thesis
    by (auto simp: event_of_def good_def split: event.splits)
next
  case (version_append i input now res)
  have "validateRuleInput (ai_Version (normalizeAppendInput input)) = None"
    using version_append(2) by (auto simp: validateAppendInput_def split: if_splits)
  with policies_ok_appended[OF version_append(3)] schema_version_appended[OF _ version_append(3)] assms(3)
  have "schema_ok t' \<and> policies_ok t'" by (simp add: good_def)
  with version_append version_appended_step[OF version_append(3)] version_appended_audited[OF version_append(3)] assms(3)
    good_policies[of t t'] show ?thesis
    by (fastforce simp: event_of_def split: event.splits)
next
  case (version_activate i input now res)
  have "schema_ok t' \<and> policies_ok t'"
    using policies_ok_activated[OF version_activate(2)] schema_version_activated[OF _ version_activate(2)] assms(3)
    by (simp add: good_def)
  with version_activate version_activated_step[OF version_activate(2)] version_activated_audited[OF version_activate(2)] assms(3)
    good_policies[of t t'] show ?thesis
    by (fastforce simp: event_of_def split: event.splits)
qed

end
