(* ===== verification/System_Properties.thy ===== *)
theory System_Properties
  imports System
begin

text \<open>
  What holds of the running platform after any sequence of requests and reconciler work: the tables
  keep their invariant, the requests are a run of the abstract specification, and the operator's part
  of the audit log is that run.
\<close>

section \<open>Runs of the specification\<close>

lemma intent_steps_snoc: "intent_steps a es b \<Longrightarrow> intent_step b e c \<Longrightarrow> intent_steps a (es @ [e]) c"
  by (induction rule: intent_steps.induct) (auto intro: intent_steps.intros)

lemma intent_steps_grows: "intent_steps a es b \<Longrightarrow> grows a b"
  by (induction rule: intent_steps.induct) (auto intro: grows_refl grows_trans intent_step_grows)

lemma intent_steps_mem:
  "intent_steps a es b \<Longrightarrow> e \<in> set es \<Longrightarrow> \<exists>s s'. grows a s \<and> intent_step s e s'"
proof (induction rule: intent_steps.induct)
  case (more s x s' es s'')
  then show ?case
  proof (cases "e = x")
    case False
    with more obtain u v where "grows s' u" "intent_step u e v" by auto
    with intent_step_grows[OF more(1)] show ?thesis by (blast intro: grows_trans)
  qed (use more(1) grows_refl in blast)
qed simp

text \<open>No rule and no policy changes twice at one revision.\<close>

lemma intent_steps_once: "intent_steps a es b \<Longrightarrow> distinct (List.map_filter subject es)"
proof (induction rule: intent_steps.induct)
  case (more s e s' es s'')
  have "x \<notin> set (List.map_filter subject es)" if "subject e = Some x" for x
  proof
    assume "x \<in> set (List.map_filter subject es)"
    then obtain e' where e': "e' \<in> set es" "subject e' = Some x" by (auto simp: List.map_filter_def)
    from intent_steps_mem[OF more(2) e'(1)] obtain u v where "grows s' u" "intent_step u e' v" by blast
    with intent_step_once[OF more(1) _ _ that] e'(2) show False by blast
  qed
  with more(3) show ?case by (auto simp: map_filter_simps split: option.split)
qed (simp add: map_filter_simps)

section \<open>A step of the platform\<close>

lemma request_kind:
  assumes "ServeHTTP (platform_server out pg bearer) req w = (resp, w')"
  shows "view w' = view w \<or> (\<exists>ep c. mutation_endpoint req = Some ep \<and> rs_Status resp \<in> {200, 201, 500}
     \<and> api_change pg ep (bearer_principal bearer) c (view w) (view w'))"
  using http.serve_outcome[of out pg bearer req w] assms Authenticate_Some[of bearer]
  unfolding request_outcome_def by (auto simp: platform_server_def)

lemma step_kind:
  assumes "system_step out pg bearer rpg api w w'"
  shows "reconciled (view w) (view w') \<or> (\<exists>ep c. api_change pg ep (bearer_principal bearer) c (view w) (view w'))"
  using assms
proof cases
  case (request req resp)
  from request_kind[OF this] show ?thesis by (metis reconciled_refl)
next
  case (listing svc r)
  then show ?thesis
    using pass.list_frame[of out rpg api] by (auto simp: reconciler_service_Inr frames_def) (metis snd_conv)
next
  case (rule svc x c r)
  then show ?thesis
    using pass.reconcileRule_frame[of out rpg api x c] by (auto simp: reconciler_service_Inr frames_def) (metis snd_conv)
next
  case elsewhere
  then show ?thesis by (simp add: view_def)
qed

lemma operator_bearer:
  assumes "NewStaticBearer token operator role = Inr bearer"
  shows "ActorType (bearer_principal bearer) = ''operator''" "ActorID (bearer_principal bearer) = operator"
  using assms by (auto simp: NewStaticBearer_Inr)

section \<open>Runs of the platform\<close>

lemma run_moves:
  assumes "(system_step out pg bearer rpg api)\<^sup>*\<^sup>* w0 w" "canonical_uuids pg" "good (view w0)"
    and "NewStaticBearer token operator role = Inr bearer"
  shows "good (view w) \<and> history (view w0) (view w)
    \<and> (\<exists>es evs. intent_steps (intent_of (view w0)) es (intent_of (view w))
         \<and> operator_events (view w) = operator_events (view w0) @ evs \<and> list_all2 (records ''operator'' operator) es evs)"
  using assms(1)
proof (induction rule: rtranclp_induct)
  case base
  then show ?case using assms(3) intent_steps.none by (auto simp: history_def)
next
  case (step w w')
  then obtain es evs where es: "good (view w)" "history (view w0) (view w)"
    "intent_steps (intent_of (view w0)) es (intent_of (view w))"
    "operator_events (view w) = operator_events (view w0) @ evs" "list_all2 (records ''operator'' operator) es evs" by blast
  from step_kind[OF step(2)] show ?case
  proof (elim disjE exE)
    assume "reconciled (view w) (view w')"
    with es show ?thesis unfolding reconciled_def by (auto intro: history_trans)
  next
    fix ep c
    assume "api_change pg ep (bearer_principal bearer) c (view w) (view w')"
    from api_change_step[OF this assms(2) es(1)] obtain e where
      e: "history (view w) (view w')" "good (view w')" "audited_step ''operator'' operator c e (view w) (view w')"
      by (auto simp: operator_bearer[OF assms(4)])
    from e(3) obtain ev where ev: "audit_events (view w') = audit_events (view w) @ [ev]" "records ''operator'' operator e ev"
      "intent_step (intent_of (view w)) e (intent_of (view w'))" by (auto simp: audited_step_def)
    then have "operator_events (view w') = operator_events (view w0) @ (evs @ [ev])"
      using es(4) by (simp add: operator_events_def records_def)
    moreover have "list_all2 (records ''operator'' operator) (es @ [e]) (evs @ [ev])" using es(5) ev(2) by (simp add: list_all2_appendI)
    ultimately show ?thesis using e es intent_steps_snoc[OF es(3) ev(3)] history_trans by blast
  qed
qed

lemma List_decodes:
  assumes "rules_ok (tables s)"
  shows "fst (reg_List pg s) \<noteq> Inl RuleSelectorsUndecodable"
proof
  assume "fst (reg_List pg s) = Inl RuleSelectorsUndecodable"
  then obtain rows s' where "pool_stmt pg sql_list_rules s = (Inr rows, s')" "scan_rules rows = None"
    by (auto simp: reg_List_def action_defs split: prod.splits sum.splits option.splits)
  then obtain r where "r \<in> set (registration_rules (tables s))" "Unmarshal_strings (rr_selectors r) = None"
    by (auto simp: pool_stmt_Inr sql_list_rules_def scan_rules_None scan_rule_def List.map_filter_def split: option.splits)
  with assms show False by (auto simp: rules_ok_def rule_ok_def)
qed

section \<open>A concrete run\<close>

text \<open>The database with one rule, and the operator's request that makes it absent.\<close>

lemma example_good: "schema_ok (tables (pf_db example_platform))" "policies_ok (tables (pf_db example_platform))"
  "rules_ok (tables (pf_db example_platform))"
proof -
  show "schema_ok (tables (pf_db example_platform))" "policies_ok (tables (pf_db example_platform))" by code_simp+
  have "reg_validateSPIFFEID ''spiffe://td.example/agent'' = None" by code_simp
  then show "rules_ok (tables (pf_db example_platform))"
    by (simp add: rules_ok_def rule_ok_def example_platform_def rule_db_def example_tables_def example_rule_def string_array_def
        Unmarshal_JStr[of "[''unix:uid:1000'']", simplified])
qed

lemma example_uuids: "\<forall>n. uuid_in (pg_uuid example_pg n) = Some (pg_uuid example_pg n)"
  using canonical_example by (simp add: canonical_uuids_def)

lemma example_operator: "NewStaticBearer example_token ''local-admin'' ''operator'' = Inr example_bearer"
proof -
  have "TrimSpace ''local-admin'' \<noteq> []" by code_simp
  then show ?thesis
    by (simp add: NewStaticBearer_Inr MinTokenBytes_def example_token_def example_bearer_def example_principal_def Role_Valid_def role_defs)
qed

lemma example_run:
  obtains resp w where "ServeHTTP (platform_server example_outside example_pg example_bearer) replace_request example_platform = (resp, w)"
    "rs_Status resp = 200" "length (audit_events (tables (pf_db w))) = 1"
    "(system_step example_outside example_pg example_bearer example_pg one_entry_api)\<^sup>*\<^sup>* example_platform w"
  using example_serves system_step.request by (metis r_into_rtranclp)

section \<open>Properties\<close>





text \<open>
  C2. The audit log tells the whole story: after any run, the events it has gained from operators are,
  in order and one for one, the changes operators made: each names the configured operator, the
  kind of the change and the rule or policy it changed. No change is missing, none is recorded
  that was not made, and the reconciler's own events are never an operator's.
\<close>

theorem audit_trail_is_history:
  assumes "\<forall>n. uuid_in (pg_uuid pg n) = Some (pg_uuid pg n)" and "NewStaticBearer token operator role = Inr bearer"
    and "(system_step out pg bearer rpg api)\<^sup>*\<^sup>* w0 w"
    and "schema_ok (tables (pf_db w0))" "policies_ok (tables (pf_db w0))" "rules_ok (tables (pf_db w0))"
  shows "\<exists>es more. intent_steps (intent_of (tables (pf_db w0))) es (intent_of (tables (pf_db w)))
    \<and> audit_events (tables (pf_db w)) = audit_events (tables (pf_db w0)) @ more
    \<and> list_all2 (records ''operator'' operator) es (filter (\<lambda>ev. ae_actor_type ev = ''operator'') more)"
proof -
  from run_moves[OF assms(3) _ _ assms(2)] assms(1,4-6) obtain es evs where
    "history (view w0) (view w)" and m: "intent_steps (intent_of (view w0)) es (intent_of (view w))"
      "operator_events (view w) = operator_events (view w0) @ evs" "list_all2 (records ''operator'' operator) es evs"
    by (auto simp: canonical_uuids_def good_def view_def)
  then obtain more where "audit_events (view w) = audit_events (view w0) @ more" by (auto simp: history_def)
  with m show ?thesis by (auto simp: operator_events_def view_def)
qed

theorem audit_trail_is_history_witness:
  "\<exists>(w :: proto_entry option platform) es more. audit_events (tables (pf_db w)) = more \<and> length more = 1
     \<and> list_all2 (records ''operator'' ''local-admin'') es (filter (\<lambda>ev. ae_actor_type ev = ''operator'') more)"
proof -
  obtain w where w: "length (audit_events (tables (pf_db w))) = 1"
    "(system_step example_outside example_pg example_bearer example_pg one_entry_api)\<^sup>*\<^sup>* example_platform w" by (rule example_run)
  have "audit_events (tables (pf_db example_platform)) = []" by code_simp
  with audit_trail_is_history[OF example_uuids example_operator w(2) example_good] w(1) show ?thesis by auto
qed

text \<open>
  A request is one event: one answered with 200 or 201 at the endpoint of a mutation has
  changed what operators want by exactly one event of that endpoint, on the rule or policy its path
  names; any other answer but 500 to it, and any answer to another request, has changed nothing of it.
\<close>

theorem request_refines_intent:
  assumes "\<forall>n. uuid_in (pg_uuid pg n) = Some (pg_uuid pg n)"
    and "schema_ok (tables (pf_db w))" "policies_ok (tables (pf_db w))" "rules_ok (tables (pf_db w))"
    and "ServeHTTP (platform_server out pg bearer) req w = (resp, w')"
  shows "case mutation_endpoint req of
      None \<Rightarrow> intent_of (tables (pf_db w')) = intent_of (tables (pf_db w))
    | Some ep \<Rightarrow>
        (let changed = (\<exists>e. event_of ep e \<and> intent_step (intent_of (tables (pf_db w))) e (intent_of (tables (pf_db w')))) in
         if rs_Status resp = 200 \<or> rs_Status resp = 201 then changed
         else intent_of (tables (pf_db w')) = intent_of (tables (pf_db w)) \<or> rs_Status resp = 500 \<and> changed)"
proof -
  have "request_outcome (platform_server out pg bearer) view (api_change pg) req w (resp, w')"
    using http.serve_outcome[of out pg bearer req w] assms(5) by simp
  moreover have "\<exists>e. event_of ep e \<and> intent_step (intent_of (tables (pf_db w))) e (intent_of (tables (pf_db w')))"
    if "api_change pg ep p c (view w) (view w')" for ep p c
    using api_change_step[OF that] assms(1-4) by (auto simp: canonical_uuids_def good_def view_def audited_step_def)
  ultimately show ?thesis
    unfolding request_outcome_def Let_def view_def by (cases "mutation_endpoint req") (simp, simp split del: if_split, elim disjE, simp_all, blast)
qed

theorem request_refines_intent_witness:
  "\<exists>(w :: proto_entry option platform) e. event_of (ReplaceRule (uuid_n 80)) e
     \<and> intent_step (intent_of (tables (pf_db example_platform))) e (intent_of (tables (pf_db w)))"
proof -
  obtain resp w where w: "ServeHTTP (platform_server example_outside example_pg example_bearer) replace_request example_platform
      = (resp, w)" "rs_Status resp = 200" by (rule example_run)
  have "mutation_endpoint replace_request = Some (ReplaceRule (uuid_n 80))"
    using example_route by (simp add: mutation_endpoint_def mutates_def)
  with request_refines_intent[OF example_uuids example_good w(1)] w(2) show ?thesis by (auto simp: Let_def)
qed

end
