(* ===== verification/Programs.thy ===== *)
theory Programs
  imports System
begin

text \<open>
  The two programs from start to exit (\<open>apps/control-plane/main.go\<close>, \<open>apps/reconciler/main.go\<close>): what
  the control plane serves until it is told to stop, what its \<open>run\<close> returns then, the reconciler's one
  pass, the exit codes, and the connections each of them opens and closes.
\<close>

section \<open>The control plane\<close>

record http_server =
  Addr :: string
  ReadHeaderTimeout :: int
  ReadTimeout :: int
  WriteTimeout :: int
  IdleTimeout :: int

definition second :: int where "second = 10 ^ 9"

definition server_of :: "Config \<Rightarrow> http_server" where
  "server_of cfg = \<lparr>Addr = ListenAddr cfg, ReadHeaderTimeout = 5 * second, ReadTimeout = 10 * second,
     WriteTimeout = 15 * second, IdleTimeout = 60 * second\<rparr>"

text \<open>
  What \<open>ListenAndServe\<close> returns, and how serving ends: it returned by itself, or a signal came first,
  and then \<open>Shutdown\<close> returned an error or nothing and \<open>ListenAndServe\<close> returned too.
\<close>

datatype listen_result = ListenNil | ErrServerClosed | ListenFailed string

datatype serving_end = Returned listen_result | Interrupted "string option" listen_result

definition serveErr :: "listen_result \<Rightarrow> string option" where
  "serveErr r = (case r of ListenFailed e \<Rightarrow> Some e | _ \<Rightarrow> None)"

definition serving_result :: "serving_end \<Rightarrow> string option" where
  "serving_result fin = (case fin of
      Returned r \<Rightarrow> serveErr r
    | Interrupted (Some e) r \<Rightarrow> Some e
    | Interrupted None r \<Rightarrow> serveErr r)"

fun serve_all :: "'w Server \<Rightarrow> Request list \<Rightarrow> 'w \<Rightarrow> Response list \<times> 'w" where
  "serve_all srv [] w = ([], w)"
| "serve_all srv (req # reqs) w =
     (case ServeHTTP srv req w of (resp, w1) \<Rightarrow> (case serve_all srv reqs w1 of (resps, w2) \<Rightarrow> (resp # resps, w2)))"

datatype run_failure = NotStarted start_error | ServingFailed string

definition serve :: "'w Server \<Rightarrow> Request list \<times> serving_end \<Rightarrow> ('w, run_failure, Response list) action" where
  "serve srv session w =
     (case serve_all srv (fst session) w of (resps, w') \<Rightarrow>
        (case serving_result (snd session) of Some e \<Rightarrow> (Inl (ServingFailed e), w') | None \<Rightarrow> (Inr resps, w')))"

text \<open>\<open>net/http\<close> gives a server its session: the requests it hands to the handler, and how it ends.\<close>

definition control_plane_run ::
    "'sp outside \<Rightarrow> (string \<Rightarrow> string) \<Rightarrow> (http_server \<Rightarrow> Request list \<times> serving_end) \<Rightarrow> ('sp platform, run_failure, Response list) action" where
  "control_plane_run out env listen =
     (case control_plane_start env of
        Inl e \<Rightarrow> throws (NotStarted (StartConfig e))
      | Inr (cfg, bearer) \<Rightarrow>
          and_then (wrap_err NotStarted (control_plane out env))
            (\<lambda>srv. deferred close_pool (serve srv (listen (server_of cfg)))))"

section \<open>The reconciler\<close>

datatype pass_failure = PassNotStarted start_error | PassFailed Summary run_error

definition reconciler_run :: "'sp outside \<Rightarrow> (string \<Rightarrow> string) \<Rightarrow> ('sp platform, pass_failure, Summary) action" where
  "reconciler_run out env =
     and_then (wrap_err PassNotStarted (reconciler out env))
       (\<lambda>(summary, err). case err of Some e \<Rightarrow> throws (PassFailed summary e) | None \<Rightarrow> returns summary)"

text \<open>\<open>main\<close>: the error of \<open>run\<close> is logged and the process exits with 1.\<close>

definition exit_code :: "'e + 'a \<Rightarrow> int" where
  "exit_code r = (case r of Inl _ \<Rightarrow> 1 | Inr _ \<Rightarrow> 0)"

section \<open>Connections\<close>

text \<open>Requests and the reconciler's calls open and close none.\<close>

definition held :: "'sp platform \<Rightarrow> nat \<times> nat" where
  "held w = (pf_pools w, pf_clients w)"

lemma held_on_db [simp]: "held (snd (on_db m w)) = held w"
  by (simp add: held_def)

lemma held_constant: "(\<And>w. held (snd (m w)) = held w) \<Longrightarrow> all_or_nothing held (\<lambda>a b. a = b) internal m"
  unfolding all_or_nothing_def by (auto split: prod.split sum.split) (metis snd_conv)+

interpretation held_http: services "platform_server out pg bearer" held "\<lambda>ep p c a b. a = b"
  by unfold_locales (simp_all add: platform_server_def dependencies_def http_surroundings_def held_constant held_def)

lemma held_ServeHTTP: "held (snd (ServeHTTP (platform_server out pg bearer) req w)) = held w"
  using held_http.serve_outcome[of out pg bearer req w] by (auto simp: request_outcome_def)

interpretation held: platform_frame "\<lambda>w w' :: 'sp platform. held w' = held w"
  by unfold_locales (simp_all add: held_def)

interpretation held_pass: service_frame "\<lambda>w w' :: 'sp platform. held w' = held w" "platform_service out pg api"
proof
  let ?R = "\<lambda>w w' :: 'sp platform. held w' = held w" and ?svc = "platform_service out pg api"
  show "frames ?R (GetEntry (svc_spire ?svc) i)" "frames ?R (CreateEntry (svc_spire ?svc) e)"
    "frames ?R (UpdateEntry (svc_spire ?svc) e)" "frames ?R (DeleteEntry (svc_spire ?svc) i)" for i e
    unfolding platform_service_def grpc_client_def Service.select_convs spire_client.select_convs
    by (rule held.client_frames)+
qed (simp_all add: frames_def platform_service_def db_store_def held_def)

section \<open>Whole runs\<close>

lemma serve_all_steps:
  "(system_step out pg bearer rpg api)\<^sup>*\<^sup>* w (snd (serve_all (platform_server out pg bearer) reqs w))
     \<and> held (snd (serve_all (platform_server out pg bearer) reqs w)) = held w
     \<and> length (fst (serve_all (platform_server out pg bearer) reqs w)) = length reqs"
proof (induction reqs arbitrary: w)
  case (Cons req reqs)
  obtain resp w1 where r: "ServeHTTP (platform_server out pg bearer) req w = (resp, w1)" by fastforce
  then have "system_step out pg bearer rpg api w w1" "held w1 = held w"
    using held_ServeHTTP[of out pg bearer req w] by (auto intro: system_step.request)
  with Cons[of w1] r show ?case by (auto split: prod.split intro: converse_rtranclp_into_rtranclp)
qed simp

lemma control_plane_held:
  assumes "control_plane out env w = (r, w')"
  shows "tables (pf_db w') = tables (pf_db w) \<and> pf_clients w' = pf_clients w
    \<and> (case r of Inl e \<Rightarrow> pf_pools w' = pf_pools w | Inr srv \<Rightarrow> pf_pools w' = Suc (pf_pools w))"
proof (cases "control_plane_start env")
  case (Inl e)
  then show ?thesis using assms by (auto simp: control_plane_def throws_def)
next
  case (Inr x)
  then obtain cfg bearer where start: "control_plane_start env = Inr (cfg, bearer)" by (cases x) simp
  obtain o' w1 where o: "database_Open out (DatabaseURL cfg) w = (o', w1)" by fastforce
  show ?thesis
    using assms start o database_Open_Inl[of out "DatabaseURL cfg" w _ w1] database_Open_Inr[of out "DatabaseURL cfg" w _ w1]
    by (cases o') (auto simp: control_plane_def action_defs New_platform)
qed

lemma reconcile_pass_held:
  "held (snd (reconcile_pass out pg api w)) = held w \<and> reconciled (view w) (view (snd (reconcile_pass out pg api w)))"
  using held_pass.Run_frame[of out pg api w] pass.Run_frame[of w out pg api]
  by (auto simp: reconcile_pass_def reconciler_service_Inr split: sum.split prod.split)

section \<open>Properties\<close>



text \<open>
  C40. A reconciler from start to exit, whatever it finds and whatever fails: it gives back every
  connection it opened; what operators want is exactly what it was, no event of an operator is added to
  or missing from the audit log, and the tables' invariant still holds.
\<close>

theorem reconciler_whole_run:
  assumes "reconciler_run out env w = (r, w')"
  shows "pf_pools w' = pf_pools w \<and> pf_clients w' = pf_clients w
    \<and> intent_of (tables (pf_db w')) = intent_of (tables (pf_db w))
    \<and> operator_events (tables (pf_db w')) = operator_events (tables (pf_db w))
    \<and> (\<exists>more. audit_events (tables (pf_db w')) = audit_events (tables (pf_db w)) @ more)
    \<and> (schema_ok (tables (pf_db w)) \<and> policies_ok (tables (pf_db w)) \<and> rules_ok (tables (pf_db w))
        \<longrightarrow> schema_ok (tables (pf_db w')) \<and> policies_ok (tables (pf_db w')) \<and> rules_ok (tables (pf_db w')))"
proof -
  have w': "w' = snd (reconciler out env w)"
    using assms by (auto simp: reconciler_run_def action_defs split: prod.splits sum.splits option.splits)
  have "held (snd (reconciler out env w)) = held w \<and> reconciled (view w) (view (snd (reconciler out env w)))"
  proof (cases "LoadReconciler env")
    case (Inl e)
    then show ?thesis by (simp add: reconciler_def throws_def)
  next
    case (Inr cfg)
    obtain o' w1 where o: "database_Open out (ReconcilerDatabaseURL cfg) w = (o', w1)" by fastforce
    show ?thesis
    proof (cases o')
      case (Inl e)
      with Inr o database_Open_Inl[of out "ReconcilerDatabaseURL cfg" w e w1] show ?thesis
        by (simp add: reconciler_def action_defs held_def view_def)
    next
      case p: (Inr pg)
      with o database_Open_Inr[of out "ReconcilerDatabaseURL cfg" w pg w1]
      have v: "view w1 = view w" "pf_pools w1 = Suc (pf_pools w)" "pf_clients w1 = pf_clients w" by (simp_all add: view_def)
      have e: "snd (reconciler out env w) = snd (deferred close_pool
           (case NewUnixClient (out_newClient out) (SPIREServerSocket cfg) of
              Inl e \<Rightarrow> throws (StartSPIRE e)
            | Inr api \<Rightarrow> deferred close_client (\<lambda>w. reconcile_pass out pg api (open_client w))) w1)"
        using Inr o p by (simp add: reconciler_def action_defs)
      show ?thesis
      proof (cases "NewUnixClient (out_newClient out) (SPIREServerSocket cfg)")
        case (Inl x)
        with e v show ?thesis by (simp add: throws_def held_def) (simp add: view_def)
      next
        case (Inr api)
        with e v reconcile_pass_held[of out pg api "open_client w1"] show ?thesis by (simp add: held_def) (simp add: view_def)
      qed
    qed
  qed
  then show ?thesis by (auto simp: w' held_def reconciled_def history_def good_def view_def)
qed

theorem reconciler_whole_run_witness:
  "pf_pools (snd (reconciler_run example_outside operator_env example_platform)) = 0
     \<and> intent_of (tables (pf_db (snd (reconciler_run example_outside operator_env example_platform)))) = intent_of (tables rule_db)"
  using reconciler_whole_run[OF surjective_pairing, of example_outside operator_env example_platform]
  by (simp add: example_platform_def)

end
