(* ===== verification/Spire_Works.thy ===== *)
theory Spire_Works
  imports Reconcile_Settles System
begin

text \<open>
  SPIRE's entry API as it is documented, over a function \<open>stored\<close> that gives the entries of a SPIRE state
  and a set \<open>issued\<close> of the entry IDs it has ever given out, and what the client of \<open>internal/spiremgmt\<close>
  makes of it.
\<close>

section \<open>The API\<close>

definition proper :: "proto_entry \<Rightarrow> bool" where
  "proper p \<longleftrightarrow> toProtoEntry (fromProtoEntry p) = Inr p"

definition same_registration :: "proto_entry \<Rightarrow> proto_entry \<Rightarrow> bool" where
  "same_registration a b \<longleftrightarrow> pe_SpiffeId a = pe_SpiffeId b \<and> pe_ParentId a = pe_ParentId b
     \<and> mset (pe_Selectors a) = mset (pe_Selectors b)"

text \<open>
  A read answers the entry or \<open>NOT_FOUND\<close>. A create answers \<open>ALREADY_EXISTS\<close> with the entry that has the
  same workload, parent and selectors, when there is one, and adds the entry under an ID never used before
  otherwise. An update with the full mask of an entry there is replaces it, a delete removes it.
\<close>

definition spire_works :: "'s entry_api \<Rightarrow> ('s \<Rightarrow> string \<Rightarrow> proto_entry option) \<Rightarrow> ('s \<Rightarrow> string set) \<Rightarrow> bool" where
  "spire_works api stored issued \<longleftrightarrow>
     (\<forall>s i p. stored s i = Some p \<longrightarrow> pe_Id p = i \<and> i \<noteq> [] \<and> text_ok i \<and> i \<in> issued s \<and> proper p)
     \<and> (\<forall>s i. \<exists>s'. api_GetEntry api i fullOutputMask s
          = (case stored s i of None \<Rightarrow> Inl (RpcStatus codes_NotFound) | Some p \<Rightarrow> Inr p, s')
          \<and> stored s' = stored s \<and> issued s' = issued s)
     \<and> (\<forall>s p. pe_Id p = [] \<longrightarrow> proper p \<longrightarrow>
          (if \<exists>i q. stored s i = Some q \<and> same_registration q p
           then \<exists>q s'. api_BatchCreateEntry api [p] fullOutputMask s
               = (Inr [\<lparr>er_Status = Some codes_AlreadyExists, er_Entry = Some q\<rparr>], s')
             \<and> stored s (pe_Id q) = Some q \<and> same_registration q p \<and> stored s' = stored s \<and> issued s' = issued s
           else \<exists>i s'. i \<noteq> [] \<and> text_ok i \<and> i \<notin> issued s \<and> api_BatchCreateEntry api [p] fullOutputMask s
               = (Inr [\<lparr>er_Status = Some codes_OK, er_Entry = Some (p\<lparr>pe_Id := i\<rparr>)\<rparr>], s')
             \<and> stored s' = (stored s)(i \<mapsto> p\<lparr>pe_Id := i\<rparr>) \<and> issued s' = insert i (issued s)))
     \<and> (\<forall>s p. stored s (pe_Id p) \<noteq> None \<longrightarrow> proper p \<longrightarrow>
          (\<exists>s'. api_BatchUpdateEntry api [p] update_input_mask fullOutputMask s
               = (Inr [\<lparr>er_Status = Some codes_OK, er_Entry = Some p\<rparr>], s')
             \<and> stored s' = (stored s)(pe_Id p \<mapsto> p) \<and> issued s' = issued s))
     \<and> (\<forall>s i. stored s i \<noteq> None \<longrightarrow>
          (\<exists>s'. api_BatchDeleteEntry api [i] s = (Inr [Some codes_OK], s')
             \<and> stored s' = (stored s)(i := None) \<and> issued s' = issued s))"

section \<open>Entries\<close>

lemma sendable_proper: "sendable d \<longleftrightarrow> (\<exists>p. toProtoEntry d = Inr p \<and> fromProtoEntry p = d \<and> proper p)"
  by (auto simp: sendable_def proper_def)

lemma proper_sendable: "proper p \<Longrightarrow> sendable (fromProtoEntry p)"
  by (auto simp: sendable_def proper_def)

lemma proper_iff:
  "proper p \<longleftrightarrow> (\<exists>w d. pe_SpiffeId p = Some w \<and> parseSPIFFEID (formatSPIFFEID (Some w)) = Inr w
     \<and> pe_ParentId p = Some d \<and> parseSPIFFEID (formatSPIFFEID (Some d)) = Inr d \<and> pe_Selectors p \<noteq> []
     \<and> parse_selectors (map (\<lambda>x. ps_Type x @ '':'' @ ps_Value x) (pe_Selectors p)) = Inr (pe_Selectors p))"
  by (cases p) (auto simp: proper_def toProtoEntry_Inr fromProtoEntry_def)

lemma proper_ID [simp]: "fromProtoEntry (p\<lparr>pe_Id := i\<rparr>) = (fromProtoEntry p)\<lparr>EntryID := i\<rparr>"
  by (simp add: fromProtoEntry_def)

lemma selector_strings:
  assumes "parse_selectors (map (\<lambda>x. ps_Type x @ '':'' @ ps_Value x) xs) = Inr xs"
    and "parse_selectors (map (\<lambda>x. ps_Type x @ '':'' @ ps_Value x) ys) = Inr ys"
  shows "mset (map (\<lambda>x. ps_Type x @ '':'' @ ps_Value x) xs) = mset (map (\<lambda>x. ps_Type x @ '':'' @ ps_Value x) ys)
     \<longleftrightarrow> mset xs = mset ys"
proof -
  let ?f = "\<lambda>x. ps_Type x @ '':'' @ ps_Value x" and ?g = "\<lambda>raw. projr (parseSelector raw)"
  have inverse: "image_mset ?g (mset (map ?f zs)) = mset zs" if "parse_selectors (map ?f zs) = Inr zs" for zs
  proof -
    have "\<forall>x \<in> set zs. parseSelector (?f x) = Inr x"
      using parse_selectors_Inr[OF that] by (auto simp: parseSelector_Inr)
    then have "map ?g (map ?f zs) = zs" by (simp add: map_idI)
    then show ?thesis by (metis mset_map)
  qed
  show ?thesis
  proof
    assume "mset (map ?f xs) = mset (map ?f ys)"
    then have "image_mset ?g (mset (map ?f xs)) = image_mset ?g (mset (map ?f ys))" by (rule arg_cong)
    then show "mset xs = mset ys" unfolding inverse[OF assms(1)] inverse[OF assms(2)] .
  next
    assume "mset xs = mset ys"
    then show "mset (map ?f xs) = mset (map ?f ys)" by (simp only: mset_map)
  qed
qed

lemma same_key_registration:
  assumes "proper q" "proper p"
  shows "same_key (fromProtoEntry q) (fromProtoEntry p) \<longleftrightarrow> same_registration q p"
proof -
  have "formatSPIFFEID (pe_SpiffeId q) = formatSPIFFEID (pe_SpiffeId p) \<longleftrightarrow> pe_SpiffeId q = pe_SpiffeId p"
    "formatSPIFFEID (pe_ParentId q) = formatSPIFFEID (pe_ParentId p) \<longleftrightarrow> pe_ParentId q = pe_ParentId p"
    using assms[unfolded proper_iff] by (metis Inr_inject)+
  moreover have "mset (map (\<lambda>x. ps_Type x @ '':'' @ ps_Value x) (pe_Selectors q)) = mset (map (\<lambda>x. ps_Type x @ '':'' @ ps_Value x) (pe_Selectors p))
      \<longleftrightarrow> mset (pe_Selectors q) = mset (pe_Selectors p)"
    using selector_strings assms[unfolded proper_iff] by blast
  ultimately show ?thesis by (simp add: same_key_def same_registration_def fromProtoEntry_def)
qed

section \<open>The client over the API\<close>

definition spire_entries :: "('sp \<Rightarrow> string \<Rightarrow> proto_entry option) \<Rightarrow> 'sp platform \<Rightarrow> string \<Rightarrow> Entry option" where
  "spire_entries stored w i = map_option fromProtoEntry (stored (pf_spire w) i)"

lemma spire_entries_update:
  "stored x = (stored (pf_spire w))(i := v) \<Longrightarrow> spire_entries stored (w\<lparr>pf_spire := x\<rparr>) = (spire_entries stored w)(i := map_option fromProtoEntry v)"
  by (auto simp: spire_entries_def fun_eq_iff)

lemma spire_entries_same [simp]:
  "stored x = stored (pf_spire w) \<Longrightarrow> spire_entries stored (w\<lparr>pf_spire := x\<rparr>) = spire_entries stored w"
  by (simp add: spire_entries_def fun_eq_iff)

lemma spire_entry:
  assumes "spire_works api stored issued" "spire_entries stored w i = Some e"
  shows "EntryID e = i \<and> i \<noteq> [] \<and> text_ok i \<and> i \<in> issued (pf_spire w) \<and> sendable e"
  using assms proper_sendable unfolding spire_works_def spire_entries_def by (fastforce simp: fromProtoEntry_def)

lemma client_get:
  assumes "spire_works api stored issued"
  shows "\<exists>x. grpc_GetEntry (lift_api api) i w
      = (case spire_entries stored w i of None \<Rightarrow> Inl SpireNotFound | Some e \<Rightarrow> Inr e, w\<lparr>pf_spire := x\<rparr>)
    \<and> stored x = stored (pf_spire w) \<and> issued x = issued (pf_spire w)"
proof -
  from assms obtain x where g: "api_GetEntry api i fullOutputMask (pf_spire w)
      = (case stored (pf_spire w) i of None \<Rightarrow> Inl (RpcStatus codes_NotFound) | Some p \<Rightarrow> Inr p, x)"
    "stored x = stored (pf_spire w)" "issued x = issued (pf_spire w)"
    unfolding spire_works_def by blast
  then show ?thesis
    by (intro exI[of _ x]) (auto simp: grpc_GetEntry_def lift_api_def on_spire_def action_defs
        status_Code_def spire_entries_def split: option.split)
qed

lemma client_delete:
  assumes "spire_works api stored issued" "spire_entries stored w i = Some e"
  shows "\<exists>x. grpc_DeleteEntry (lift_api api) i w = (Inr (), w\<lparr>pf_spire := x\<rparr>)
    \<and> stored x = (stored (pf_spire w))(i := None) \<and> issued x = issued (pf_spire w)"
proof -
  from assms(2) have "stored (pf_spire w) i \<noteq> None" by (auto simp: spire_entries_def)
  with assms(1) obtain x where "api_BatchDeleteEntry api [i] (pf_spire w) = (Inr [Some codes_OK], x)"
    "stored x = (stored (pf_spire w))(i := None)" "issued x = issued (pf_spire w)"
    unfolding spire_works_def by blast
  then show ?thesis
    by (intro exI[of _ x]) (auto simp: grpc_DeleteEntry_def lift_api_def on_spire_def action_defs
        codes_OK_def codes_NotFound_def)
qed

lemma client_update:
  assumes "spire_works api stored issued" "sendable e" "spire_entries stored w (EntryID e) = Some e0"
  shows "\<exists>x. grpc_UpdateEntry (lift_api api) e w = (Inr e, w\<lparr>pf_spire := x\<rparr>)
    \<and> spire_entries stored (w\<lparr>pf_spire := x\<rparr>) = (spire_entries stored w)(EntryID e \<mapsto> e) \<and> issued x = issued (pf_spire w)"
proof -
  from assms(2) obtain p where p: "toProtoEntry e = Inr p" "fromProtoEntry p = e" "proper p" by (auto simp: sendable_proper)
  then have i: "pe_Id p = EntryID e" by (auto simp: fromProtoEntry_def)
  with assms(3) have "stored (pf_spire w) (pe_Id p) \<noteq> None" by (auto simp: spire_entries_def)
  with assms(1) p(3) obtain x where x: "api_BatchUpdateEntry api [p] update_input_mask fullOutputMask (pf_spire w)
      = (Inr [\<lparr>er_Status = Some codes_OK, er_Entry = Some p\<rparr>], x)"
    "stored x = (stored (pf_spire w))(pe_Id p \<mapsto> p)" "issued x = issued (pf_spire w)"
    unfolding spire_works_def by blast
  have "EntryID e \<noteq> []" using spire_entry[OF assms(1,3)] by simp
  with x(1) p(1,2) have "grpc_UpdateEntry (lift_api api) e w = (Inr e, w\<lparr>pf_spire := x\<rparr>)"
    by (simp add: grpc_UpdateEntry_def lift_api_def on_spire_def action_defs single_result_def)
  then show ?thesis using spire_entries_update[where w = w, OF x(2)] x(3) i p(2) by auto
qed

lemma client_create:
  assumes "spire_works api stored issued" "sendable d" "EntryID d = []"
  shows "\<exists>r x. grpc_CreateEntry (lift_api api) d w = (Inr r, w\<lparr>pf_spire := x\<rparr>)
    \<and> (if \<exists>i e. spire_entries stored w i = Some e \<and> same_key e d
       then sc_Disposition r = CreateDispositionExisting \<and> stored x = stored (pf_spire w) \<and> issued x = issued (pf_spire w)
         \<and> spire_entries stored w (EntryID (sc_Entry r)) = Some (sc_Entry r) \<and> same_key (sc_Entry r) d
       else sc_Disposition r = CreateDispositionCreated
         \<and> (\<exists>i. i \<noteq> [] \<and> text_ok i \<and> i \<notin> issued (pf_spire w) \<and> issued x = insert i (issued (pf_spire w))
              \<and> sc_Entry r = d\<lparr>EntryID := i\<rparr>
              \<and> spire_entries stored (w\<lparr>pf_spire := x\<rparr>) = (spire_entries stored w)(i \<mapsto> d\<lparr>EntryID := i\<rparr>)))"
proof -
  from assms(2) obtain p where p: "toProtoEntry d = Inr p" "fromProtoEntry p = d" "proper p" by (auto simp: sendable_proper)
  then have i: "pe_Id p = []" using assms(3) by (auto simp: fromProtoEntry_def)
  have all: "proper q \<and> pe_Id q = i" if "stored (pf_spire w) i = Some q" for i q
    using assms(1) that unfolding spire_works_def by blast
  have key: "(\<exists>i e. spire_entries stored w i = Some e \<and> same_key e d)
      \<longleftrightarrow> (\<exists>i q. stored (pf_spire w) i = Some q \<and> same_registration q p)"
    using same_key_registration[OF _ p(3)] all p(2) by (fastforce simp: spire_entries_def)
  note law = assms(1)[unfolded spire_works_def, THEN conjunct2, THEN conjunct2, THEN conjunct1, rule_format, OF i p(3), of "pf_spire w"]
  show ?thesis
  proof (cases "\<exists>i q. stored (pf_spire w) i = Some q \<and> same_registration q p")
    case True
    with law obtain q x where x: "api_BatchCreateEntry api [p] fullOutputMask (pf_spire w)
        = (Inr [\<lparr>er_Status = Some codes_AlreadyExists, er_Entry = Some q\<rparr>], x)"
      "stored (pf_spire w) (pe_Id q) = Some q" "same_registration q p" "stored x = stored (pf_spire w)"
      "issued x = issued (pf_spire w)" by auto
    have "grpc_CreateEntry (lift_api api) d w
        = (Inr \<lparr>sc_Entry = fromProtoEntry q, sc_Disposition = CreateDispositionExisting\<rparr>, w\<lparr>pf_spire := x\<rparr>)"
      using x(1) p(1) by (simp add: grpc_CreateEntry_def lift_api_def on_spire_def action_defs
          single_result_def codes_OK_def codes_AlreadyExists_def)
    moreover have "EntryID (fromProtoEntry q) = pe_Id q" by (simp add: fromProtoEntry_def)
    moreover have "same_key (fromProtoEntry q) d" using same_key_registration[OF _ p(3), of q] all[OF x(2)] x(3) p(2) by simp
    ultimately show ?thesis unfolding key using True x
      by (intro exI[of _ "\<lparr>sc_Entry = fromProtoEntry q, sc_Disposition = CreateDispositionExisting\<rparr>"] exI[of _ x])
        (simp add: spire_entries_def)
  next
    case False
    with law obtain j x where x: "j \<noteq> []" "text_ok j" "j \<notin> issued (pf_spire w)" "api_BatchCreateEntry api [p] fullOutputMask (pf_spire w)
        = (Inr [\<lparr>er_Status = Some codes_OK, er_Entry = Some (p\<lparr>pe_Id := j\<rparr>)\<rparr>], x)"
      "stored x = (stored (pf_spire w))(j \<mapsto> p\<lparr>pe_Id := j\<rparr>)" "issued x = insert j (issued (pf_spire w))" by auto
    have "grpc_CreateEntry (lift_api api) d w
        = (Inr \<lparr>sc_Entry = d\<lparr>EntryID := j\<rparr>, sc_Disposition = CreateDispositionCreated\<rparr>, w\<lparr>pf_spire := x\<rparr>)"
      using x(4) p(1,2) by (simp add: grpc_CreateEntry_def lift_api_def on_spire_def action_defs
          single_result_def codes_OK_def)
    then show ?thesis unfolding key using False x spire_entries_update[where w = w, OF x(5)] p(2)
      by (intro exI[of _ "\<lparr>sc_Entry = d\<lparr>EntryID := j\<rparr>, sc_Disposition = CreateDispositionCreated\<rparr>"] exI[of _ x])
        (auto simp:)
  qed
qed

end
