(* ===== verification/Json_Text.thy ===== *)
theory Json_Text
  imports Database
begin

text \<open>
  What the program sends to PostgreSQL is text PostgreSQL accepts: a JSON text that \<open>json.Marshal\<close>
  writes is valid UTF-8 without NUL, whatever its strings hold, and so is a UUID as it is read back.
\<close>

section \<open>Texts\<close>

lemma segs_good_append:
  assumes "good_seg (r, bs)" "\<not> (r = rune_error \<and> length bs = 1)"
  shows "segs (bs @ s) = (r, bs) # segs s"
proof -
  from assms consider c where "bs = [c]" "byte c < 128" "r = byte c"
    | c t where "bs = c # t" "multibyte c t r (length t)"
    by (auto simp: good_seg_def)
  then show ?thesis
  proof cases
    case 1
    then show ?thesis by (simp add: decode_rune_ascii)
  next
    case 2
    then have "decode_rune c (t @ s) = (r, length t)" by (simp add: multibyte_def)
    with 2(1) show ?thesis by simp
  qed
qed

lemma segs_valid_append:
  assumes "\<forall>(r, bs) \<in> set xs. good_seg (r, bs) \<and> \<not> (r = rune_error \<and> length bs = 1)"
  shows "segs (concat (map snd xs) @ s) = xs @ segs s"
  using assms by (induction xs) (auto simp: segs_good_append)

lemma valid_utf8_append: "valid_utf8 s \<Longrightarrow> valid_utf8 (s @ t) \<longleftrightarrow> valid_utf8 t"
proof -
  assume v: "valid_utf8 s"
  then have "\<forall>(r, bs) \<in> set (segs s). good_seg (r, bs) \<and> \<not> (r = rune_error \<and> length bs = 1)"
    using segs_good by (auto simp: valid_utf8_def list_all_iff)
  from segs_valid_append[OF this, of t] v show ?thesis by (simp add: segs_join valid_utf8_def)
qed

lemma text_ok_append: "text_ok s \<Longrightarrow> text_ok t \<Longrightarrow> text_ok (s @ t)"
  by (simp add: text_ok_def valid_utf8_append)

lemma text_ok_ascii: "is_ascii s \<Longrightarrow> char_of (0::nat) \<notin> set s \<Longrightarrow> text_ok s"
  by (simp add: text_ok_def ascii_valid_utf8)

lemma text_ok_bytes: "\<forall>c \<in> set s. 0 < byte c \<and> byte c < 128 \<Longrightarrow> text_ok s"
  by (rule text_ok_ascii) (auto simp: is_ascii_def list_all_iff)

lemma text_ok_Nil [simp]: "text_ok []"
  by (simp add: text_ok_bytes)

lemma text_ok_concat: "\<forall>s \<in> set ss. text_ok s \<Longrightarrow> text_ok (concat ss)"
  by (induction ss) (simp_all add: text_ok_append)

lemma text_ok_comma_sep: "\<forall>s \<in> set ss. text_ok s \<Longrightarrow> text_ok (comma_sep ss)"
proof (induction ss rule: comma_sep.induct)
  case (3 x y ys)
  have "text_ok '',''" by code_simp
  with 3 show ?case using text_ok_append[of x "'','' @ comma_sep (y # ys)"] text_ok_append[of "'',''" "comma_sep (y # ys)"] by simp
qed simp_all

section \<open>Marshalled values\<close>

lemma byte_lower_hex: "n < 16 \<Longrightarrow> 0 < byte (lower_hex n) \<and> byte (lower_hex n) < 128"
  by (auto simp: lower_hex_def)

lemma text_ok_quote_seg:
  assumes "good_seg x"
  shows "text_ok (quote_seg x)"
proof -
  obtain r bs where x: "x = (r, bs)" by fastforce
  have esc: "text_ok [backsl, c]" if "0 < byte c" "byte c < 128" for c
    using that by (intro text_ok_bytes) (simp add: backsl_def)
  have u: "text_ok (u_escape n)" for n
    using byte_lower_hex by (intro text_ok_bytes) (simp add: u_escape_def backsl_def byte_def[of "CHR ''u''"])
  have raw: "text_ok bs" if "\<not> (r = rune_error \<and> length bs = 1)" "\<not> r < 32"
  proof -
    have "segs bs = [(r, bs)]" using segs_good_append[of r bs "[]"] assms that(1) x by simp
    then have "valid_utf8 bs" using that(1) by (simp add: valid_utf8_def)
    moreover have "char_of (0::nat) \<notin> set bs"
      using assms that(2) x byte_char_of[of 0] by (fastforce simp: good_seg_def multibyte_def simp del: byte_char_of)
    ultimately show ?thesis by (simp add: text_ok_def)
  qed
  show ?thesis unfolding x quote_seg_def
    by (auto simp: u raw intro!: esc) (simp_all add: backsl_def quote_def byte_def)
qed

lemma text_ok_quote_string: "text_ok (quote_string s)"
proof -
  have "text_ok [quote]" by code_simp
  moreover have "text_ok (concat (map quote_seg (segs s)))"
    by (intro text_ok_concat) (auto intro: text_ok_quote_seg segs_good)
  ultimately show ?thesis using text_ok_append[of "[quote]"] text_ok_append unfolding quote_string_def
    by (metis append_Cons append_Nil)
qed

lemma text_ok_int_text: "int_text n \<Longrightarrow> text_ok n"
  by (intro text_ok_bytes, cases n)
    (auto simp: int_text_def is_digit_def byte_in_def list_all_iff Let_def HasPrefix_def byte_def[of "CHR ''-''"] split: if_splits)

lemma text_ok_Marshal: "encodable d v \<Longrightarrow> text_ok (Marshal v)"
proof (induction v arbitrary: d)
  case JNull
  show ?case by code_simp
next
  case (JBool b)
  have "text_ok ''true''" "text_ok ''false''" by code_simp+
  then show ?case by simp
next
  case (JNum n)
  then show ?case by (simp add: text_ok_int_text)
next
  case (JStr s)
  show ?case by (simp add: text_ok_quote_string)
next
  case (JArr vs)
  have "text_ok ''[''" "text_ok '']''" by code_simp+
  moreover have "text_ok (comma_sep (map Marshal vs))" using JArr by (intro text_ok_comma_sep) auto
  ultimately show ?case using text_ok_append by (metis Marshal.simps(5))
next
  case (JObj ms)
  have p: "text_ok ''{''" "text_ok ''}''" "text_ok '':''" by code_simp+
  have "text_ok (quote_string k @ '':'' @ Marshal v)" if "(k, v) \<in> set ms" for k v
  proof -
    have "encodable (Suc d) v" using JObj.prems that by auto
    with JObj.IH[of "(k, v)" v] that have "text_ok (Marshal v)" by simp
    with p(3) show ?thesis by (intro text_ok_append text_ok_quote_string)
  qed
  then have "text_ok (comma_sep (map (\<lambda>(k, v). quote_string k @ '':'' @ Marshal v) ms))"
    by (intro text_ok_comma_sep) auto
  with p show ?case using text_ok_append by (metis Marshal.simps(6))
qed

text \<open>So a marshalled value is accepted as \<open>jsonb\<close> when its own strings are texts.\<close>

lemma jsonb_in_sent: "encodable 0 v \<Longrightarrow> json_text_ok (utf8_json v) \<Longrightarrow> jsonb_in (Marshal v) = Some (utf8_json v)"
  by (simp add: jsonb_in_Marshal text_ok_Marshal)

section \<open>UUIDs\<close>

lemma hex_groups_chars: "hex_groups n s = Some h \<Longrightarrow> \<forall>c \<in> set h. 0 < byte c \<and> byte c < 128"
proof (induction n arbitrary: s h)
  case 0
  then show ?case by (auto split: if_splits)
next
  case (Suc n)
  have hex: "0 < byte (ascii_lower c) \<and> byte (ascii_lower c) < 128" if "is_hex c" for c
    using that by (auto simp: is_hex_def is_digit_def byte_in_def ascii_lower_def is_upper_def)
  from Suc show ?case by (fastforce split: if_splits simp: list_all_iff hex dest: Suc.IH)
qed

lemma uuid_text:
  assumes "uuid_in s = Some i"
  shows "text_ok i" "i \<noteq> []"
proof -
  from assms obtain h b where h: "hex_groups 8 b = Some h" "i = uuid_dashes h"
    by (auto simp: uuid_in_def split: option.splits)
  then have "\<forall>c \<in> set i. 0 < byte c \<and> byte c < 128"
    using hex_groups_chars[OF h(1)] unfolding uuid_dashes_def
    by (auto dest!: in_set_takeD in_set_dropD simp: byte_def[of "CHR ''-''"])
  then show "text_ok i" by (rule text_ok_bytes)
  show "i \<noteq> []" by (simp add: h(2) uuid_dashes_def)
qed

text \<open>A stored UUID is its own text.\<close>

lemma hex_groups_digits: "hex_groups n s = Some h \<Longrightarrow> length h = 4 * n \<and> list_all is_hex h \<and> map ascii_lower h = h"
proof (induction n arbitrary: s h)
  case 0
  then show ?case by (auto split: if_splits)
next
  case (Suc n)
  have lower: "is_hex (ascii_lower c) \<and> ascii_lower (ascii_lower c) = ascii_lower c" if "is_hex c" for c
    using that by (auto simp: is_hex_def is_digit_def byte_in_def ascii_lower_def is_upper_def)
  from Suc.prems have four: "4 \<le> length s" "list_all is_hex (take 4 s)" by (auto split: if_splits)
  from Suc.prems obtain g r where g: "hex_groups n r = Some g" "h = map ascii_lower (take 4 s) @ g"
    by (auto split: if_splits)
  with Suc.IH[OF g(1)] four lower show ?case by (auto simp: list_all_iff)
qed

lemma uuid_in_stored:
  assumes "uuid_in s = Some i"
  shows "uuid_in i = Some i"
proof -
  from assms obtain b h where i: "i = uuid_dashes h" and h: "hex_groups 8 b = Some h" by (auto simp: uuid_in_def split: option.splits)
  from hex_groups_digits[OF h] have d: "length h = 32" "list_all is_hex h" "map ascii_lower h = h" by simp_all
  then obtain a0 a1 a2 a3 a4 a5 a6 a7 b0 b1 b2 b3 c0 c1 c2 c3 d0 d1 d2 d3 e0 e1 e2 e3 e4 e5 e6 e7 e8 e9 e10 e11 where
    h32: "h = [a0, a1, a2, a3, a4, a5, a6, a7, b0, b1, b2, b3, c0, c1, c2, c3, d0, d1, d2, d3, e0, e1, e2, e3, e4, e5, e6, e7, e8, e9, e10, e11]"
    by (auto simp: length_Suc_conv numeral_eq_Suc)
  have nd: "list_all (\<lambda>c. c \<noteq> CHR ''-'' \<and> c \<noteq> CHR ''{'') h" using d(2) hex_not_special unfolding list_all_iff by blast
  have "hex_groups (Suc (Suc (Suc (Suc (Suc (Suc (Suc (Suc 0)))))))) i = Some (map ascii_lower h)"
    using d(2) nd unfolding i h32 uuid_dashes_def by (simp add: hex_groups_step HasPrefix_def del: hex_groups.simps(2))
  moreover have "unbrace i = Some i" using nd by (simp add: unbrace_def i h32 uuid_dashes_def HasPrefix_def)
  moreover have "(8::nat) = Suc (Suc (Suc (Suc (Suc (Suc (Suc (Suc 0)))))))" by simp
  ultimately show ?thesis using d(3) i by (simp only: uuid_in_def) simp
qed

lemma text_ok_hex: "text_ok (hex_EncodeToString bytes)"
proof -
  have "byte y div 16 < 16" for y using byte_less[of y] by linarith
  then show ?thesis by (intro text_ok_bytes) (auto simp: hex_EncodeToString_def byte_lower_hex)
qed

end
