(* ===== verification/Platform_Works.thy ===== *)
theory Platform_Works
  imports Spire_Works Json_Text
begin

text \<open>
  The reconciler's service on the platform is a working service, as \<open>Reconcile_Settles\<close> asks for:
  over a database that serves the next statements, a SPIRE server that works, and tables whose
  bindings are the rules' own.
\<close>

section \<open>A database that serves\<close>

text \<open>The next \<open>k\<close> statements go through, and the UUIDs drawn for them are new.\<close>

definition serves :: "pg \<Rightarrow> nat \<Rightarrow> db \<Rightarrow> bool" where
  "serves pg k s \<longleftrightarrow> (\<forall>n \<in> {tick s..<tick s + k}. \<not> pg_fault pg n \<and> pg_commit pg n = Committed)
     \<and> distinct (map ae_id (audit_events (tables s)) @ map (pg_uuid pg) [tick s..<tick s + k])"

lemma serves_Suc:
  "serves pg (Suc k) s \<longleftrightarrow> (\<forall>n \<in> {tick s..<Suc (tick s + k)}. \<not> pg_fault pg n \<and> pg_commit pg n = Committed)
     \<and> distinct (map ae_id (audit_events (tables s)) @ pg_uuid pg (tick s) # map (pg_uuid pg) [Suc (tick s)..<Suc (tick s + k)])"
proof -
  have "[tick s..<Suc (tick s + k)] = tick s # [Suc (tick s)..<Suc (tick s + k)]" by (simp add: upt_rec)
  then show ?thesis unfolding serves_def by (simp del: upt_Suc)
qed

lemma serves_now: "serves pg (Suc k) s \<Longrightarrow> \<not> pg_fault pg (tick s) \<and> pg_commit pg (tick s) = Committed
   \<and> distinct (map ae_id (audit_events (tables s)) @ [pg_uuid pg (tick s)])"
  by (auto simp: serves_Suc simp del: upt_Suc)

lemma serves_next:
  assumes "serves pg (Suc k) s" "tick s' = Suc (tick s)"
    and "map ae_id (audit_events (tables s')) = map ae_id (audit_events (tables s)) @ ids" "ids = [] \<or> ids = [pg_uuid pg (tick s)]"
  shows "serves pg k s'"
  using assms(4)
proof
  assume "ids = []"
  then show ?thesis using assms(1-3) unfolding serves_Suc by (simp add: serves_def del: upt_Suc)
next
  assume "ids = [pg_uuid pg (tick s)]"
  then show ?thesis using assms(1-3) unfolding serves_Suc by (auto simp: serves_def simp del: upt_Suc)
qed

lemma serves_less: "serves pg k s \<Longrightarrow> j \<le> k \<Longrightarrow> serves pg j s"
  unfolding serves_def by (auto simp: distinct_map intro: inj_on_subset)

text \<open>What the columns' types say of a row: UUIDs in PostgreSQL's form, a \<open>bigint\<close>, texts.\<close>

definition typed :: "rule_row \<Rightarrow> bool" where
  "typed r \<longleftrightarrow> uuid_in (rr_id r) = Some (rr_id r) \<and> uuid_in (rr_org r) = Some (rr_org r) \<and> in_int64 (rr_revision r)
     \<and> (\<forall>i. rr_entry r = Some i \<longrightarrow> text_ok i)"

section \<open>The state of a pass\<close>

text \<open>
  The tables hold the rules \<open>rows\<close> over the workloads \<open>wls\<close>; each entry a rule is bound to was
  issued by SPIRE and is the rule's own if SPIRE still has it; the entries in \<open>gone\<close> are deleted.
\<close>

definition bound_own :: "('sp \<Rightarrow> string \<Rightarrow> proto_entry option) \<Rightarrow> ('sp \<Rightarrow> string set) \<Rightarrow> rule_row list \<Rightarrow> 'sp platform \<Rightarrow> bool" where
  "bound_own stored issued rows w \<longleftrightarrow> (\<forall>r \<in> set rows. \<forall>i. rr_entry r = Some i \<longrightarrow> i \<in> issued (pf_spire w)
     \<and> (\<forall>e. spire_entries stored w i = Some e \<longrightarrow> ownedByRule e (rr_id r)))"

definition deleted :: "('sp \<Rightarrow> string \<Rightarrow> proto_entry option) \<Rightarrow> ('sp \<Rightarrow> string set) \<Rightarrow> string set \<Rightarrow> 'sp platform \<Rightarrow> bool" where
  "deleted stored issued gone w \<longleftrightarrow> (\<forall>i \<in> gone. i \<in> issued (pf_spire w) \<and> spire_entries stored w i = None)"

definition steady :: "pg \<Rightarrow> ('sp \<Rightarrow> string \<Rightarrow> proto_entry option) \<Rightarrow> ('sp \<Rightarrow> string set) \<Rightarrow> workload_row list \<Rightarrow> rule_row list
    \<Rightarrow> string set \<Rightarrow> nat \<Rightarrow> 'sp platform \<Rightarrow> bool" where
  "steady pg stored issued wls rows gone k w \<longleftrightarrow> serves pg k (pf_db w) \<and> schema_ok (tables (pf_db w))
     \<and> workloads (tables (pf_db w)) = wls \<and> registration_rules (tables (pf_db w)) = rows \<and> list_all typed rows
     \<and> bound_own stored issued rows w \<and> deleted stored issued gone w"

text \<open>A rule as the pass was given it, when its row has not changed since.\<close>

definition same_rule :: "rule_row \<Rightarrow> Rule \<Rightarrow> bool" where
  "same_rule r rule \<longleftrightarrow> rr_id r = RuleID rule \<and> rr_org r = RuleOrganizationID rule
     \<and> rr_entry r = SPIREEntryID rule \<and> rr_status r = ReconcileStatus rule"

lemma steady_row:
  assumes "steady pg stored issued wls rows gone k w" "r \<in> set rows"
  shows "typed r" "rr_org r \<in> set (organizations (tables (pf_db w)))"
  using assms by (auto simp: steady_def list_all_iff schema_ok_def rule_fks_def)

section \<open>The audit event\<close>

lemma encodable_reconcile_metadata [simp]: "encodable 0 (reconcile_metadata operation i)"
  by (auto simp: reconcile_metadata_def maxNestingDepth_def intro!: encodable_json_map)

lemma reconcile_metadata_text:
  assumes "text_ok operation" "text_ok i"
  shows "json_text_ok (utf8_json (reconcile_metadata operation i))"
proof -
  have "text_ok ''operation''" "text_ok ''spire_entry_id''" by code_simp+
  with assms show ?thesis
    by (auto simp: reconcile_metadata_def json_map_def text_ok_def coerce_valid)
qed

lemma audit_succeeds:
  assumes "serves pg (Suc k) s" "text_ok operation" "text_ok i" "text_ok cid" "cid \<noteq> []"
    and "uuid_in (RuleOrganizationID rule) = Some (RuleOrganizationID rule)"
    and "RuleOrganizationID rule \<in> set (organizations (tables s))" "text_ok (RuleID rule)" "RuleID rule \<noteq> []"
  shows "\<exists>ev row s'. Append (pool_queryer pg) (reconcile_event rule cid operation i) s = (Inr ev, s')
    \<and> logged (tables s) row (tables s') \<and> serves pg k s'"
proof -
  let ?ev = "reconcile_event rule cid operation i" and ?m = "reconcile_metadata operation i" and ?n = "tick s"
  have meta: "Marshal ?m \<noteq> []" by (simp add: reconcile_metadata_def)
  note json = jsonb_in_sent[OF encodable_reconcile_metadata reconcile_metadata_text[OF assms(2,3)]]
  define row where "row = \<lparr>ae_id = pg_uuid pg ?n, ae_org = Some (RuleOrganizationID rule), ae_actor_type = ''system'',
    ae_actor_id = ''spire-reconciler'', ae_action = ''spire.registration_reconcile'', ae_target_type = ''registration_rule'',
    ae_target_id = RuleID rule, ae_correlation = cid, ae_metadata = utf8_json ?m, ae_created = pg_now pg ?n\<rparr>"
  have row: "event_row ?ev (pg_uuid pg ?n) (pg_now pg ?n) = Some row"
    using assms(6) json by (simp add: event_row_def organization_in_def reconcile_event_def row_def)
  have "text_ok ''system''" "text_ok ''spire-reconciler''" "text_ok ''spire.registration_reconcile''" "text_ok ''registration_rule''"
    by code_simp+
  then have texts: "list_all text_ok (event_texts ?ev)" using assms(4,8) by (simp add: event_texts_def reconcile_event_def)
  note now = serves_now[OF assms(1)]
  define t where "t = with_event (tables s) row"
  have ins: "insert_audit row (tables s) = Inr t"
  proof -
    have "audit_checks row" by (simp add: audit_checks_def row_def reconcile_metadata_def json_map_def)
    moreover have "distinct (map ae_id (audit_events (tables s) @ [row]))" using now by (simp add: row_def)
    moreover have "audit_fks (tables s) row" using assms(7) by (simp add: audit_fks_def row_def)
    ultimately show ?thesis by (simp add: insert_audit_Inr t_def with_event_def)
  qed
  let ?s = "\<lparr>tables = t, tick = Suc ?n, started = pg_now pg ?n\<rparr>"
  have "pool_queryer pg ?ev s = (Inr (pg_uuid pg ?n, pg_now pg ?n), ?s)"
    using now texts row ins by (simp add: pool_queryer_def pool_stmt_Inr sql_insert_audit_event_def)
  moreover have "\<not> missing_attribution ?ev" using assms(5,9) by (simp add: missing_attribution_def reconcile_event_def)
  moreover have "default_metadata ?ev = ?ev" using meta by (simp add: default_metadata_def reconcile_event_def)
  moreover have "Valid (Metadata ?ev)" by (simp add: reconcile_event_def Marshal_Valid)
  ultimately have "\<exists>ev. Append (pool_queryer pg) ?ev s = (Inr ev, ?s)" unfolding Append_def by simp
  moreover have "serves pg k ?s" by (rule serves_next[OF assms(1), where ids = "[pg_uuid pg ?n]"]) (simp_all add: t_def row_def)
  moreover have "logged (tables s) row (tables ?s)" using ins by (simp add: logged_def)
  ultimately show ?thesis by blast
qed

section \<open>The mark\<close>

lemma converged_row_sel [simp]:
  "rr_id (converged_row b now r) = rr_id r" "rr_org (converged_row b now r) = rr_org r"
  "rr_workload (converged_row b now r) = rr_workload r" "rr_revision (converged_row b now r) = rr_revision r"
  "rr_entry (converged_row b now r) = b" "rr_status (converged_row b now r) = ''converged''"
  "rr_selectors (converged_row b now r) = rr_selectors r" "rr_desired (converged_row b now r) = rr_desired r"
  "rr_parent (converged_row b now r) = rr_parent r" "rr_ttl (converged_row b now r) = rr_ttl r"
  by (simp_all add: converged_row_def)

definition mark_rows :: "string \<Rightarrow> string option \<Rightarrow> int \<Rightarrow> rule_row list \<Rightarrow> rule_row list" where
  "mark_rows i b now = update_rows (\<lambda>r. rr_id r = i) (converged_row b now)"

lemma entry_ids_mem: "j \<in> set (entry_ids rows) \<longleftrightarrow> (\<exists>r \<in> set rows. rr_entry r = Some j)"
  by (force simp: entry_ids_def)

lemma entry_ids_Cons: "entry_ids (r # rows) = (case rr_entry r of None \<Rightarrow> [] | Some i \<Rightarrow> [i]) @ entry_ids rows"
  by (auto simp: entry_ids_def split: option.split)

lemma mark_rows_Cons: "mark_rows i b now (r # rows) = (if rr_id r = i then converged_row b now r else r) # mark_rows i b now rows"
  by (simp add: mark_rows_def update_rows_def)

lemma mark_rows_mem: "x \<in> set (mark_rows i b now rows) \<longleftrightarrow> (\<exists>r \<in> set rows. x = (if rr_id r = i then converged_row b now r else r))"
  unfolding mark_rows_def update_rows_def set_map image_iff by (rule refl)

lemma typed_marked: "typed r \<Longrightarrow> (\<And>i. b = Some i \<Longrightarrow> text_ok i) \<Longrightarrow> typed (if c then converged_row b now r else r)"
  by (simp add: typed_def)

lemma mark_rows_keys [simp]:
  "map rr_id (mark_rows i b now rows) = map rr_id rows" "map rr_workload (mark_rows i b now rows) = map rr_workload rows"
  by (simp_all add: mark_rows_def)

lemma entry_ids_marked:
  assumes "distinct (map rr_id rows)" "distinct (entry_ids rows)"
    and "\<And>r j. r \<in> set rows \<Longrightarrow> rr_entry r = Some j \<Longrightarrow> b = Some j \<Longrightarrow> rr_id r = i"
  shows "distinct (entry_ids (mark_rows i b now rows))"
  using assms
proof (induction rows)
  case (Cons r rows)
  let ?up = "mark_rows i b now"
  have IH: "distinct (entry_ids (?up rows))" using Cons by (simp add: entry_ids_Cons split: option.splits)
  show ?case
  proof (cases "rr_id r = i")
    case True
    with Cons.prems(1) have other: "rr_id x \<noteq> i" if "x \<in> set rows" for x
      using imageI[OF that, of rr_id] by auto
    then have rest: "?up rows = rows" by (auto simp: mark_rows_def update_rows_def intro: map_idI)
    have "j \<notin> set (entry_ids rows)" if "b = Some j" for j
      using other Cons.prems(3) that unfolding entry_ids_mem by (metis list.set_intros(2))
    with True rest IH show ?thesis by (simp add: mark_rows_Cons entry_ids_Cons split: option.split)
  next
    case False
    have "j \<notin> set (entry_ids (?up rows))" if j: "rr_entry r = Some j" for j
    proof
      assume "j \<in> set (entry_ids (?up rows))"
      then obtain x where "x \<in> set rows" "rr_entry (if rr_id x = i then converged_row b now x else x) = Some j"
        by (auto simp: entry_ids_mem mark_rows_mem)
      then have "b = Some j \<or> j \<in> set (entry_ids rows)"
        unfolding entry_ids_mem by (auto simp: converged_row_def split: if_splits)
      moreover have "j \<notin> set (entry_ids rows)" using Cons.prems(2) j by (simp add: entry_ids_def)
      moreover have "b \<noteq> Some j" using Cons.prems(3)[of r j] j False by auto
      ultimately show False by blast
    qed
    with False IH show ?thesis by (simp add: mark_rows_Cons entry_ids_Cons split: option.split)
  qed
qed (simp add: entry_ids_def mark_rows_def)

lemma mark_succeeds:
  assumes st: "steady pg stored issued wls rows gone (Suc k) w" and r: "r \<in> set rows"
    and b: "\<And>j. b = Some j \<Longrightarrow> \<exists>e. spire_entries stored w j = Some e \<and> ownedByRule e (rr_id r)"
    and names: "\<And>j e. spire_entries stored w j = Some e \<Longrightarrow> text_ok j \<and> j \<in> issued (pf_spire w)"
  shows "\<exists>w'. on_db (reg_MarkConverged pg (rr_id r) b) w = (Inr (), w') \<and> pf_spire w' = pf_spire w
    \<and> steady pg stored issued wls (mark_rows (rr_id r) b (pg_now pg (tick (pf_db w))) rows) gone k w'"
proof -
  let ?s = "pf_db w" and ?now = "pg_now pg (tick (pf_db w))"
  let ?t = "tables ?s" and ?rows = "mark_rows (rr_id r) b ?now rows" and ?q = "\<lambda>x. rr_id x = rr_id r"
  have rows: "registration_rules ?t = rows" and schema: "schema_ok ?t" and sv: "serves pg (Suc k) ?s"
    and own: "bound_own stored issued rows w" and del: "deleted stored issued gone w" and wls: "workloads ?t = wls"
    and ty: "list_all typed rows"
    using st by (simp_all add: steady_def)
  have uniq: "distinct (map rr_id rows)" "distinct (map rr_workload rows)" "distinct (entry_ids rows)"
    using schema rows by (simp_all add: schema_ok_def rule_uniques_def)
  have "rr_id x = rr_id r" if "x \<in> set rows" "rr_entry x = Some j" "b = Some j" for x j
  proof -
    from b[OF that(3)] obtain e where e: "spire_entries stored w j = Some e" "ownedByRule e (rr_id r)" by blast
    with own that(1,2) have "ownedByRule e (rr_id x)" by (auto simp: bound_own_def)
    with e(2) show ?thesis by (simp add: ownedByRule_def)
  qed
  from entry_ids_marked[OF uniq(1,3) this] have "rule_uniques ?rows" using uniq by (simp add: rule_uniques_def)
  moreover have "in_int64 (rr_revision x) \<and> rule_checks (converged_row b ?now x) \<and> rule_fks ?t (converged_row b ?now x)"
    if "x \<in> set rows" for x
    using that schema rows ty by (auto simp: schema_ok_def list_all_iff rule_checks_def rule_fks_def typed_def)
  ultimately have up: "update_rules ?q (converged_row b ?now) ?t = Inr (?t\<lparr>registration_rules := ?rows\<rparr>)"
    unfolding update_rules_Inr rows by (auto simp: mark_rows_def list_all_iff)
  have "find ?q rows \<noteq> None" using r by (auto simp: find_None_iff_set)
  then obtain y where y: "find ?q rows = Some y" by auto
  have tx: "\<not> (case b of None \<Rightarrow> False | Some e \<Rightarrow> \<not> text_ok e)" using b names by (auto split: option.split)
  have "uuid_in (rr_id r) = Some (rr_id r)" using ty r by (simp add: typed_def list_all_iff)
  with tx up y have "sql_mark_converged (rr_id r) b u ?now ?t = Inr (rr_id y, ?t\<lparr>registration_rules := ?rows\<rparr>)" for u
    by (simp add: sql_mark_converged_def returning_id_Inr rows)
  then have run: "reg_MarkConverged pg (rr_id r) b ?s = (Inr (), \<lparr>tables = ?t\<lparr>registration_rules := ?rows\<rparr>, tick = Suc (tick ?s), started = ?now\<rparr>)"
    (is "_ = (_, ?s')")
    using serves_now[OF sv] by (simp add: reg_MarkConverged_def pool_stmt_Inr)
  let ?w = "w\<lparr>pf_db := ?s'\<rparr>"
  have m: "on_db (reg_MarkConverged pg (rr_id r) b) w = (Inr (), ?w)" by (simp add: on_db_def run)
  have "serves pg k ?s'" by (rule serves_next[OF sv, where ids = "[]"]) simp_all
  moreover have "schema_ok (tables ?s')" using schema_marked(1)[OF schema, of pg "rr_id r" b] run by simp
  moreover have "typed (if c then converged_row b ?now x else x)" if "x \<in> set rows" for c x
    by (rule typed_marked) (use ty tx that in \<open>auto simp: list_all_iff\<close>)
  then have "list_all typed ?rows" by (auto simp: list_all_iff mark_rows_mem)
  moreover have "bound_own stored issued ?rows ?w"
    using own b names unfolding bound_own_def by (fastforce simp: mark_rows_mem spire_entries_def split: if_splits)
  moreover have "deleted stored issued gone ?w" using del by (simp add: deleted_def spire_entries_def)
  ultimately have "steady pg stored issued wls ?rows gone k ?w" using wls by (simp add: steady_def)
  with m show ?thesis by (metis platform.select_convs(2) platform.surjective platform.update_convs(1))
qed

section \<open>The interface\<close>

text \<open>A call to SPIRE that leaves the owners of the entries it had issued alone.\<close>

lemma steady_spire:
  assumes "steady pg stored issued wls rows gone k w" "issued (pf_spire w) \<subseteq> issued x"
    and "\<And>i e. i \<in> issued (pf_spire w) \<Longrightarrow> spire_entries stored (w\<lparr>pf_spire := x\<rparr>) i = Some e
      \<Longrightarrow> \<exists>e0. spire_entries stored w i = Some e0 \<and> EntryHint e0 = EntryHint e"
  shows "steady pg stored issued wls rows gone k (w\<lparr>pf_spire := x\<rparr>)"
proof -
  let ?w = "w\<lparr>pf_spire := x\<rparr>"
  have own: "bound_own stored issued rows w" and del: "deleted stored issued gone w" using assms(1) by (simp_all add: steady_def)
  have "bound_own stored issued rows ?w" unfolding bound_own_def
  proof (intro ballI allI impI conjI)
    fix r i assume r: "r \<in> set rows" "rr_entry r = Some i"
    with own have i: "i \<in> issued (pf_spire w)" and o: "\<And>e0. spire_entries stored w i = Some e0 \<Longrightarrow> ownedByRule e0 (rr_id r)"
      by (auto simp: bound_own_def)
    from i assms(2) show "i \<in> issued (pf_spire ?w)" by auto
    show "ownedByRule e (rr_id r)" if "spire_entries stored ?w i = Some e" for e
      using assms(3)[OF i that] o by (auto simp: ownedByRule_def)
  qed
  moreover have "deleted stored issued gone ?w" unfolding deleted_def
  proof (intro ballI conjI)
    fix i assume "i \<in> gone"
    with del have i: "i \<in> issued (pf_spire w)" "spire_entries stored w i = None" by (auto simp: deleted_def)
    from i(1) assms(2) show "i \<in> issued (pf_spire ?w)" by auto
    show "spire_entries stored ?w i = None"
      using assms(3)[OF i(1)] i(2) by (cases "spire_entries stored ?w i") auto
  qed
  ultimately show ?thesis using assms(1) by (simp add: steady_def)
qed

definition prepared :: "pg \<Rightarrow> 'sp entry_api \<Rightarrow> ('sp \<Rightarrow> string \<Rightarrow> proto_entry option) \<Rightarrow> ('sp \<Rightarrow> string set) \<Rightarrow> workload_row list
    \<Rightarrow> rule_row list \<Rightarrow> string set \<Rightarrow> Rule \<Rightarrow> string \<Rightarrow> nat \<Rightarrow> 'sp platform \<Rightarrow> bool" where
  "prepared pg api stored issued wls rows gone rule cid k w \<longleftrightarrow> spire_works api stored issued \<and> text_ok cid \<and> cid \<noteq> []
     \<and> (\<exists>r \<in> set rows. same_rule r rule) \<and> steady pg stored issued wls rows gone k w"

lemma platform_service_calls [simp]:
  "store_MarkConverged (svc_rules (platform_service out pg api)) i b = on_db (reg_MarkConverged pg i b)"
  "svc_audit (platform_service out pg api) ev = on_db (Append (pool_queryer pg) ev)"
  "GetEntry (svc_spire (platform_service out pg api)) i = grpc_GetEntry (lift_api api) i"
  "CreateEntry (svc_spire (platform_service out pg api)) e = grpc_CreateEntry (lift_api api) e"
  "UpdateEntry (svc_spire (platform_service out pg api)) e = grpc_UpdateEntry (lift_api api) e"
  "DeleteEntry (svc_spire (platform_service out pg api)) i = grpc_DeleteEntry (lift_api api) i"
  by (simp_all add: platform_service_def db_store_def grpc_client_def)

lemma prepared_audits:
  assumes "prepared pg api stored issued wls rows gone rule cid (Suc k) w" "text_ok operation" "text_ok i"
  shows "\<exists>ev w'. on_db (Append (pool_queryer pg) (reconcile_event rule cid operation i)) w = (Inr ev, w')
    \<and> pf_spire w' = pf_spire w \<and> prepared pg api stored issued wls rows gone rule cid k w'"
proof -
  from assms(1) obtain r where st: "steady pg stored issued wls rows gone (Suc k) w" and r: "r \<in> set rows" "same_rule r rule"
    and cid: "text_ok cid" "cid \<noteq> []" by (auto simp: prepared_def)
  have "typed r" and org: "RuleOrganizationID rule \<in> set (organizations (tables (pf_db w)))"
    using steady_row[OF st r(1)] r(2) by (simp_all add: same_rule_def)
  then have uu: "uuid_in (RuleID rule) = Some (RuleID rule)" "uuid_in (RuleOrganizationID rule) = Some (RuleOrganizationID rule)"
    using r(2) by (simp_all add: typed_def same_rule_def)
  have "serves pg (Suc k) (pf_db w)" using st by (simp add: steady_def)
  from audit_succeeds[OF this assms(2,3) cid uu(2) org uuid_text[OF uu(1)]] obtain ev row s' where
    a: "Append (pool_queryer pg) (reconcile_event rule cid operation i) (pf_db w) = (Inr ev, s')"
    "logged (tables (pf_db w)) row (tables s')" "serves pg k s'" by blast
  have t': "tables s' = with_event (tables (pf_db w)) row" using logged_with_event[OF a(2)] by simp
  have "schema_ok (tables s')" using st schema_logged[OF _ a(2)] by (simp add: steady_def)
  then have "steady pg stored issued wls rows gone k (w\<lparr>pf_db := s'\<rparr>)"
    using st a(3) by (simp add: steady_def t' bound_own_def deleted_def spire_entries_def)
  then show ?thesis using assms(1) a(1)
    by (intro exI[of _ ev] exI[of _ "w\<lparr>pf_db := s'\<rparr>"]) (simp add: prepared_def on_db_def)
qed

text \<open>What the state of SPIRE becomes in a call that keeps the interface's condition.\<close>

lemma prepared_spire:
  assumes "prepared pg api stored issued wls rows gone rule cid k w" "issued (pf_spire w) \<subseteq> issued x"
    and "\<And>i e. i \<in> issued (pf_spire w) \<Longrightarrow> spire_entries stored (w\<lparr>pf_spire := x\<rparr>) i = Some e
      \<Longrightarrow> \<exists>e0. spire_entries stored w i = Some e0 \<and> EntryHint e0 = EntryHint e"
  shows "prepared pg api stored issued wls rows gone rule cid k (w\<lparr>pf_spire := x\<rparr>)"
  using assms(1) steady_spire[of pg stored issued wls rows gone k w x] assms(2,3) by (auto simp: prepared_def)

text \<open>The laws of the interface, call by call.\<close>

lemma prepared_works: "prepared pg api stored issued wls rows gone rule cid k w \<Longrightarrow> spire_works api stored issued"
  by (simp add: prepared_def)

lemma prepared_marks:
  assumes "prepared pg api stored issued wls rows gone rule cid (Suc k) w"
    and "\<forall>i. b = Some i \<longrightarrow> (\<exists>e. spire_entries stored w i = Some e \<and> ownedByRule e (RuleID rule))"
  shows "\<exists>w'. on_db (reg_MarkConverged pg (RuleID rule) b) w = (Inr (), w') \<and> pf_spire w' = pf_spire w
    \<and> steady pg stored issued wls (mark_rows (RuleID rule) b (pg_now pg (tick (pf_db w))) rows) gone k w'"
proof -
  from assms(1) obtain r where r: "r \<in> set rows" "rr_id r = RuleID rule" and st: "steady pg stored issued wls rows gone (Suc k) w"
    by (auto simp: prepared_def same_rule_def)
  from mark_succeeds[OF st r(1), of b] assms(2) r(2) spire_entry[OF prepared_works[OF assms(1)]] show ?thesis by fastforce
qed

lemma prepared_gets:
  assumes w: "prepared pg api stored issued wls rows gone rule cid k w"
  shows "\<exists>w'. grpc_GetEntry (lift_api api) i w = (case spire_entries stored w i of None \<Rightarrow> Inl SpireNotFound | Some e \<Rightarrow> Inr e, w')
    \<and> spire_entries stored w' = spire_entries stored w \<and> prepared pg api stored issued wls rows gone rule cid k w'"
proof -
  from client_get[OF prepared_works[OF w], of i w] obtain x where
    g: "grpc_GetEntry (lift_api api) i w = (case spire_entries stored w i of None \<Rightarrow> Inl SpireNotFound | Some e \<Rightarrow> Inr e, w\<lparr>pf_spire := x\<rparr>)"
    "stored x = stored (pf_spire w)" "issued x = issued (pf_spire w)" by blast
  then have "prepared pg api stored issued wls rows gone rule cid k (w\<lparr>pf_spire := x\<rparr>)" by (intro prepared_spire[OF w]) auto
  with g show ?thesis by (intro exI[of _ "w\<lparr>pf_spire := x\<rparr>"]) simp
qed

lemma prepared_updates:
  assumes w: "prepared pg api stored issued wls rows gone rule cid k w" and e: "sendable e" "ownedByRule e (RuleID rule)"
    and e0: "spire_entries stored w (EntryID e) = Some e0" "ownedByRule e0 (RuleID rule)"
  shows "\<exists>w'. grpc_UpdateEntry (lift_api api) e w = (Inr e, w')
    \<and> spire_entries stored w' = (spire_entries stored w)(EntryID e \<mapsto> e) \<and> prepared pg api stored issued wls rows gone rule cid k w'"
proof -
  from client_update[OF prepared_works[OF w] e(1) e0(1)] obtain x where
    u: "grpc_UpdateEntry (lift_api api) e w = (Inr e, w\<lparr>pf_spire := x\<rparr>)"
    "spire_entries stored (w\<lparr>pf_spire := x\<rparr>) = (spire_entries stored w)(EntryID e \<mapsto> e)" "issued x = issued (pf_spire w)" by blast
  have "prepared pg api stored issued wls rows gone rule cid k (w\<lparr>pf_spire := x\<rparr>)"
    by (rule prepared_spire[OF w]) (use u e(2) e0 in \<open>auto simp: ownedByRule_def split: if_splits\<close>)
  with u show ?thesis by (intro exI[of _ "w\<lparr>pf_spire := x\<rparr>"]) simp
qed

lemma prepared_deletes:
  assumes w: "prepared pg api stored issued wls rows gone rule cid k w" and e0: "spire_entries stored w i = Some e0"
  shows "\<exists>w'. grpc_DeleteEntry (lift_api api) i w = (Inr (), w')
    \<and> spire_entries stored w' = (spire_entries stored w)(i := None) \<and> prepared pg api stored issued wls rows gone rule cid k w'"
proof -
  from client_delete[OF prepared_works[OF w] e0] obtain x where
    d: "grpc_DeleteEntry (lift_api api) i w = (Inr (), w\<lparr>pf_spire := x\<rparr>)"
    "stored x = (stored (pf_spire w))(i := None)" "issued x = issued (pf_spire w)" by blast
  have h: "spire_entries stored (w\<lparr>pf_spire := x\<rparr>) = (spire_entries stored w)(i := None)"
    using spire_entries_update[where w = w, OF d(2)] by simp
  have "prepared pg api stored issued wls rows gone rule cid k (w\<lparr>pf_spire := x\<rparr>)"
    by (rule prepared_spire[OF w]) (use d(3) h in \<open>auto split: if_splits\<close>)
  with d(1) h show ?thesis by (intro exI[of _ "w\<lparr>pf_spire := x\<rparr>"]) simp
qed

lemma prepared_creates:
  assumes w: "prepared pg api stored issued wls rows gone rule cid k w" and d: "sendable d" "EntryID d = []"
  shows "\<exists>r w'. grpc_CreateEntry (lift_api api) d w = (Inr r, w') \<and> prepared pg api stored issued wls rows gone rule cid k w' \<and>
    (if \<exists>i e. spire_entries stored w i = Some e \<and> same_key e d
     then sc_Disposition r = CreateDispositionExisting \<and> spire_entries stored w' = spire_entries stored w
       \<and> spire_entries stored w (EntryID (sc_Entry r)) = Some (sc_Entry r) \<and> same_key (sc_Entry r) d
     else sc_Disposition r = CreateDispositionCreated
       \<and> (\<exists>i. i \<noteq> [] \<and> spire_entries stored w i = None \<and> sc_Entry r = d\<lparr>EntryID := i\<rparr>
            \<and> spire_entries stored w' = (spire_entries stored w)(i \<mapsto> d\<lparr>EntryID := i\<rparr>)))"
proof -
  from client_create[OF prepared_works[OF w] d, of w] obtain r x where
    c: "grpc_CreateEntry (lift_api api) d w = (Inr r, w\<lparr>pf_spire := x\<rparr>)" and
    law: "if \<exists>i e. spire_entries stored w i = Some e \<and> same_key e d
     then sc_Disposition r = CreateDispositionExisting \<and> stored x = stored (pf_spire w) \<and> issued x = issued (pf_spire w)
       \<and> spire_entries stored w (EntryID (sc_Entry r)) = Some (sc_Entry r) \<and> same_key (sc_Entry r) d
     else sc_Disposition r = CreateDispositionCreated
       \<and> (\<exists>i. i \<noteq> [] \<and> text_ok i \<and> i \<notin> issued (pf_spire w) \<and> issued x = insert i (issued (pf_spire w))
            \<and> sc_Entry r = d\<lparr>EntryID := i\<rparr>
            \<and> spire_entries stored (w\<lparr>pf_spire := x\<rparr>) = (spire_entries stored w)(i \<mapsto> d\<lparr>EntryID := i\<rparr>))" by blast
  show ?thesis
  proof (cases "\<exists>i e. spire_entries stored w i = Some e \<and> same_key e d")
    case True
    with law have l: "sc_Disposition r = CreateDispositionExisting" "stored x = stored (pf_spire w)" "issued x = issued (pf_spire w)"
      "spire_entries stored w (EntryID (sc_Entry r)) = Some (sc_Entry r)" "same_key (sc_Entry r) d" by simp_all
    then have "prepared pg api stored issued wls rows gone rule cid k (w\<lparr>pf_spire := x\<rparr>)" by (intro prepared_spire[OF w]) auto
    with c True l show ?thesis by (intro exI[of _ r] exI[of _ "w\<lparr>pf_spire := x\<rparr>"]) simp
  next
    case False
    with law obtain i where l: "sc_Disposition r = CreateDispositionCreated" "i \<noteq> []" "i \<notin> issued (pf_spire w)"
      "issued x = insert i (issued (pf_spire w))" "sc_Entry r = d\<lparr>EntryID := i\<rparr>"
      "spire_entries stored (w\<lparr>pf_spire := x\<rparr>) = (spire_entries stored w)(i \<mapsto> d\<lparr>EntryID := i\<rparr>)" by auto
    have "spire_entries stored w i = None"
      using spire_entry[OF prepared_works[OF w], of w i] l(3) by (cases "spire_entries stored w i") auto
    moreover have "prepared pg api stored issued wls rows gone rule cid k (w\<lparr>pf_spire := x\<rparr>)"
      by (rule prepared_spire[OF w]) (use l in \<open>auto split: if_splits\<close>)
    ultimately show ?thesis using c False l
      by (intro exI[of _ r] exI[of _ "w\<lparr>pf_spire := x\<rparr>"]) auto
  qed
qed

interpretation on_platform: working_service "platform_service out pg api" "spire_entries stored"
    "prepared pg api stored issued wls rows gone rule cid (Suc (Suc k))" "prepared pg api stored issued wls rows gone rule cid (Suc k)"
    text_ok rule cid
  for out pg api stored issued wls rows gone rule cid k
proof (unfold_locales, unfold platform_service_calls)
  let ?prepared = "prepared pg api stored issued wls rows gone rule cid" and ?held = "spire_entries stored"
  show "EntryID e = i \<and> i \<noteq> [] \<and> text_ok i" if "?prepared (Suc (Suc k)) w" "?held w i = Some e" for w i e
    using spire_entry[OF prepared_works[OF that(1)] that(2)] by simp
  show "text_ok i" if "?prepared (Suc (Suc k)) w" "SPIREEntryID rule = Some i" for w i
    using that by (auto simp: prepared_def steady_def list_all_iff typed_def same_rule_def)
  show "\<exists>w'. on_db (reg_MarkConverged pg (RuleID rule) b) w = (Inr (), w') \<and> ?held w' = ?held w"
    if "?prepared (Suc k) w" "\<forall>i. b = Some i \<longrightarrow> (\<exists>e. ?held w i = Some e \<and> ownedByRule e (RuleID rule))" for w b
    using prepared_marks[OF that] by (auto simp: spire_entries_def fun_eq_iff)
  show "\<exists>ev w'. on_db (Append (pool_queryer pg) (reconcile_event rule cid operation i)) w = (Inr ev, w') \<and> ?held w' = ?held w
      \<and> ?prepared (Suc k) w'"
    if "?prepared (Suc (Suc k)) w" "text_ok operation" "text_ok i" for w operation i
    using prepared_audits[OF that] by (auto simp: spire_entries_def fun_eq_iff)
qed (rule text_ok_Nil | (rule prepared_gets prepared_creates prepared_updates prepared_deletes, assumption+))+

end
