(* ===== verification/Reconcile_Steps.thy ===== *)
theory Reconcile_Steps
  imports Reconcile_Bounds Reconcile_Frame
begin

text \<open>
  The work on one rule as the calls it consists of. A method of the reconciler decides on its next
  call from the answers it has so far, so that between two calls other programs can act. \<open>replaying\<close>
  is a service that answers from a history of calls and stops at the first call the history has no
  answer for; \<open>next_ask\<close> reads off that call from the code of \<open>reconcileRule\<close> itself, \<open>perform\<close> makes
  it, and \<open>rule_step\<close> is one such step. A run without interference is exactly its steps.
\<close>

section \<open>Calls without their answers\<close>

datatype ask = AskGet string | AskCreate Entry | AskUpdate Entry | AskDelete string | AskAudit Event
  | AskMark string "string option" | AskError string string

fun asked :: "call \<Rightarrow> ask option" where
  "asked (Got i r) = Some (AskGet i)"
| "asked (Created e r) = Some (AskCreate e)"
| "asked (Updated e r) = Some (AskUpdate e)"
| "asked (Deleted i r) = Some (AskDelete i)"
| "asked (Audited ev r) = Some (AskAudit ev)"
| "asked (MarkedConverged i b r) = Some (AskMark i b)"
| "asked (MarkedError i code r) = Some (AskError i code)"
| "asked (Listed r) = None"
| "asked (Random r) = None"

fun perform :: "'w Service \<Rightarrow> ask \<Rightarrow> 'w \<Rightarrow> call \<times> 'w" where
  "perform svc (AskGet i) w = (case GetEntry (svc_spire svc) i w of (r, w') \<Rightarrow> (Got i r, w'))"
| "perform svc (AskCreate e) w = (case CreateEntry (svc_spire svc) e w of (r, w') \<Rightarrow> (Created e r, w'))"
| "perform svc (AskUpdate e) w = (case UpdateEntry (svc_spire svc) e w of (r, w') \<Rightarrow> (Updated e r, w'))"
| "perform svc (AskDelete i) w = (case DeleteEntry (svc_spire svc) i w of (r, w') \<Rightarrow> (Deleted i r, w'))"
| "perform svc (AskAudit ev) w = (case svc_audit svc ev w of (r, w') \<Rightarrow> (Audited ev r, w'))"
| "perform svc (AskMark i b) w = (case store_MarkConverged (svc_rules svc) i b w of (r, w') \<Rightarrow> (MarkedConverged i b r, w'))"
| "perform svc (AskError i code) w = (case store_MarkError (svc_rules svc) i code w of (r, w') \<Rightarrow> (MarkedError i code r, w'))"

lemma asked_perform: "perform svc q w = (c, w') \<Longrightarrow> asked c = Some q"
  by (cases q) (auto split: prod.splits)

section \<open>Replaying a history\<close>

type_synonym replay = "call list \<times> ask option"

text \<open>The answer is taken from the history; the first call without one is noted, and nothing happens after it.\<close>

definition replay_call :: "ask \<Rightarrow> (call \<Rightarrow> ('e + 'a) option) \<Rightarrow> 'e \<Rightarrow> (replay, 'e, 'a) action" where
  "replay_call q answer stop = (\<lambda>(h, p). case (p, h) of
     (None, c # rest) \<Rightarrow> (case answer c of Some r \<Rightarrow> (r, (rest, None)) | None \<Rightarrow> (Inl stop, (h, Some q)))
   | (None, []) \<Rightarrow> (Inl stop, ([], Some q))
   | (Some q', _) \<Rightarrow> (Inl stop, (h, Some q')))"

definition replaying :: "replay Service" where
  "replaying = \<lparr>
     svc_rules = \<lparr>store_List = throws RuleSelectorsUndecodable,
       store_MarkConverged = (\<lambda>i b. replay_call (AskMark i b)
         (\<lambda>c. case c of MarkedConverged i' b' r \<Rightarrow> if i' = i \<and> b' = b then Some r else None | _ \<Rightarrow> None) RuleSelectorsUndecodable),
       store_MarkError = (\<lambda>i code. replay_call (AskError i code)
         (\<lambda>c. case c of MarkedError i' code' r \<Rightarrow> if i' = i \<and> code' = code then Some r else None | _ \<Rightarrow> None) RuleSelectorsUndecodable)\<rparr>,
     svc_spire = \<lparr>
       GetEntry = (\<lambda>i. replay_call (AskGet i) (\<lambda>c. case c of Got i' r \<Rightarrow> if i' = i then Some r else None | _ \<Rightarrow> None) NoSelector),
       CreateEntry = (\<lambda>e. replay_call (AskCreate e) (\<lambda>c. case c of Created e' r \<Rightarrow> if e' = e then Some r else None | _ \<Rightarrow> None) NoSelector),
       UpdateEntry = (\<lambda>e. replay_call (AskUpdate e) (\<lambda>c. case c of Updated e' r \<Rightarrow> if e' = e then Some r else None | _ \<Rightarrow> None) NoSelector),
       DeleteEntry = (\<lambda>i. replay_call (AskDelete i) (\<lambda>c. case c of Deleted i' r \<Rightarrow> if i' = i then Some r else None | _ \<Rightarrow> None) NoSelector)\<rparr>,
     svc_audit = (\<lambda>ev. replay_call (AskAudit ev) (\<lambda>c. case c of Audited ev' r \<Rightarrow> if ev' = ev then Some r else None | _ \<Rightarrow> None) MissingAttribution),
     svc_random = throws ()\<rparr>"

text \<open>The next call of the work on a rule after a history of calls, and one step of the work.\<close>

definition next_ask :: "Rule \<Rightarrow> string \<Rightarrow> call list \<Rightarrow> ask option" where
  "next_ask rule cid h = (case snd (reconcileRule replaying rule cid (h, None)) of
      ([], p) \<Rightarrow> p | _ \<Rightarrow> None)"

inductive rule_step :: "'w Service \<Rightarrow> Rule \<Rightarrow> string \<Rightarrow> 'w \<times> call list \<Rightarrow> 'w \<times> call list \<Rightarrow> bool"
  for svc rule cid where
  "next_ask rule cid h = Some q \<Longrightarrow> perform svc q w = (c, w') \<Longrightarrow> rule_step svc rule cid (w, h) (w', h @ [c])"

inductive_simps rule_step_iff: "rule_step svc rule cid (w, h) x"

section \<open>A run is its steps\<close>

definition next_of :: "(replay, 'e, 'a) action \<Rightarrow> call list \<Rightarrow> ask option" where
  "next_of m h = (case snd (m (h, None)) of ([], p) \<Rightarrow> p | _ \<Rightarrow> None)"

lemma next_ask_of: "next_ask rule cid = next_of (reconcileRule replaying rule cid)"
  by (simp add: fun_eq_iff next_ask_def next_of_def)

fun walks :: "'w Service \<Rightarrow> (replay, 'e, 'a) action \<Rightarrow> 'w \<Rightarrow> call list \<Rightarrow> call list \<Rightarrow> 'w \<Rightarrow> bool" where
  "walks svc m w h [] w' \<longleftrightarrow> w' = w"
| "walks svc m w h (c # new) w' \<longleftrightarrow> (\<exists>q w1. next_of m h = Some q \<and> perform svc q w = (c, w1) \<and> walks svc m w1 (h @ [c]) new w')"

definition halts :: "(replay, 'e, 'a) action \<Rightarrow> bool" where
  "halts m \<longleftrightarrow> (\<forall>h q. snd (m (h, Some q)) = (h, Some q))"

definition follows :: "'w Service \<Rightarrow> (replay, 'e, 'a) action \<Rightarrow> ('w \<times> call list, 'e, 'a) action \<Rightarrow> bool" where
  "follows svc m m' \<longleftrightarrow> halts m \<and> (\<forall>w calls. \<exists>r w' new. m' (w, calls) = (r, (w', calls @ new))
     \<and> (\<forall>rest. m (new @ rest, None) = (r, (rest, None))) \<and> walks svc m w [] new w')"

lemma walks_append: "walks svc m w h (xs @ ys) w' \<longleftrightarrow> (\<exists>w1. walks svc m w h xs w1 \<and> walks svc m w1 (h @ xs) ys w')"
  by (induction xs arbitrary: w h) auto

lemma halts_on_result:
  assumes "halts m" "\<And>e. halts (f e)" "\<And>a. halts (k a)"
  shows "halts (on_result m f k)"
  unfolding halts_def on_result_def
proof (intro allI)
  fix h q
  obtain r s where m: "m (h, Some q) = (r, s)" by (metis prod.collapse)
  then have "s = (h, Some q)" using assms(1) unfolding halts_def by (metis snd_conv)
  with assms(2,3) m show "snd (case m (h, Some q) of (Inl e, s') \<Rightarrow> f e s' | (Inr a, s') \<Rightarrow> k a s') = (h, Some q)"
    by (cases r) (auto simp: halts_def)
qed

lemma follows_simple [intro!]: "follows svc (returns a) (returns a)" "follows svc (throws e) (throws e)"
  by (auto simp: follows_def halts_def returns_def throws_def)

text \<open>While the first action waits for an answer, so does the sequence.\<close>

lemma next_first:
  assumes "next_of m h = Some q" "\<And>e. halts (f e)" "\<And>a. halts (k a)"
  shows "next_of (on_result m f k) h = Some q"
proof -
  obtain r rest p where m: "m (h, None) = (r, (rest, p))" by (metis prod.collapse)
  with assms(1) have "m (h, None) = (r, ([], Some q))" by (auto simp: next_of_def split: list.splits)
  with assms(2,3) show ?thesis by (cases r) (auto simp: next_of_def on_result_run halts_def)
qed

lemma walks_first:
  "walks svc m w h new w' \<Longrightarrow> (\<And>e. halts (f e)) \<Longrightarrow> (\<And>a. halts (k a)) \<Longrightarrow> walks svc (on_result m f k) w h new w'"
proof (induction new arbitrary: w h)
  case (Cons c new)
  then obtain q w1 where "next_of m h = Some q" "perform svc q w = (c, w1)" "walks svc m w1 (h @ [c]) new w'" by auto
  with Cons.IH[of w1 "h @ [c]"] Cons.prems(2,3) next_first[of m h q f k] show ?case by auto
qed simp

lemma walks_second:
  assumes "\<And>rest. n (pre @ rest, None) = m (rest, None)"
  shows "walks svc m w h new w' \<Longrightarrow> walks svc n w (pre @ h) new w'"
proof (induction new arbitrary: w h)
  case (Cons c new)
  then obtain q w1 where q: "next_of m h = Some q" "perform svc q w = (c, w1)" "walks svc m w1 (h @ [c]) new w'" by auto
  then have "next_of n (pre @ h) = Some q" using assms by (simp add: next_of_def)
  with q Cons.IH[OF q(3)] show ?case by auto
qed simp

lemma follows_on_result [intro!]:
  assumes m: "follows svc m m'" and f: "\<And>e. follows svc (f e) (f' e)" and k: "\<And>a. follows svc (k a) (k' a)"
  shows "follows svc (on_result m f k) (on_result m' f' k')"
  unfolding follows_def
proof (intro conjI allI)
  have hf: "halts (f e)" "halts (k a)" for e a using f k unfolding follows_def by blast+
  then show "halts (on_result m f k)" using m by (intro halts_on_result) (auto simp: follows_def)
  fix w calls
  from m obtain r w1 new where one: "m' (w, calls) = (r, (w1, calls @ new))" "\<And>rest. m (new @ rest, None) = (r, (rest, None))"
    "walks svc m w [] new w1" unfolding follows_def by metis
  obtain g g' where g: "follows svc g g'" "\<And>s. m' (w, calls) = (r, s) \<Longrightarrow> on_result m' f' k' (w, calls) = g' s"
    "\<And>rest. on_result m f k (new @ rest, None) = g (rest, None)"
  proof (cases r)
    case (Inl e)
    with that[of "f e" "f' e"] f one(2) show ?thesis by (simp add: on_result_run)
  next
    case (Inr a)
    with that[of "k a" "k' a"] k one(2) show ?thesis by (simp add: on_result_run)
  qed
  from g(1) obtain r2 w2 new2 where two: "g' (w1, calls @ new) = (r2, (w2, (calls @ new) @ new2))"
    "\<And>rest. g (new2 @ rest, None) = (r2, (rest, None))" "walks svc g w1 [] new2 w2" unfolding follows_def by metis
  have "walks svc (on_result m f k) w [] (new @ new2) w2"
    using walks_first[OF one(3), of f k] walks_second[OF g(3) two(3)] hf unfolding walks_append by auto
  moreover have "on_result m f k ((new @ new2) @ rest, None) = (r2, (rest, None))" for rest using g(3)[of "new2 @ rest"] two(2) by simp
  ultimately show "\<exists>r w' new. on_result m' f' k' (w, calls) = (r, w', calls @ new)
      \<and> (\<forall>rest. on_result m f k (new @ rest, None) = (r, rest, None)) \<and> walks svc (on_result m f k) w [] new w'"
    using g(2)[OF one(1)] two(1) by (intro exI[of _ r2] exI[of _ w2] exI[of _ "new @ new2"]) simp
qed

lemma follows_if [intro!]: "(b \<Longrightarrow> follows svc m m') \<Longrightarrow> (\<not> b \<Longrightarrow> follows svc n n') \<Longrightarrow> follows svc (if b then m else n) (if b then m' else n')"
  by simp

lemma follows_option [intro!]:
  "(r = None \<Longrightarrow> follows svc m m') \<Longrightarrow> (\<And>x. r = Some x \<Longrightarrow> follows svc (k x) (k' x))
     \<Longrightarrow> follows svc (case r of None \<Rightarrow> m | Some x \<Rightarrow> k x) (case r of None \<Rightarrow> m' | Some x \<Rightarrow> k' x)"
  by (cases r) auto

lemma follows_sum [intro!]:
  "(\<And>e. r = Inl e \<Longrightarrow> follows svc (f e) (f' e)) \<Longrightarrow> (\<And>x. r = Inr x \<Longrightarrow> follows svc (k x) (k' x))
     \<Longrightarrow> follows svc (case r of Inl e \<Rightarrow> f e | Inr x \<Rightarrow> k x) (case r of Inl e \<Rightarrow> f' e | Inr x \<Rightarrow> k' x)"
  by (cases r) auto

lemma follows_call:
  assumes "\<And>w. perform svc q w = (case m w of (r, w') \<Rightarrow> (c r, w'))" and "\<And>r. answer (c r) = Some r"
  shows "follows svc (replay_call q answer stop) (noting c m)"
  unfolding follows_def
proof (intro conjI allI)
  show "halts (replay_call q answer stop)" by (simp add: halts_def replay_call_def)
  fix w calls
  obtain r w' where m: "m w = (r, w')" by fastforce
  have "next_of (replay_call q answer stop) [] = Some q" by (simp add: next_of_def replay_call_def)
  then show "\<exists>r w' new. noting c m (w, calls) = (r, w', calls @ new)
      \<and> (\<forall>rest. replay_call q answer stop (new @ rest, None) = (r, rest, None)) \<and> walks svc (replay_call q answer stop) w [] new w'"
    using m assms by (intro exI[of _ r] exI[of _ w'] exI[of _ "[c r]"]) (simp add: noting_def replay_call_def)
qed

lemma follows_calls [intro!]:
  "follows svc (GetEntry (svc_spire replaying) i) (GetEntry (svc_spire (recording svc)) i)"
  "follows svc (CreateEntry (svc_spire replaying) e) (CreateEntry (svc_spire (recording svc)) e)"
  "follows svc (UpdateEntry (svc_spire replaying) e) (UpdateEntry (svc_spire (recording svc)) e)"
  "follows svc (DeleteEntry (svc_spire replaying) i) (DeleteEntry (svc_spire (recording svc)) i)"
  "follows svc (store_MarkConverged (svc_rules replaying) i b) (store_MarkConverged (svc_rules (recording svc)) i b)"
  "follows svc (store_MarkError (svc_rules replaying) i code) (store_MarkError (svc_rules (recording svc)) i code)"
  "follows svc (svc_audit replaying ev) (svc_audit (recording svc) ev)"
  unfolding recording_sel replaying_def Service.select_convs spire_client.select_convs rule_store.select_convs
  by (rule follows_call; simp)+

lemma follows_recording [intro!]:
  "follows svc (recordAudit replaying rule cid op i) (recordAudit (recording svc) rule cid op i)"
  "follows svc (failRule replaying rule code cause) (failRule (recording svc) rule code cause)"
  unfolding recordAudit_def failRule_def by blast+

lemma follows_endings [intro!]:
  "follows svc (conflict replaying rule i cid) (conflict (recording svc) rule i cid)"
  "follows svc (record_and_mark replaying rule cid op i b ch) (record_and_mark (recording svc) rule cid op i b ch)"
  unfolding conflict_def record_and_mark_def markConverged_def by blast+

lemma follows_createOrBind [intro!]: "follows svc (createOrBind replaying rule d cid) (createOrBind (recording svc) rule d cid)"
  unfolding createOrBind_def Let_def by blast

lemma follows_reconcileRule: "follows svc (reconcileRule replaying rule cid) (reconcileRule (recording svc) rule cid)"
  unfolding reconcileRule_def reconcilePresent_def reconcileAbsent_def Let_def by blast

lemma walks_steps:
  "walks svc (reconcileRule replaying rule cid) w h new w' \<Longrightarrow> (rule_step svc rule cid)\<^sup>*\<^sup>* (w, h) (w', h @ new)"
proof (induction new arbitrary: w h)
  case (Cons c new)
  then obtain q w1 where "next_ask rule cid h = Some q" "perform svc q w = (c, w1)"
    and rest: "walks svc (reconcileRule replaying rule cid) w1 (h @ [c]) new w'" by (auto simp: next_ask_of)
  then have "rule_step svc rule cid (w, h) (w1, h @ [c])" by (intro rule_step.intros)
  with Cons.IH[OF rest] show ?case by (simp add: converse_rtranclp_into_rtranclp)
qed simp

lemma reconcileRule_walks:
  assumes "reconcileRule svc rule cid w = (r, w')"
  obtains calls where "(rule_step svc rule cid)\<^sup>*\<^sup>* (w, []) (w', calls)"
    "reconcileRule replaying rule cid (calls, None) = (r, ([], None))"
proof -
  from follows_reconcileRule[of svc rule cid] obtain r2 w2 calls where
    run: "reconcileRule (recording svc) rule cid (w, []) = (r2, (w2, [] @ calls))"
    and answers: "\<And>rest. reconcileRule replaying rule cid (calls @ rest, None) = (r2, (rest, None))"
    and walk: "walks svc (reconcileRule replaying rule cid) w [] calls w2" unfolding follows_def by metis
  from recording_run[OF assms, of "[]"] run have "r2 = r" "w2 = w'" by auto
  with walks_steps[OF walk] answers[of "[]"] that[of calls] show thesis by simp
qed

text \<open>The steps are determined, so a run of them that cannot go on is the end of every one.\<close>

lemma steps_end:
  assumes "(rule_step svc rule cid)\<^sup>*\<^sup>* x y" "\<And>z. \<not> rule_step svc rule cid y z"
  shows "(rule_step svc rule cid)\<^sup>*\<^sup>* x z \<Longrightarrow> (rule_step svc rule cid)\<^sup>*\<^sup>* z y"
  using assms(1)
proof (induction arbitrary: z rule: converse_rtranclp_induct)
  case base
  then show ?case using assms(2) by (metis converse_rtranclpE)
next
  case (step x x1)
  note here = step
  from here(4) show ?case
  proof (cases rule: converse_rtranclpE)
    case base
    with here(1,2) show ?thesis by (simp add: converse_rtranclp_into_rtranclp)
  next
    case (step x2)
    have "x2 = x1" using step(1) here(1) by (auto elim!: rule_step.cases)
    with here(3) step(2) show ?thesis by blast
  qed
qed

section \<open>The discipline of the steps\<close>

text \<open>
  Recorded, a replayed run notes the history it has answered from, then the call it stops at: so the
  discipline of the calls of any run is the discipline of the next call after any history.
\<close>

definition replayed :: "call list \<Rightarrow> replay \<times> call list \<Rightarrow> bool" where
  "replayed h s \<longleftrightarrow> (case s of ((rest, p), calls) \<Rightarrow> (let made = filter (\<lambda>c. asked c \<noteq> None) calls in
     case p of None \<Rightarrow> made @ rest = h
     | Some q \<Rightarrow> (\<exists>pre c more. made = pre @ c # more \<and> asked c = Some q \<and> pre @ rest = h)))"

definition keeps_replayed :: "replay \<times> call list \<Rightarrow> replay \<times> call list \<Rightarrow> bool" where
  "keeps_replayed s s' \<longleftrightarrow> (\<forall>h. replayed h s \<longrightarrow> replayed h s')"

lemma replay_keeps:
  assumes "\<And>r. asked (c r) = Some q" and "\<And>d r. answer d = Some r \<Longrightarrow> d = c r"
  shows "frames keeps_replayed (noting c (replay_call q answer stop))"
  unfolding frames_def keeps_replayed_def
proof (intro allI impI)
  fix s h assume r: "replayed h s"
  obtain rest p calls where s: "s = ((rest, p), calls)" by (cases s) auto
  show "replayed h (snd (noting c (replay_call q answer stop) s))"
  proof (cases p)
    case None
    show ?thesis
    proof (cases rest)
      case Nil
      with r s None assms(1) show ?thesis by (auto simp: replayed_def noting_def replay_call_def Let_def)
    next
      case (Cons d ds)
      have "asked d = Some q \<and> c r = d" if "answer d = Some r" for r using assms that by metis
      with r s None Cons assms(1) show ?thesis
        by (cases "answer d") (auto simp: replayed_def noting_def replay_call_def)
    qed
  next
    case (Some q')
    with r s show ?thesis by (fastforce simp: replayed_def noting_def replay_call_def Let_def)
  qed
qed

lemma silent_keeps: "(\<And>r. asked (c r) = None) \<Longrightarrow> frames keeps_replayed (noting c (throws e))"
  by (auto simp: frames_def keeps_replayed_def replayed_def noting_def throws_def Let_def split: option.splits)

interpretation replays: service_frame keeps_replayed "recording replaying"
proof
  show "keeps_replayed u u" "keeps_replayed u v \<Longrightarrow> keeps_replayed v w \<Longrightarrow> keeps_replayed u w" for u v w
    by (simp_all add: keeps_replayed_def)
qed (unfold recording_sel replaying_def Service.select_convs spire_client.select_convs rule_store.select_convs;
  (rule replay_keeps silent_keeps; auto split: call.splits if_splits))+

lemma ok_call_asked: "asked c = asked d \<Longrightarrow> ok_call rule cid h c \<Longrightarrow> asked c \<noteq> None \<Longrightarrow> ok_call rule cid h d"
  by (cases c; cases d) auto

lemma ok_calls_asked: "ok_calls rule cid calls \<Longrightarrow> filter (\<lambda>c. asked c \<noteq> None) calls = calls"
proof (rule filter_True)
  assume ok: "ok_calls rule cid calls"
  have "asked c \<noteq> None" if c: "c \<in> set calls" for c
  proof -
    from split_list[OF c] obtain pre post where "calls = pre @ c # post" by blast
    with ok have "ok_call rule cid pre c" by (simp add: ok_calls_def)
    then show ?thesis by (cases c) auto
  qed
  then show "\<forall>c \<in> set calls. asked c \<noteq> None" by blast
qed

lemma next_ask_disciplined:
  assumes "next_ask rule cid h = Some q" "asked c = Some q"
  shows "ok_call rule cid h c"
proof -
  obtain r rest p calls where run: "reconcileRule (recording replaying) rule cid ((h, None), []) = (r, ((rest, p), calls))"
    by (metis prod.collapse)
  have "reconcileRule replaying rule cid (h, None) = (r, (rest, p))"
    using mirrors_reconcileRule[of replaying rule cid] run unfolding mirrors_def by (metis Pair_inject prod.collapse)
  then have "rest = []" "p = Some q" using assms(1) by (simp_all add: next_ask_def split: list.splits)
  moreover have "replayed h ((rest, p), calls)"
    using replays.reconcileRule_frame[of rule cid] run unfolding frames_def keeps_replayed_def
    by (metis (mono_tags, lifting) append_Nil filter.simps(1) old.prod.case option.case(1) replayed_def snd_conv)
  moreover have ok: "ok_calls rule cid calls" using wpD[OF wp_reconcileRule run] by (simp add: disciplined_def)
  ultimately obtain d more where d: "calls = h @ d # more" "asked d = Some q"
    unfolding replayed_def Let_def case_prod_conv ok_calls_asked[OF ok] by auto
  from ok d(1) have "ok_call rule cid h d" by (simp add: ok_calls_def)
  with ok_call_asked[of d c] d(2) assms(2) show ?thesis by simp
qed

section \<open>Properties\<close>

text \<open>
  The work on a rule is its calls, one at a time. The next call is a function of the rule and the
  answers so far, as the code decides on it; a run of \<open>reconcileRule\<close> without interference is a run of
  such steps that ends where no call is left, with the result the code computes from these answers; and
  every way to begin the steps goes on to that end.
\<close>

theorem reconcileRule_stepwise:
  assumes "reconcileRule svc rule cid w = (r, w')"
  shows "\<exists>calls. (rule_step svc rule cid)\<^sup>*\<^sup>* (w, []) (w', calls) \<and> next_ask rule cid calls = None
    \<and> reconcileRule replaying rule cid (calls, None) = (r, ([], None))
    \<and> (\<forall>x. (rule_step svc rule cid)\<^sup>*\<^sup>* (w, []) x \<longrightarrow> (rule_step svc rule cid)\<^sup>*\<^sup>* x (w', calls))"
proof -
  obtain calls where calls: "(rule_step svc rule cid)\<^sup>*\<^sup>* (w, []) (w', calls)"
    and end': "reconcileRule replaying rule cid (calls, None) = (r, ([], None))" using reconcileRule_walks[OF assms] by metis
  then have none: "next_ask rule cid calls = None" by (simp add: next_ask_def)
  then have "\<not> rule_step svc rule cid (w', calls) z" for z by (simp add: rule_step_iff)
  with steps_end[of svc rule cid "(w, [])" "(w', calls)"] calls none end' show ?thesis
    by (intro exI[of _ calls]) auto
qed

text \<open>Such a run where the bound entry is outdated, its update is refused and another run has won the race to create it.\<close>

theorem reconcileRule_stepwise_witness:
  "\<exists>calls. (rule_step racing_service (example_present\<lparr>SPIREEntryID := Some ''e1''\<rparr>) ''c1'')\<^sup>*\<^sup>* (False, []) (True, calls)
     \<and> next_ask (example_present\<lparr>SPIREEntryID := Some ''e1''\<rparr>) ''c1'' calls = None
     \<and> reconcileRule replaying (example_present\<lparr>SPIREEntryID := Some ''e1''\<rparr>) ''c1'' (calls, None) = (Inr True, ([], None))"
proof -
  let ?x = "example_present\<lparr>SPIREEntryID := Some ''e1''\<rparr>"
  have "case reconcileRule racing_service ?x ''c1'' False of (Inr changed, again) \<Rightarrow> changed \<and> again | _ \<Rightarrow> False" by code_simp
  then have "reconcileRule racing_service ?x ''c1'' False = (Inr True, True)" by (auto split: prod.splits sum.splits)
  from reconcileRule_stepwise[OF this] show ?thesis by blast
qed

end
