(* ===== verification/Ownership.thy ===== *)
theory Ownership
  imports Platform_Works Reconcile_Steps System_Properties
begin

text \<open>
  Who owns which entry of SPIRE, while requests, reconcilers and others act at the same time and calls
  fail. \<open>owned_state\<close> is the invariant, \<open>advances\<close> what every single call keeps, \<open>known\<close> and \<open>claims\<close>
  are what a reconciler may rely on between its calls because nothing that advances takes it away.
\<close>

section \<open>A SPIRE server that can fail\<close>

text \<open>
  A server that can refuse or fail a call, with or without its effect, but does not invent: what it
  answers as an entry it holds, a create adds the entry asked for under a new ID, an update replaces an
  entry that is there, a delete removes one.
\<close>

definition spire_honest :: "'s entry_api \<Rightarrow> ('s \<Rightarrow> string \<Rightarrow> proto_entry option) \<Rightarrow> ('s \<Rightarrow> string set) \<Rightarrow> bool" where
  "spire_honest api stored issued \<longleftrightarrow>
     (\<forall>s i p. stored s i = Some p \<longrightarrow> pe_Id p = i \<and> i \<noteq> [] \<and> text_ok i \<and> i \<in> issued s)
     \<and> (\<forall>s i. case api_GetEntry api i fullOutputMask s of (r, s') \<Rightarrow>
          stored s' = stored s \<and> issued s' = issued s \<and> (\<forall>p. r = Inr p \<longrightarrow> stored s i = Some p))
     \<and> (\<forall>s p. pe_Id p = [] \<longrightarrow> (case api_BatchCreateEntry api [p] fullOutputMask s of (r, s') \<Rightarrow>
          (stored s' = stored s \<and> issued s' = issued s
            \<or> (\<exists>i. i \<notin> issued s \<and> stored s' = (stored s)(i \<mapsto> p\<lparr>pe_Id := i\<rparr>) \<and> issued s' = insert i (issued s)))
          \<and> (\<forall>code q. code \<in> {codes_OK, codes_AlreadyExists} \<longrightarrow> r = Inr [\<lparr>er_Status = Some code, er_Entry = Some q\<rparr>]
               \<longrightarrow> stored s' (pe_Id q) = Some q)))
     \<and> (\<forall>s p. case api_BatchUpdateEntry api [p] update_input_mask fullOutputMask s of (r, s') \<Rightarrow>
          issued s' = issued s \<and> (stored s' = stored s \<or> stored s (pe_Id p) \<noteq> None \<and> stored s' = (stored s)(pe_Id p \<mapsto> p))
          \<and> (\<forall>q. r = Inr [\<lparr>er_Status = Some codes_OK, er_Entry = Some q\<rparr>] \<longrightarrow> stored s' (pe_Id q) = Some q))
     \<and> (\<forall>s i. case api_BatchDeleteEntry api [i] s of (r, s') \<Rightarrow>
          issued s' = issued s \<and> (stored s' = stored s \<or> stored s' = (stored s)(i := None)))"

lemma honest_laws:
  assumes "spire_honest api stored issued"
  shows "stored s i = Some p \<Longrightarrow> pe_Id p = i \<and> i \<noteq> [] \<and> text_ok i \<and> i \<in> issued s"
    and "api_GetEntry api i fullOutputMask s = (g, s') \<Longrightarrow>
      stored s' = stored s \<and> issued s' = issued s \<and> (\<forall>p. g = Inr p \<longrightarrow> stored s i = Some p)"
    and "pe_Id p = [] \<Longrightarrow> api_BatchCreateEntry api [p] fullOutputMask s = (c, s') \<Longrightarrow>
      (stored s' = stored s \<and> issued s' = issued s
        \<or> (\<exists>i. i \<notin> issued s \<and> stored s' = (stored s)(i \<mapsto> p\<lparr>pe_Id := i\<rparr>) \<and> issued s' = insert i (issued s)))
      \<and> (\<forall>code q. code \<in> {codes_OK, codes_AlreadyExists} \<longrightarrow> c = Inr [\<lparr>er_Status = Some code, er_Entry = Some q\<rparr>]
           \<longrightarrow> stored s' (pe_Id q) = Some q)"
    and "api_BatchUpdateEntry api [p] update_input_mask fullOutputMask s = (u, s') \<Longrightarrow>
      issued s' = issued s \<and> (stored s' = stored s \<or> stored s (pe_Id p) \<noteq> None \<and> stored s' = (stored s)(pe_Id p \<mapsto> p))
      \<and> (\<forall>q. u = Inr [\<lparr>er_Status = Some codes_OK, er_Entry = Some q\<rparr>] \<longrightarrow> stored s' (pe_Id q) = Some q)"
    and "api_BatchDeleteEntry api [i] s = (d, s') \<Longrightarrow> issued s' = issued s \<and> (stored s' = stored s \<or> stored s' = (stored s)(i := None))"
proof -
  note h = assms[unfolded spire_honest_def]
  show "stored s i = Some p \<Longrightarrow> pe_Id p = i \<and> i \<noteq> [] \<and> text_ok i \<and> i \<in> issued s" using h[THEN conjunct1] by blast
  note h = h[THEN conjunct2]
  show "api_GetEntry api i fullOutputMask s = (g, s') \<Longrightarrow>
      stored s' = stored s \<and> issued s' = issued s \<and> (\<forall>p. g = Inr p \<longrightarrow> stored s i = Some p)"
    using spec[OF spec[OF h[THEN conjunct1], of s], of i] by simp
  note h = h[THEN conjunct2]
  show "pe_Id p = [] \<Longrightarrow> api_BatchCreateEntry api [p] fullOutputMask s = (c, s') \<Longrightarrow>
      (stored s' = stored s \<and> issued s' = issued s
        \<or> (\<exists>i. i \<notin> issued s \<and> stored s' = (stored s)(i \<mapsto> p\<lparr>pe_Id := i\<rparr>) \<and> issued s' = insert i (issued s)))
      \<and> (\<forall>code q. code \<in> {codes_OK, codes_AlreadyExists} \<longrightarrow> c = Inr [\<lparr>er_Status = Some code, er_Entry = Some q\<rparr>]
           \<longrightarrow> stored s' (pe_Id q) = Some q)"
    using spec[OF spec[OF h[THEN conjunct1], of s], of p] by simp
  note h = h[THEN conjunct2]
  show "api_BatchUpdateEntry api [p] update_input_mask fullOutputMask s = (u, s') \<Longrightarrow>
      issued s' = issued s \<and> (stored s' = stored s \<or> stored s (pe_Id p) \<noteq> None \<and> stored s' = (stored s)(pe_Id p \<mapsto> p))
      \<and> (\<forall>q. u = Inr [\<lparr>er_Status = Some codes_OK, er_Entry = Some q\<rparr>] \<longrightarrow> stored s' (pe_Id q) = Some q)"
    using spec[OF spec[OF h[THEN conjunct1], of s], of p] by simp
  show "api_BatchDeleteEntry api [i] s = (d, s') \<Longrightarrow> issued s' = issued s \<and> (stored s' = stored s \<or> stored s' = (stored s)(i := None))"
    using spec[OF spec[OF h[THEN conjunct2], of s], of i] by simp
qed

lemma honest_entry:
  assumes "spire_honest api stored issued" "spire_entries stored w i = Some e"
  shows "EntryID e = i \<and> i \<noteq> [] \<and> text_ok i \<and> i \<in> issued (pf_spire w)"
  using honest_laws(1)[OF assms(1)] assms(2) by (auto simp: spire_entries_def fromProtoEntry_def)

lemma entry_of_answer:
  assumes "spire_honest api stored issued" "stored (pf_spire w) (pe_Id q) = Some q"
  shows "spire_entries stored w (EntryID (fromProtoEntry q)) = Some (fromProtoEntry q)"
  using assms by (simp add: spire_entries_def fromProtoEntry_def)

lemma honest_get:
  assumes "spire_honest api stored issued" "grpc_GetEntry (lift_api api) i w = (r, w')"
  shows "\<exists>x. w' = w\<lparr>pf_spire := x\<rparr> \<and> stored x = stored (pf_spire w) \<and> issued x = issued (pf_spire w)
    \<and> (\<forall>e. r = Inr e \<longrightarrow> spire_entries stored w i = Some e)"
proof -
  obtain a x where g: "api_GetEntry api i fullOutputMask (pf_spire w) = (a, x)" by fastforce
  from honest_laws(2)[OF assms(1) g] g assms(2) show ?thesis
    by (intro exI[of _ x]) (auto simp: grpc_GetEntry_def lift_api_def on_spire_def action_defs spire_entries_def split: sum.splits)
qed

lemma honest_delete:
  assumes "spire_honest api stored issued" "grpc_DeleteEntry (lift_api api) i w = (r, w')"
  shows "\<exists>x. w' = w\<lparr>pf_spire := x\<rparr> \<and> issued x = issued (pf_spire w)
    \<and> (stored x = stored (pf_spire w) \<or> stored x = (stored (pf_spire w))(i := None))"
proof -
  obtain a x where g: "api_BatchDeleteEntry api [i] (pf_spire w) = (a, x)" by fastforce
  from honest_laws(5)[OF assms(1) g] g assms(2) show ?thesis
    by (intro exI[of _ x]) (auto simp: grpc_DeleteEntry_def lift_api_def on_spire_def action_defs
        split: sum.splits list.splits option.splits if_splits)
qed

lemma single_answer:
  "single_result e rs w = (Inr (code, q), w') \<Longrightarrow> rs = [\<lparr>er_Status = Some code, er_Entry = Some q\<rparr>] \<and> w' = w"
  by (auto simp: single_result_def action_defs split: list.splits option.splits)

lemma single_state: "single_result e rs w = (r, w1) \<Longrightarrow> w1 = w"
  by (auto simp: single_result_def action_defs split: list.splits option.splits)

lemma honest_create:
  assumes h: "spire_honest api stored issued" and d: "EntryID d = []" and run: "grpc_CreateEntry (lift_api api) d w = (r, w')"
  shows "\<exists>x. w' = w\<lparr>pf_spire := x\<rparr>
    \<and> (stored x = stored (pf_spire w) \<and> issued x = issued (pf_spire w)
       \<or> (\<exists>i p. toProtoEntry d = Inr p \<and> i \<notin> issued (pf_spire w) \<and> issued x = insert i (issued (pf_spire w))
            \<and> stored x = (stored (pf_spire w))(i \<mapsto> p\<lparr>pe_Id := i\<rparr>)))
    \<and> (\<forall>c. r = Inr c \<longrightarrow> spire_entries stored w' (EntryID (sc_Entry c)) = Some (sc_Entry c))"
proof (cases "toProtoEntry d")
  case (Inl e)
  with run show ?thesis by (intro exI[of _ "pf_spire w"]) (auto simp: grpc_CreateEntry_def action_defs)
next
  case (Inr p)
  have p: "pe_Id p = []" using toProtoEntry_Inr[of d p] Inr d by auto
  obtain a x where g: "api_BatchCreateEntry api [p] fullOutputMask (pf_spire w) = (a, x)" by fastforce
  from honest_laws(3)[OF h p g] have x: "stored x = stored (pf_spire w) \<and> issued x = issued (pf_spire w)
       \<or> (\<exists>i. i \<notin> issued (pf_spire w) \<and> issued x = insert i (issued (pf_spire w)) \<and> stored x = (stored (pf_spire w))(i \<mapsto> p\<lparr>pe_Id := i\<rparr>))"
    and ans: "\<And>code q. code \<in> {codes_OK, codes_AlreadyExists} \<Longrightarrow> a = Inr [\<lparr>er_Status = Some code, er_Entry = Some q\<rparr>] \<Longrightarrow> stored x (pe_Id q) = Some q"
    by auto
  have w': "w' = w\<lparr>pf_spire := x\<rparr>"
    using run g Inr by (auto simp: grpc_CreateEntry_def lift_api_def on_spire_def action_defs
        split: sum.splits prod.splits if_splits dest!: single_state)
  have "spire_entries stored w' (EntryID (sc_Entry c)) = Some (sc_Entry c)" if c: "r = Inr c" for c
  proof -
    from run g Inr c obtain code q where q: "a = Inr [\<lparr>er_Status = Some code, er_Entry = Some q\<rparr>]" "code \<in> {codes_OK, codes_AlreadyExists}"
      "sc_Entry c = fromProtoEntry q"
      by (auto simp: grpc_CreateEntry_def lift_api_def on_spire_def action_defs split: sum.splits prod.splits if_splits
          dest!: single_answer)
    with ans entry_of_answer[OF h, of w' q] show ?thesis by (simp add: w')
  qed
  with x w' Inr show ?thesis by (intro exI[of _ x]) blast
qed

lemma honest_update:
  assumes h: "spire_honest api stored issued" and run: "grpc_UpdateEntry (lift_api api) e w = (r, w')"
  shows "\<exists>x. w' = w\<lparr>pf_spire := x\<rparr> \<and> issued x = issued (pf_spire w)
    \<and> (stored x = stored (pf_spire w)
       \<or> (\<exists>p. toProtoEntry e = Inr p \<and> stored (pf_spire w) (pe_Id p) \<noteq> None \<and> stored x = (stored (pf_spire w))(pe_Id p \<mapsto> p)))
    \<and> (\<forall>u. r = Inr u \<longrightarrow> spire_entries stored w' (EntryID u) = Some u)"
proof (cases "EntryID e = [] \<or> isl (toProtoEntry e)")
  case True
  with run show ?thesis by (intro exI[of _ "pf_spire w"]) (auto simp: grpc_UpdateEntry_def action_defs split: sum.splits if_splits)
next
  case False
  then obtain p where p: "EntryID e \<noteq> []" "toProtoEntry e = Inr p" by (cases "toProtoEntry e") auto
  obtain a x where g: "api_BatchUpdateEntry api [p] update_input_mask fullOutputMask (pf_spire w) = (a, x)" by fastforce
  from honest_laws(4)[OF h g] have x: "issued x = issued (pf_spire w)"
      "stored x = stored (pf_spire w) \<or> stored (pf_spire w) (pe_Id p) \<noteq> None \<and> stored x = (stored (pf_spire w))(pe_Id p \<mapsto> p)"
    and ans: "\<And>q. a = Inr [\<lparr>er_Status = Some codes_OK, er_Entry = Some q\<rparr>] \<Longrightarrow> stored x (pe_Id q) = Some q"
    by auto
  have w': "w' = w\<lparr>pf_spire := x\<rparr>"
    using run g p by (auto simp: grpc_UpdateEntry_def lift_api_def on_spire_def action_defs
        split: sum.splits prod.splits if_splits dest!: single_state)
  have "spire_entries stored w' (EntryID u) = Some u" if u: "r = Inr u" for u
  proof -
    from run g p u obtain q where q: "a = Inr [\<lparr>er_Status = Some codes_OK, er_Entry = Some q\<rparr>]" "u = fromProtoEntry q"
      by (auto simp: grpc_UpdateEntry_def lift_api_def on_spire_def action_defs split: sum.splits prod.splits if_splits
          dest!: single_answer)
    with ans entry_of_answer[OF h, of w' q] show ?thesis by (simp add: w')
  qed
  with x w' p show ?thesis by (intro exI[of _ x]) blast
qed

section \<open>The invariant\<close>

abbreviation rules_of :: "'sp platform \<Rightarrow> rule_row list" where
  "rules_of w \<equiv> registration_rules (view w)"

text \<open>The workloads have different SPIFFE IDs, and ones that SPIRE's client does not rewrite.\<close>

definition plain_workloads :: "workload_row list \<Rightarrow> bool" where
  "plain_workloads wls \<longleftrightarrow> distinct (map wl_spiffe_id wls)
     \<and> (\<forall>x \<in> set wls. reg_validateSPIFFEID (wl_spiffe_id x) = None \<and> set ''%?'' \<inter> set (wl_spiffe_id x) = {})"

text \<open>An entry for a workload of the platform is the entry of that workload's rule.\<close>

definition entries_own :: "('sp \<Rightarrow> string \<Rightarrow> proto_entry option) \<Rightarrow> 'sp platform \<Rightarrow> bool" where
  "entries_own stored w \<longleftrightarrow> (\<forall>i e. spire_entries stored w i = Some e \<longrightarrow> (\<forall>x \<in> set (workloads (view w)).
     EntrySPIFFEID e = wl_spiffe_id x \<longrightarrow> (\<exists>r \<in> set (rules_of w). rr_workload r = wl_id x \<and> ownedByRule e (rr_id r))))"

definition owned_state :: "('sp \<Rightarrow> string \<Rightarrow> proto_entry option) \<Rightarrow> ('sp \<Rightarrow> string set) \<Rightarrow> 'sp platform \<Rightarrow> bool" where
  "owned_state stored issued w \<longleftrightarrow> good (view w) \<and> plain_workloads (workloads (view w)) \<and> list_all typed (rules_of w)
     \<and> bound_own stored issued (rules_of w) w \<and> entries_own stored w"

text \<open>
  A step forward: an entry ID that was given out keeps its owner while the entry exists and is never
  given out again, a rule keeps its ID and its workload, and the invariant is kept.
\<close>

definition owners_kept :: "('sp \<Rightarrow> string \<Rightarrow> proto_entry option) \<Rightarrow> ('sp \<Rightarrow> string set) \<Rightarrow> 'sp platform \<Rightarrow> 'sp platform \<Rightarrow> bool" where
  "owners_kept stored issued w w' \<longleftrightarrow> issued (pf_spire w) \<subseteq> issued (pf_spire w')
     \<and> (\<forall>i e'. i \<in> issued (pf_spire w) \<longrightarrow> spire_entries stored w' i = Some e'
          \<longrightarrow> (\<exists>e. spire_entries stored w i = Some e \<and> EntryHint e = EntryHint e'))"

definition rules_kept :: "tables \<Rightarrow> tables \<Rightarrow> bool" where
  "rules_kept t t' \<longleftrightarrow> workloads t' = workloads t
     \<and> (\<forall>r \<in> set (registration_rules t). \<exists>r' \<in> set (registration_rules t'). rr_id r' = rr_id r \<and> rr_workload r' = rr_workload r)"

definition advances :: "('sp \<Rightarrow> string \<Rightarrow> proto_entry option) \<Rightarrow> ('sp \<Rightarrow> string set) \<Rightarrow> 'sp platform \<Rightarrow> 'sp platform \<Rightarrow> bool" where
  "advances stored issued w w' \<longleftrightarrow> owners_kept stored issued w w' \<and> rules_kept (view w) (view w')
     \<and> (owned_state stored issued w \<longrightarrow> owned_state stored issued w')"

lemma owners_kept_refl: "owners_kept stored issued w w"
  by (simp add: owners_kept_def)

lemma rules_kept_refl: "rules_kept t t"
  by (auto simp: rules_kept_def)

lemma advances_refl [simp]: "advances stored issued w w"
  by (simp add: advances_def owners_kept_refl rules_kept_refl)

lemma owners_kept_trans: "owners_kept stored issued u v \<Longrightarrow> owners_kept stored issued v w \<Longrightarrow> owners_kept stored issued u w"
proof -
  assume a: "owners_kept stored issued u v" "owners_kept stored issued v w"
  have "\<exists>e. spire_entries stored u i = Some e \<and> EntryHint e = EntryHint e'"
    if "i \<in> issued (pf_spire u)" "spire_entries stored w i = Some e'" for i e'
  proof -
    have "i \<in> issued (pf_spire v)" using a(1) that(1) by (auto simp: owners_kept_def)
    with a(2) that(2) obtain e1 where "spire_entries stored v i = Some e1" "EntryHint e1 = EntryHint e'"
      unfolding owners_kept_def by metis
    with a(1) that(1) show ?thesis unfolding owners_kept_def by metis
  qed
  with a show ?thesis unfolding owners_kept_def by blast
qed

lemma rules_kept_trans: "rules_kept a b \<Longrightarrow> rules_kept b c \<Longrightarrow> rules_kept a c"
  unfolding rules_kept_def by metis

lemma advances_trans: "advances stored issued u v \<Longrightarrow> advances stored issued v w \<Longrightarrow> advances stored issued u w"
  unfolding advances_def using owners_kept_trans rules_kept_trans by blast

section \<open>What a reconciler can rely on\<close>

definition known :: "Rule \<Rightarrow> 'sp platform \<Rightarrow> bool" where
  "known x w \<longleftrightarrow> (\<exists>r \<in> set (rules_of w). \<exists>y \<in> set (workloads (view w)). rr_id r = RuleID x \<and> rr_workload r = wl_id y
     \<and> WorkloadSPIFFEID x = wl_spiffe_id y)"

definition claims :: "('sp \<Rightarrow> string \<Rightarrow> proto_entry option) \<Rightarrow> ('sp \<Rightarrow> string set) \<Rightarrow> 'sp platform \<Rightarrow> string \<Rightarrow> string \<Rightarrow> bool" where
  "claims stored issued w i rid \<longleftrightarrow> text_ok i \<and> i \<in> issued (pf_spire w)
     \<and> (\<forall>e. spire_entries stored w i = Some e \<longrightarrow> ownedByRule e rid)"

lemma known_advances: "known x w \<Longrightarrow> advances stored issued w w' \<Longrightarrow> known x w'"
  unfolding known_def advances_def rules_kept_def by metis

lemma claims_advances: "claims stored issued w i rid \<Longrightarrow> advances stored issued w w' \<Longrightarrow> claims stored issued w' i rid"
  unfolding claims_def advances_def owners_kept_def ownedByRule_def by (metis subsetD)

lemma claims_entry:
  assumes "spire_honest api stored issued" "spire_entries stored w (EntryID a) = Some a" "ownedByRule a rid"
  shows "claims stored issued w (EntryID a) rid"
  using honest_entry[OF assms(1,2)] assms(2,3) by (simp add: claims_def)

section \<open>Steps of SPIRE and of the database\<close>

lemma bound_own_kept:
  assumes "owners_kept stored issued w w'" "bound_own stored issued rows w"
  shows "bound_own stored issued rows w'"
  using assms unfolding bound_own_def owners_kept_def ownedByRule_def by (metis subsetD)

lemma spire_advances:
  assumes "owners_kept stored issued w (w\<lparr>pf_spire := x\<rparr>)"
    and "owned_state stored issued w \<Longrightarrow> entries_own stored (w\<lparr>pf_spire := x\<rparr>)"
  shows "advances stored issued w (w\<lparr>pf_spire := x\<rparr>)"
proof -
  have v: "view (w\<lparr>pf_spire := x\<rparr>) = view w" by (simp add: view_def)
  show ?thesis using assms bound_own_kept[OF assms(1)] by (auto simp: advances_def owned_state_def v rules_kept_refl)
qed

lemma db_advances:
  assumes same: "pf_spire w' = pf_spire w" and rules: "rules_kept (view w) (view w')" and ok: "good (view w) \<Longrightarrow> good (view w')"
    and rows: "\<And>r'. owned_state stored issued w \<Longrightarrow> r' \<in> set (rules_of w') \<Longrightarrow>
      typed r' \<and> (\<forall>i. rr_entry r' = Some i \<longrightarrow> claims stored issued w i (rr_id r'))"
  shows "advances stored issued w w'"
proof -
  have e: "spire_entries stored w' = spire_entries stored w" using same by (simp add: spire_entries_def fun_eq_iff)
  have "owned_state stored issued w'" if o: "owned_state stored issued w"
  proof -
    have "bound_own stored issued (rules_of w') w'" using rows[OF o] by (auto simp: bound_own_def claims_def e same)
    moreover have "entries_own stored w'" using o rules unfolding owned_state_def entries_own_def rules_kept_def e by metis
    moreover have "list_all typed (rules_of w')" using rows[OF o] by (simp add: list_all_iff)
    ultimately show ?thesis using o ok rules by (simp add: owned_state_def rules_kept_def)
  qed
  moreover have "owners_kept stored issued w w'" by (simp add: owners_kept_def same e)
  ultimately show ?thesis using rules by (simp add: advances_def)
qed

lemma owned_row:
  assumes "owned_state stored issued w" "r \<in> set (rules_of w)"
  shows "typed r" "rr_entry r = Some i \<Longrightarrow> claims stored issued w i (rr_id r)"
  using assms by (auto simp: owned_state_def list_all_iff bound_own_def claims_def typed_def)

lemma same_tables_advances:
  assumes "pf_spire w' = pf_spire w" "view w' = view w"
  shows "advances stored issued w w'"
  by (rule db_advances) (use assms owned_row in \<open>auto simp: rules_kept_refl\<close>)

section \<open>The calls to SPIRE\<close>

text \<open>A call that only takes entries away.\<close>

lemma fewer_advances:
  assumes "\<And>i e. spire_entries stored (w\<lparr>pf_spire := x\<rparr>) i = Some e \<Longrightarrow> spire_entries stored w i = Some e"
    and "issued (pf_spire w) \<subseteq> issued x"
  shows "advances stored issued w (w\<lparr>pf_spire := x\<rparr>)"
proof (rule spire_advances)
  show "owners_kept stored issued w (w\<lparr>pf_spire := x\<rparr>)" using assms by (auto simp: owners_kept_def)
  have v: "view (w\<lparr>pf_spire := x\<rparr>) = view w" by (simp add: view_def)
  show "entries_own stored (w\<lparr>pf_spire := x\<rparr>)" if "owned_state stored issued w"
    using that assms(1) unfolding owned_state_def entries_own_def v by blast
qed

lemma get_advances:
  assumes "spire_honest api stored issued" "grpc_GetEntry (lift_api api) i w = (r, w')"
  shows "advances stored issued w w' \<and> (\<forall>e. r = Inr e \<longrightarrow> spire_entries stored w' i = Some e)"
proof -
  from honest_get[OF assms] obtain x where x: "w' = w\<lparr>pf_spire := x\<rparr>" "stored x = stored (pf_spire w)" "issued x = issued (pf_spire w)"
    "\<forall>e. r = Inr e \<longrightarrow> spire_entries stored w i = Some e" by blast
  have "advances stored issued w (w\<lparr>pf_spire := x\<rparr>)"
    by (rule fewer_advances) (use x(2,3) in \<open>simp_all add: spire_entries_def\<close>)
  with x show ?thesis by simp
qed

lemma delete_advances:
  assumes "spire_honest api stored issued" "grpc_DeleteEntry (lift_api api) i w = (r, w')"
  shows "advances stored issued w w'"
proof -
  from honest_delete[OF assms] obtain x where x: "w' = w\<lparr>pf_spire := x\<rparr>" "issued x = issued (pf_spire w)"
    "stored x = stored (pf_spire w) \<or> stored x = (stored (pf_spire w))(i := None)" by blast
  have held: "spire_entries stored w j = Some e" if "spire_entries stored (w\<lparr>pf_spire := x\<rparr>) j = Some e" for j e
    using x(3) that by (auto simp: spire_entries_def split: if_splits)
  have "advances stored issued w (w\<lparr>pf_spire := x\<rparr>)"
    by (rule fewer_advances) (use x(2) held in auto)
  with x show ?thesis by simp
qed

text \<open>The entry a known rule sends to SPIRE is, there too, one for the rule's workload.\<close>

lemma sent_entry:
  assumes "known x w" "plain_workloads (workloads (view w))" "EntrySPIFFEID d = WorkloadSPIFFEID x" "toProtoEntry d = Inr p"
  shows "EntrySPIFFEID (fromProtoEntry p) = WorkloadSPIFFEID x" "EntryHint (fromProtoEntry p) = EntryHint d"
    "EntryID (fromProtoEntry p) = EntryID d"
proof -
  from assms(1,2) have "reg_validateSPIFFEID (WorkloadSPIFFEID x) = None" "set ''%?'' \<inter> set (WorkloadSPIFFEID x) = {}"
    by (auto simp: known_def plain_workloads_def)
  from accepted_format[OF this(1)] this(2) assms(3,4) show "EntrySPIFFEID (fromProtoEntry p) = WorkloadSPIFFEID x"
    by (auto simp: toProtoEntry_Inr fromProtoEntry_def)
  show "EntryHint (fromProtoEntry p) = EntryHint d" "EntryID (fromProtoEntry p) = EntryID d"
    using assms(4) by (auto simp: toProtoEntry_Inr fromProtoEntry_def)
qed

lemma known_owner:
  assumes "known x w" "plain_workloads (workloads (view w))" "EntryHint e = ''wtp-rule:'' @ RuleID x" "EntrySPIFFEID e = WorkloadSPIFFEID x"
    and "y \<in> set (workloads (view w))" "EntrySPIFFEID e = wl_spiffe_id y"
  shows "\<exists>r \<in> set (rules_of w). rr_workload r = wl_id y \<and> ownedByRule e (rr_id r)"
proof -
  from assms(1) obtain r z where r: "r \<in> set (rules_of w)" "z \<in> set (workloads (view w))" "rr_id r = RuleID x" "rr_workload r = wl_id z"
    "WorkloadSPIFFEID x = wl_spiffe_id z" unfolding known_def by blast
  have "z = y" using assms(2,4-6) r(2,5) by (simp add: plain_workloads_def distinct_map inj_on_def)
  with r assms(3) show ?thesis by (intro bexI[of _ r]) (simp_all add: ownedByRule_def ownerHintPrefix_def)
qed

text \<open>A call that puts such an entry in the place of one with its owner, or under a new ID.\<close>

lemma put_advances:
  assumes x: "known x w" "EntryHint e = ''wtp-rule:'' @ RuleID x"
    and spiffe: "plain_workloads (workloads (view w)) \<Longrightarrow> EntrySPIFFEID e = WorkloadSPIFFEID x"
    and held: "spire_entries stored (w\<lparr>pf_spire := s\<rparr>) = (spire_entries stored w)(i \<mapsto> e)" "issued (pf_spire w) \<subseteq> issued s"
    and place: "i \<in> issued (pf_spire w) \<Longrightarrow> \<exists>e0. spire_entries stored w i = Some e0 \<and> EntryHint e0 = EntryHint e"
  shows "advances stored issued w (w\<lparr>pf_spire := s\<rparr>)"
proof (rule spire_advances)
  let ?w = "w\<lparr>pf_spire := s\<rparr>"
  show "owners_kept stored issued w ?w"
    unfolding owners_kept_def held(1) using held(2) place by auto
  have v: "view ?w = view w" by (simp add: view_def)
  show "entries_own stored ?w" if o: "owned_state stored issued w"
    unfolding entries_own_def v held(1)
  proof (intro allI impI ballI)
    have p: "plain_workloads (workloads (view w))" using o by (simp add: owned_state_def)
    fix j e' y assume e': "((spire_entries stored w)(i \<mapsto> e)) j = Some e'" "y \<in> set (workloads (view w))" "EntrySPIFFEID e' = wl_spiffe_id y"
    show "\<exists>r \<in> set (rules_of w). rr_workload r = wl_id y \<and> ownedByRule e' (rr_id r)"
    proof (cases "j = i")
      case True
      with e' known_owner[OF x(1) p x(2) spiffe[OF p]] show ?thesis by auto
    next
      case False
      with e' o show ?thesis unfolding owned_state_def entries_own_def by auto
    qed
  qed
qed

lemma create_advances:
  assumes h: "spire_honest api stored issued" and run: "grpc_CreateEntry (lift_api api) d w = (r, w')"
    and x: "known x w" and d: "EntryID d = []" "EntryHint d = ''wtp-rule:'' @ RuleID x" "EntrySPIFFEID d = WorkloadSPIFFEID x"
  shows "advances stored issued w w' \<and> (\<forall>c. r = Inr c \<longrightarrow> spire_entries stored w' (EntryID (sc_Entry c)) = Some (sc_Entry c))"
proof -
  from honest_create[OF h d(1) run] obtain s where w': "w' = w\<lparr>pf_spire := s\<rparr>"
    and s: "stored s = stored (pf_spire w) \<and> issued s = issued (pf_spire w)
       \<or> (\<exists>i p. toProtoEntry d = Inr p \<and> i \<notin> issued (pf_spire w) \<and> issued s = insert i (issued (pf_spire w))
            \<and> stored s = (stored (pf_spire w))(i \<mapsto> p\<lparr>pe_Id := i\<rparr>))"
    and ans: "\<forall>c. r = Inr c \<longrightarrow> spire_entries stored w' (EntryID (sc_Entry c)) = Some (sc_Entry c)" by blast
  from s have "advances stored issued w (w\<lparr>pf_spire := s\<rparr>)"
  proof (elim disjE exE conjE)
    assume "stored s = stored (pf_spire w)" "issued s = issued (pf_spire w)"
    then show ?thesis
      by (intro fewer_advances) (simp_all add: spire_entries_def)
  next
    fix i p assume p: "toProtoEntry d = Inr p" "i \<notin> issued (pf_spire w)" "issued s = insert i (issued (pf_spire w))"
      "stored s = (stored (pf_spire w))(i \<mapsto> p\<lparr>pe_Id := i\<rparr>)"
    note sent = sent_entry[OF x _ d(3) p(1)]
    have hint: "EntryHint (fromProtoEntry p) = EntryHint d" using p(1) by (auto simp: toProtoEntry_Inr fromProtoEntry_def)
    show ?thesis
    proof (rule put_advances[OF x, of "fromProtoEntry (p\<lparr>pe_Id := i\<rparr>)" _ _ i])
      show "spire_entries stored (w\<lparr>pf_spire := s\<rparr>) = (spire_entries stored w)(i \<mapsto> fromProtoEntry (p\<lparr>pe_Id := i\<rparr>))"
        using spire_entries_update[where w = w, OF p(4)] by simp
    qed (use sent hint d(2) p(2,3) in auto)
  qed
  with w' ans show ?thesis by simp
qed

lemma update_advances:
  assumes h: "spire_honest api stored issued" and run: "grpc_UpdateEntry (lift_api api) e w = (r, w')"
    and x: "known x w" and e: "EntryHint e = ''wtp-rule:'' @ RuleID x" "EntrySPIFFEID e = WorkloadSPIFFEID x"
    and own: "claims stored issued w (EntryID e) (RuleID x)"
  shows "advances stored issued w w' \<and> (\<forall>u. r = Inr u \<longrightarrow> spire_entries stored w' (EntryID u) = Some u)"
proof -
  from honest_update[OF h run] obtain s where w': "w' = w\<lparr>pf_spire := s\<rparr>" and i: "issued s = issued (pf_spire w)"
    and s: "stored s = stored (pf_spire w)
       \<or> (\<exists>p. toProtoEntry e = Inr p \<and> stored (pf_spire w) (pe_Id p) \<noteq> None \<and> stored s = (stored (pf_spire w))(pe_Id p \<mapsto> p))"
    and ans: "\<forall>u. r = Inr u \<longrightarrow> spire_entries stored w' (EntryID u) = Some u" by blast
  from s have "advances stored issued w (w\<lparr>pf_spire := s\<rparr>)"
  proof (elim disjE exE conjE)
    assume "stored s = stored (pf_spire w)"
    with i show ?thesis
      by (intro fewer_advances) (simp_all add: spire_entries_def)
  next
    fix p assume p: "toProtoEntry e = Inr p" "stored (pf_spire w) (pe_Id p) \<noteq> None" "stored s = (stored (pf_spire w))(pe_Id p \<mapsto> p)"
    note sent = sent_entry[OF x _ e(2) p(1)]
    have hint: "EntryHint (fromProtoEntry p) = EntryHint e" and id: "pe_Id p = EntryID e"
      using p(1) by (auto simp: toProtoEntry_Inr fromProtoEntry_def)
    obtain e0 where e0: "spire_entries stored w (pe_Id p) = Some e0" using p(2) by (auto simp: spire_entries_def)
    show ?thesis
    proof (rule put_advances[OF x, of "fromProtoEntry p" _ _ "pe_Id p"])
      show "spire_entries stored (w\<lparr>pf_spire := s\<rparr>) = (spire_entries stored w)(pe_Id p \<mapsto> fromProtoEntry p)"
        using spire_entries_update[where w = w, OF p(3)] by simp
      show "\<exists>e0. spire_entries stored w (pe_Id p) = Some e0 \<and> EntryHint e0 = EntryHint (fromProtoEntry p)"
        using own e0 hint e(1) by (auto simp: id claims_def ownedByRule_def ownerHintPrefix_def)
    qed (use sent hint e(1) i in auto)
  qed
  with w' ans show ?thesis by simp
qed

section \<open>The calls to the database\<close>

lemma update_rows_mem: "x \<in> set (update_rows p g rows) \<longleftrightarrow> (\<exists>r \<in> set rows. x = (if p r then g r else r))"
  by (auto simp: update_rows_def)

lemma update_advances_rows:
  assumes same: "pf_spire w' = pf_spire w" and ok: "good (view w) \<Longrightarrow> good (view w')"
    and rows: "rules_of w' = update_rows p g (rules_of w)" "workloads (view w') = workloads (view w)"
    and keys: "\<And>y. rr_id (g y) = rr_id y" "\<And>y. rr_workload (g y) = rr_workload y" "\<And>y. rr_org (g y) = rr_org y"
    and new: "\<And>y. owned_state stored issued w \<Longrightarrow> y \<in> set (rules_of w) \<Longrightarrow> p y \<Longrightarrow>
      in_int64 (rr_revision (g y)) \<and> (\<forall>i. rr_entry (g y) = Some i \<longrightarrow> claims stored issued w i (rr_id y))"
  shows "advances stored issued w w'"
proof (rule db_advances[OF same _ ok])
  show "rules_kept (view w) (view w')" unfolding rules_kept_def rows(1,2)
  proof (intro conjI ballI refl)
    fix y assume "y \<in> set (rules_of w)"
    then have "(if p y then g y else y) \<in> set (update_rows p g (rules_of w))" unfolding update_rows_mem by blast
    then show "\<exists>y' \<in> set (update_rows p g (rules_of w)). rr_id y' = rr_id y \<and> rr_workload y' = rr_workload y"
      by (rule rev_bexI) (simp add: keys)
  qed
  fix y assume o: "owned_state stored issued w" and "y \<in> set (rules_of w')"
  then obtain y0 where y0: "y0 \<in> set (rules_of w)" "y = (if p y0 then g y0 else y0)" unfolding rows(1) update_rows_mem by blast
  note old = owned_row[OF o y0(1)]
  show "typed y \<and> (\<forall>i. rr_entry y = Some i \<longrightarrow> claims stored issued w i (rr_id y))"
  proof (cases "p y0")
    case True
    with new[OF o y0(1)] y0(2) old(1) show ?thesis by (auto simp: typed_def keys claims_def)
  next
    case False
    with y0(2) old show ?thesis by simp
  qed
qed

lemma db_call:
  assumes "on_db m w = (r, w')"
  shows "m (pf_db w) = (r, pf_db w')" "pf_spire w' = pf_spire w"
  using assms by (auto simp: on_db_def split: prod.splits)

lemma mark_advances:
  assumes run: "on_db (reg_MarkConverged pg (RuleID x) b) w = (r, w')" and x: "known x w"
    and b: "\<And>i. b = Some i \<Longrightarrow> claims stored issued w i (RuleID x)"
  shows "advances stored issued w w'"
proof -
  note db = db_call[OF run]
  have good: "good (view w) \<Longrightarrow> good (view w')"
    using marked_reconciled(1)[of "pf_db w" pg "RuleID x" b] db(1) by (simp add: reconciled_def view_def)
  let ?p = "\<lambda>y. uuid_in (RuleID x) = Some (rr_id y)" and ?g = "converged_row b (pg_now pg (tick (pf_db w)))"
  from reg_MarkConverged_cases[OF db(1)] consider "view w' = view w" | k where "returning_id ?p ?g (view w) = Inr (k, view w')"
    unfolding view_def by blast
  then show ?thesis
  proof cases
    case 1
    with db(2) show ?thesis by (rule same_tables_advances)
  next
    case 2
    then have rows: "rules_of w' = update_rows ?p ?g (rules_of w)" "workloads (view w') = workloads (view w)"
      by (auto simp: returning_id_Inr update_rules_Inr)
    show ?thesis
    proof (rule update_advances_rows[OF db(2) good rows])
      fix y :: rule_row
      assume o: "owned_state stored issued w" and y: "?p y"
      from x obtain r0 where "r0 \<in> set (rules_of w)" "rr_id r0 = RuleID x" unfolding known_def by blast
      then have "uuid_in (RuleID x) = Some (RuleID x)" using owned_row(1)[OF o] by (metis typed_def)
      with y have "rr_id y = RuleID x" by simp
      moreover assume "y \<in> set (rules_of w)"
      ultimately show "in_int64 (rr_revision (?g y)) \<and> (\<forall>i. rr_entry (?g y) = Some i \<longrightarrow> claims stored issued w i (rr_id y))"
        using owned_row(1)[OF o, of y] b by (simp add: typed_def)
    qed simp_all
  qed
qed

lemma mark_error_advances:
  assumes run: "on_db (reg_MarkError pg i code) w = (r, w')"
  shows "advances stored issued w w'"
proof -
  note db = db_call[OF run]
  have good: "good (view w) \<Longrightarrow> good (view w')"
    using marked_reconciled(2)[of "pf_db w" pg i code] db(1) by (simp add: reconciled_def view_def)
  let ?p = "\<lambda>y. uuid_in i = Some (rr_id y)" and ?g = "error_row code (pg_now pg (tick (pf_db w)))"
  from reg_MarkError_cases[OF db(1)] consider "view w' = view w" | k where "returning_id ?p ?g (view w) = Inr (k, view w')"
    unfolding view_def by blast
  then show ?thesis
  proof cases
    case 1
    with db(2) show ?thesis by (rule same_tables_advances)
  next
    case 2
    then have rows: "rules_of w' = update_rows ?p ?g (rules_of w)" "workloads (view w') = workloads (view w)"
      by (auto simp: returning_id_Inr update_rules_Inr)
    show ?thesis
    proof (rule update_advances_rows[OF db(2) good rows])
      fix y assume "owned_state stored issued w" "y \<in> set (rules_of w)"
      from owned_row[OF this] show "in_int64 (rr_revision (?g y)) \<and> (\<forall>i. rr_entry (?g y) = Some i \<longrightarrow> claims stored issued w i (rr_id y))"
        by (simp add: typed_def error_row_def)
    qed (simp_all add: error_row_def)
  qed
qed

lemma audit_advances:
  assumes run: "on_db (Append (pool_queryer pg) (reconcile_event x c operation i)) w = (r, w')"
  shows "advances stored issued w w'"
proof -
  note db = db_call[OF run]
  have good: "good (view w) \<Longrightarrow> good (view w')"
    using audit_reconciled[of "pf_db w" pg x c operation i] db(1) by (simp add: reconciled_def view_def)
  have "view w' = view w \<or> (\<exists>row. logged (view w) row (view w'))"
    using pool_audit.Append_Inr[of pg _ "pf_db w" _ "pf_db w'"] pool_audit.Append_Inl[of pg _ "pf_db w" _ "pf_db w'"] db(1)
    unfolding view_def by (cases r) (simp, blast)+
  then have "rules_of w' = rules_of w" "workloads (view w') = workloads (view w)"
    by (auto simp: with_event_def dest!: logged_with_event)
  then show ?thesis
    by (intro db_advances[OF db(2) _ good]) (use owned_row in \<open>auto simp: rules_kept_def\<close>)
qed

section \<open>Requests\<close>

interpretation spire_untouched: services "platform_server out pg bearer" pf_spire "\<lambda>ep p c v v'. v' = v"
  by unfold_locales (auto simp: platform_server_def dependencies_def http_surroundings_def all_or_nothing_def on_db_def
      split: prod.splits sum.splits)

lemma request_spire: "ServeHTTP (platform_server out pg bearer) req w = (resp, w') \<Longrightarrow> pf_spire w' = pf_spire w"
  using spire_untouched.serve_outcome[of out pg bearer req w] by (auto simp: request_outcome_def)

lemma change_advances:
  assumes same: "pf_spire w' = pf_spire w" and change: "api_change pg ep p c (view w) (view w')" and uu: "canonical_uuids pg"
  shows "advances stored issued w w'"
proof -
  have good: "good (view w) \<Longrightarrow> good (view w')" using api_change_step[OF change uu] by blast
  have keep: "advances stored issued w w'" if "rules_of w' = rules_of w" "workloads (view w') = workloads (view w)"
    by (rule db_advances[OF same _ good]) (use that owned_row in \<open>auto simp: rules_kept_def\<close>)
  from change show ?thesis
  proof cases
    case (rule_create input now res)
    from rule_create(3) obtain mid ev row where i: "insert_rule row (view w) = Inr mid" "rr_id row = mr_ID res"
        "\<exists>s. uuid_in s = Some (rr_org row)" "rr_revision row = 1" "rr_entry row = None"
      and l: "logged mid ev (view w')" and n: "mr_ID res \<in> range (pg_uuid pg)"
      unfolding rule_created_def by (elim exE conjE) (rule that, assumption, simp, force, simp, simp, assumption+)
    have rows: "rules_of w' = rules_of w @ [row]" "workloads (view w') = workloads (view w)"
      using i(1) logged_with_event[OF l] by (auto simp: insert_rule_Inr with_event_def)
    have "uuid_in (rr_id row) = Some (rr_id row)" using n uu i(2) by (auto simp: canonical_uuids_def)
    then have new: "typed row" using i uuid_in_stored by (auto simp: typed_def in_int64_def)
    show ?thesis
      by (rule db_advances[OF same _ good]) (use rows new i(5) owned_row in \<open>auto simp: rules_kept_def\<close>)
  next
    case (rule_replace i input now res)
    let ?g = "replaced_row (string_array (map coerce (rd_Selectors input))) (rd_DesiredState input)
         (rd_ParentSPIFFEID input) (rd_TTL input) now"
    from rule_replace(3) obtain q mid ev where u: "update_rules q ?g (view w) = Inr mid" and l: "logged mid ev (view w')"
      unfolding rule_replaced_def by (elim exE conjE) (rule that)
    note u = u[unfolded update_rules_Inr]
    have rows: "rules_of w' = update_rows q ?g (rules_of w)" "workloads (view w') = workloads (view w)"
      using u logged_with_event[OF l] by (auto simp: with_event_def)
    show ?thesis
    proof (rule update_advances_rows[OF same good rows])
      fix y assume o: "owned_state stored issued w" and y: "y \<in> set (rules_of w)" "q y"
      with u owned_row(2)[OF o y(1)] show "in_int64 (rr_revision (?g y)) \<and> (\<forall>i. rr_entry (?g y) = Some i \<longrightarrow> claims stored issued w i (rr_id y))"
        by (simp add: list_all_iff) (simp add: replaced_row_def)
    qed (simp_all add: replaced_row_def)
  next
    case (policy_create input now res)
    from policy_created_step[OF policy_create(3)] show ?thesis by (intro keep) (auto simp: history_def)
  next
    case (version_append i input now res)
    from version_appended_step[OF version_append(3)] show ?thesis by (intro keep) (auto simp: history_def)
  next
    case (version_activate i input now res)
    from version_activated_step[OF version_activate(2)] show ?thesis by (intro keep) (auto simp: history_def)
  qed
qed

lemma request_advances:
  assumes "canonical_uuids pg" "ServeHTTP (platform_server out pg bearer) req w = (resp, w')"
  shows "advances stored issued w w'"
  using request_kind[OF assms(2)] same_tables_advances[OF request_spire[OF assms(2)]] change_advances[OF request_spire[OF assms(2)] _ assms(1)]
  by blast

end
