(* ===== verification/Spire_Memory.thy ===== *)
theory Spire_Memory
  imports Spire_Works
begin

text \<open>
  A SPIRE server in memory, which shows that \<open>spire_works\<close> can hold: the entries written so far, the
  latest first, and the entry IDs given out.
\<close>

type_synonym spire_memory = "proto_entry list \<times> string list"

definition memory_valid :: "spire_memory \<Rightarrow> proto_entry \<Rightarrow> bool" where
  "memory_valid s p \<longleftrightarrow> pe_Id p \<noteq> [] \<and> text_ok (pe_Id p) \<and> pe_Id p \<in> set (snd s) \<and> proper p"

definition memory_stored :: "spire_memory \<Rightarrow> string \<Rightarrow> proto_entry option" where
  "memory_stored s i = find (\<lambda>p. pe_Id p = i \<and> memory_valid s p) (fst s)"

definition memory_issued :: "spire_memory \<Rightarrow> string set" where
  "memory_issued s = set (snd s)"

definition new_id :: "string list \<Rightarrow> string" where
  "new_id ids = replicate (Suc (sum_list (map length ids))) CHR ''e''"

definition memory_create :: "proto_entry \<Rightarrow> spire_memory \<Rightarrow> entry_result \<times> spire_memory" where
  "memory_create p s =
     (case find (\<lambda>q. memory_stored s (pe_Id q) = Some q \<and> same_registration q p) (fst s) of
        Some q \<Rightarrow> (\<lparr>er_Status = Some codes_AlreadyExists, er_Entry = Some q\<rparr>, s)
      | None \<Rightarrow> (let q = p\<lparr>pe_Id := new_id (snd s)\<rparr> in
          (\<lparr>er_Status = Some codes_OK, er_Entry = Some q\<rparr>, (q # fst s, new_id (snd s) # snd s))))"

definition memory_api :: "spire_memory entry_api" where
  "memory_api = \<lparr>
     api_GetEntry = (\<lambda>i m s. (case memory_stored s i of None \<Rightarrow> Inl (RpcStatus codes_NotFound) | Some p \<Rightarrow> Inr p, s)),
     api_BatchCreateEntry = (\<lambda>es m s. case es of
         [p] \<Rightarrow> if \<not> proper p then (Inl (RpcStatus 3), s) else (case memory_create p s of (r, s') \<Rightarrow> (Inr [r], s'))
       | _ \<Rightarrow> (Inr [], s)),
     api_BatchUpdateEntry = (\<lambda>es im om s. case es of
         [p] \<Rightarrow> if \<not> proper p then (Inl (RpcStatus 3), s)
           else if memory_stored s (pe_Id p) = None then (Inr [\<lparr>er_Status = Some codes_NotFound, er_Entry = None\<rparr>], s)
           else (Inr [\<lparr>er_Status = Some codes_OK, er_Entry = Some p\<rparr>], (p # fst s, snd s))
       | _ \<Rightarrow> (Inr [], s)),
     api_BatchDeleteEntry = (\<lambda>ids s. case ids of
         [i] \<Rightarrow> if memory_stored s i = None then (Inr [Some codes_NotFound], s)
           else (Inr [Some codes_OK], (filter (\<lambda>q. pe_Id q \<noteq> i) (fst s), snd s))
       | _ \<Rightarrow> (Inr [], s))\<rparr>"

lemma memory_stored_Some:
  "memory_stored s i = Some p \<Longrightarrow> pe_Id p = i \<and> memory_valid s p \<and> p \<in> set (fst s)"
  unfolding memory_stored_def by (drule find_Some_mem) auto

lemma new_id_new: "new_id ids \<notin> set ids" "new_id ids \<noteq> []" "text_ok (new_id ids)"
proof -
  have "length x \<le> sum_list (map length ids)" if "x \<in> set ids" for x using that by (induction ids) auto
  then show "new_id ids \<notin> set ids" by (fastforce simp: new_id_def simp del: replicate_Suc)
  show "new_id ids \<noteq> []" by (simp add: new_id_def)
  have "char_of (0::nat) \<noteq> CHR ''e''" by code_simp
  then show "text_ok (new_id ids)" by (auto simp: new_id_def text_ok_def ascii_valid_utf8 is_ascii_def byte_def list_all_iff)
qed

lemma proper_pe_Id [simp]: "proper (p\<lparr>pe_Id := i\<rparr>) = proper p"
  by (simp add: proper_iff)

lemma memory_stored_Cons:
  "memory_valid s p \<Longrightarrow> memory_stored (p # fst s, snd s) = (memory_stored s)(pe_Id p \<mapsto> p)"
  by (auto simp: memory_stored_def memory_valid_def fun_eq_iff)

lemma memory_stored_new:
  assumes "proper p" "pe_Id p = new_id (snd s)"
  shows "memory_stored (p # fst s, new_id (snd s) # snd s) = (memory_stored s)(new_id (snd s) \<mapsto> p)"
proof
  fix i
  have "(\<lambda>q. pe_Id q = i \<and> memory_valid (p # fst s, new_id (snd s) # snd s) q) = (\<lambda>q. pe_Id q = i \<and> memory_valid s q)"
    if "i \<noteq> new_id (snd s)" using that by (auto simp: memory_valid_def fun_eq_iff)
  then show "memory_stored (p # fst s, new_id (snd s) # snd s) i = ((memory_stored s)(new_id (snd s) \<mapsto> p)) i"
    using assms new_id_new by (auto simp: memory_stored_def memory_valid_def)
qed

lemma memory_stored_filter: "memory_stored (filter (\<lambda>q. pe_Id q \<noteq> i) (fst s), snd s) = (memory_stored s)(i := None)"
proof
  fix j
  have v: "memory_valid (xs, snd s) q = memory_valid s q" for xs q by (simp add: memory_valid_def)
  have "find (\<lambda>p. pe_Id p = j \<and> memory_valid s p) (filter (\<lambda>q. pe_Id q \<noteq> i) xs)
      = (if i = j then None else find (\<lambda>p. pe_Id p = j \<and> memory_valid s p) xs)" for xs
    by (induction xs) auto
  then show "memory_stored (filter (\<lambda>q. pe_Id q \<noteq> i) (fst s), snd s) j = ((memory_stored s)(i := None)) j"
    by (simp add: memory_stored_def v)
qed

lemma memory_create_found:
  assumes "memory_stored s i = Some q" "same_registration q p"
  obtains r where "memory_create p s = (\<lparr>er_Status = Some codes_AlreadyExists, er_Entry = Some r\<rparr>, s)"
    "memory_stored s (pe_Id r) = Some r" "same_registration r p"
proof -
  let ?f = "find (\<lambda>q. memory_stored s (pe_Id q) = Some q \<and> same_registration q p) (fst s)"
  have "?f \<noteq> None" using memory_stored_Some[OF assms(1)] assms by (auto simp: find_None_iff)
  then obtain r where r: "?f = Some r" by auto
  from find_Some_mem[OF r] r that show ?thesis by (simp add: memory_create_def)
qed

lemma memory_create_new:
  assumes "\<not> (\<exists>i q. memory_stored s i = Some q \<and> same_registration q p)"
  shows "memory_create p s = (\<lparr>er_Status = Some codes_OK, er_Entry = Some (p\<lparr>pe_Id := new_id (snd s)\<rparr>)\<rparr>,
    (p\<lparr>pe_Id := new_id (snd s)\<rparr> # fst s, new_id (snd s) # snd s))"
proof -
  have "find (\<lambda>q. memory_stored s (pe_Id q) = Some q \<and> same_registration q p) (fst s) = None"
    using assms by (auto simp: find_None_iff)
  then show ?thesis by (simp add: memory_create_def Let_def)
qed

lemma memory_api_works: "spire_works memory_api memory_stored memory_issued"
  unfolding spire_works_def
proof (intro conjI allI impI)
  fix s p
  assume p: "pe_Id p = []" "proper p"
  show "if \<exists>i q. memory_stored s i = Some q \<and> same_registration q p
       then \<exists>q s'. api_BatchCreateEntry memory_api [p] fullOutputMask s
           = (Inr [\<lparr>er_Status = Some codes_AlreadyExists, er_Entry = Some q\<rparr>], s')
         \<and> memory_stored s (pe_Id q) = Some q \<and> same_registration q p \<and> memory_stored s' = memory_stored s \<and> memory_issued s' = memory_issued s
       else \<exists>i s'. i \<noteq> [] \<and> text_ok i \<and> i \<notin> memory_issued s \<and> api_BatchCreateEntry memory_api [p] fullOutputMask s
           = (Inr [\<lparr>er_Status = Some codes_OK, er_Entry = Some (p\<lparr>pe_Id := i\<rparr>)\<rparr>], s')
         \<and> memory_stored s' = (memory_stored s)(i \<mapsto> p\<lparr>pe_Id := i\<rparr>) \<and> memory_issued s' = insert i (memory_issued s)"
  proof (cases "\<exists>i q. memory_stored s i = Some q \<and> same_registration q p")
    case True
    then obtain i q where "memory_stored s i = Some q" "same_registration q p" by blast
    from memory_create_found[OF this] obtain r where "memory_create p s = (\<lparr>er_Status = Some codes_AlreadyExists, er_Entry = Some r\<rparr>, s)"
      "memory_stored s (pe_Id r) = Some r" "same_registration r p" by blast
    with True p(2) show ?thesis by (auto simp: memory_api_def)
  next
    case False
    let ?q = "p\<lparr>pe_Id := new_id (snd s)\<rparr>"
    show ?thesis using False memory_create_new[OF False] new_id_new[of "snd s"] memory_stored_new[of ?q s] p(2)
      by (auto simp: memory_api_def memory_issued_def)
  qed
next
  fix s p
  assume p: "memory_stored s (pe_Id p) \<noteq> None" "proper p"
  then have "memory_valid s p" by (auto simp: memory_valid_def dest!: memory_stored_Some)
  with p memory_stored_Cons show "\<exists>s'. api_BatchUpdateEntry memory_api [p] update_input_mask fullOutputMask s
      = (Inr [\<lparr>er_Status = Some codes_OK, er_Entry = Some p\<rparr>], s') \<and> memory_stored s' = (memory_stored s)(pe_Id p \<mapsto> p)
      \<and> memory_issued s' = memory_issued s"
    by (auto simp: memory_api_def memory_issued_def)
next
  fix s i
  assume "memory_stored s i \<noteq> None"
  then show "\<exists>s'. api_BatchDeleteEntry memory_api [i] s = (Inr [Some codes_OK], s') \<and> memory_stored s' = (memory_stored s)(i := None)
      \<and> memory_issued s' = memory_issued s"
    by (auto simp: memory_api_def memory_issued_def memory_stored_filter)
qed (auto simp: memory_api_def memory_issued_def memory_valid_def dest!: memory_stored_Some)

end
