(* ===== verification/Convergence.thy ===== *)
theory Convergence
  imports Platform_Works Spire_Memory System_Properties
begin

text \<open>
  A pass of the reconciler over the platform when its surroundings work: rule by rule the stored
  rows reach \<open>converged\<close>, SPIRE's entries reach what the rows want, and a second pass has nothing
  to do. The lemmas follow the loop of \<open>Run\<close>: one rule, then the list of rules, then the pass.
\<close>

section \<open>The rules of a table\<close>

definition rule_of :: "workload_row list \<Rightarrow> rule_row \<Rightarrow> Rule" where
  "rule_of wls r = the (scan_rule (r, wl_spiffe_id (the (find (\<lambda>w. wl_id w = rr_workload r) wls))))"

lemma rule_of_sel:
  assumes "Unmarshal_strings (rr_selectors r) \<noteq> None"
  shows "RuleID (rule_of wls r) = rr_id r" "RuleOrganizationID (rule_of wls r) = rr_org r"
    "DesiredState (rule_of wls r) = rr_desired r" "SPIREEntryID (rule_of wls r) = rr_entry r"
    "ReconcileStatus (rule_of wls r) = rr_status r" "same_rule r (rule_of wls r)"
  using assms by (auto simp: rule_of_def scan_rule_def same_rule_def)

lemma rule_of_workload:
  "Unmarshal_strings (rr_selectors r) \<noteq> None \<Longrightarrow> find (\<lambda>w. wl_id w = rr_workload r) wls = Some w \<Longrightarrow> WorkloadSPIFFEID (rule_of wls r) = wl_spiffe_id w"
  by (auto simp: rule_of_def scan_rule_def)

lemma rule_of_marked:
  assumes "Unmarshal_strings (rr_selectors r) \<noteq> None"
  shows "wanted (rule_of wls (converged_row b now r)) = wanted (rule_of wls r)"
    "acceptable (rule_of wls (converged_row b now r)) = acceptable (rule_of wls r)"
  using assms by (auto simp: rule_of_def scan_rule_def wanted_def acceptable_def)

lemma converged_row_twice [simp]: "converged_row b now (converged_row b0 now0 r) = converged_row b now r"
  by (simp add: converged_row_def)

text \<open>A row that has converged: SPIRE holds what it wants, under the entry it is bound to.\<close>

definition settled_row :: "('sp \<Rightarrow> string \<Rightarrow> proto_entry option) \<Rightarrow> workload_row list \<Rightarrow> 'sp platform \<Rightarrow> rule_row \<Rightarrow> bool" where
  "settled_row stored wls w r \<longleftrightarrow> rr_status r = ''converged''
     \<and> (if rr_desired r = ''present''
        then \<exists>i e. rr_entry r = Some i \<and> spire_entries stored w i = Some e \<and> entriesEquivalent e (wanted (rule_of wls r))
        else rr_entry r = None)"

text \<open>What a run on a rule changes in SPIRE: entries that were the rule's own become what it wants, or go.\<close>

definition only_own :: "('sp \<Rightarrow> string \<Rightarrow> proto_entry option) \<Rightarrow> Rule \<Rightarrow> 'sp platform \<Rightarrow> 'sp platform \<Rightarrow> bool" where
  "only_own stored rule w w' \<longleftrightarrow> (\<forall>i. spire_entries stored w' i = spire_entries stored w i
     \<or> (\<forall>e. spire_entries stored w i = Some e \<longrightarrow> ownedByRule e (RuleID rule))
       \<and> (\<forall>e. spire_entries stored w' i = Some e \<longrightarrow> ownedByRule e (RuleID rule) \<and> same_key e (wanted rule)))"

definition removed :: "rule_row \<Rightarrow> string set" where
  "removed r = (if rr_desired r = ''present'' then {} else set_option (rr_entry r))"

section \<open>One rule\<close>

lemma steady_less: "steady pg stored issued wls rows gone k w \<Longrightarrow> j \<le> k \<Longrightarrow> steady pg stored issued wls rows gone j w"
  using serves_less by (auto simp: steady_def)

lemma steady_gone:
  "steady pg stored issued wls rows gone k w \<Longrightarrow> \<forall>i \<in> G. i \<in> issued (pf_spire w) \<and> spire_entries stored w i = None
     \<Longrightarrow> steady pg stored issued wls rows (gone \<union> G) k w"
  by (auto simp: steady_def deleted_def)

text \<open>The end of a run, as the interface gives it, in terms of the table.\<close>

lemma finished_rows:
  assumes fin: "on_platform.finished out pg api stored issued wls rows gone (rule_of wls r) cid k w' b"
    and r: "r \<in> set rows" "Unmarshal_strings (rr_selectors r) \<noteq> None" "distinct (map rr_id rows)"
    and b: "\<And>i. b = Some i \<Longrightarrow> \<exists>e. spire_entries stored w' i = Some e \<and> ownedByRule e (rr_id r)"
  shows "\<exists>rows'. steady pg stored issued wls rows' gone k w' \<and> (rows' = rows \<or> (\<exists>now. rows' = mark_rows (rr_id r) b now rows))
    \<and> (\<forall>x \<in> set rows'. rr_id x = rr_id r \<longrightarrow> (x = r \<or> (\<exists>now. x = converged_row b now r)) \<and> rr_status x = ''converged'' \<and> rr_entry x = b)
    \<and> (\<forall>i. rr_entry r = Some i \<longrightarrow> i \<in> issued (pf_spire w'))"
proof -
  note sel = rule_of_sel[OF r(2)]
  have bound: "\<forall>i. rr_entry r = Some i \<longrightarrow> i \<in> issued (pf_spire v)" if "prepared pg api stored issued wls rows gone rule cid j v" for rule j v
    using that r(1) by (auto simp: prepared_def steady_def bound_own_def)
  have only: "x = r" if "x \<in> set rows" "rr_id x = rr_id r" for x
    using that r(1,3) by (metis distinct_map inj_onD)
  from fin consider (mark) w0 where "prepared pg api stored issued wls rows gone (rule_of wls r) cid (Suc k) w0"
      "spire_entries stored w0 = spire_entries stored w'" "on_db (reg_MarkConverged pg (rr_id r) b) w0 = (Inr (), w')"
    | (same) "prepared pg api stored issued wls rows gone (rule_of wls r) cid (Suc (Suc k)) w'" "rr_entry r = b" "rr_status r = ''converged''"
    unfolding on_platform.finished_def by (auto simp: sel)
  then show ?thesis
  proof cases
    case mark
    from prepared_marks[OF mark(1), of b] b mark(2,3) obtain now where
      "steady pg stored issued wls (mark_rows (rr_id r) b now rows) gone k w'" "pf_spire w' = pf_spire w0" by (auto simp: sel)
    moreover have "x = converged_row b now r" if "x \<in> set (mark_rows (rr_id r) b now rows)" "rr_id x = rr_id r" for x
      using that only by (auto simp: mark_rows_mem split: if_splits)
    ultimately show ?thesis using bound[OF mark(1)]
      by (intro exI[of _ "mark_rows (rr_id r) b now rows"]) (metis converged_row_sel(5,6))
  next
    case same
    then have "steady pg stored issued wls rows gone (Suc (Suc k)) w'" by (simp add: prepared_def)
    then have "steady pg stored issued wls rows gone k w'" by (rule steady_less) simp
    then show ?thesis using only same bound[OF same(1)] by (intro exI[of _ rows]) auto
  qed
qed

lemma prepared_owns:
  assumes "prepared pg api stored issued wls rows gone (rule_of wls r) cid k w" "r \<in> set rows" "Unmarshal_strings (rr_selectors r) \<noteq> None"
    and "\<And>i e. rr_desired r = ''present'' \<Longrightarrow> spire_entries stored w i = Some e \<Longrightarrow> same_key e (wanted (rule_of wls r)) \<Longrightarrow> ownedByRule e (rr_id r)"
  shows "on_platform.owns stored (rule_of wls r) w"
  using assms(1,2,4) unfolding on_platform.owns_def rule_of_sel[OF assms(3)]
  by (auto simp: prepared_def steady_def bound_own_def)

text \<open>One run on a rule of the table: its row has settled, the other rows and other owners' entries are kept.\<close>

definition row_settles :: "pg \<Rightarrow> ('sp \<Rightarrow> string \<Rightarrow> proto_entry option) \<Rightarrow> ('sp \<Rightarrow> string set) \<Rightarrow> workload_row list \<Rightarrow> rule_row list
    \<Rightarrow> string set \<Rightarrow> nat \<Rightarrow> rule_row \<Rightarrow> 'sp platform \<Rightarrow> 'sp platform \<Rightarrow> rule_row list \<Rightarrow> bool" where
  "row_settles pg stored issued wls rows gone k r w w' rows' \<longleftrightarrow> steady pg stored issued wls rows' (gone \<union> removed r) k w'
     \<and> (rows' = rows \<or> (\<exists>b now. rows' = mark_rows (rr_id r) b now rows))
     \<and> (\<forall>x \<in> set rows'. rr_id x = rr_id r \<longrightarrow> settled_row stored wls w' x) \<and> only_own stored (rule_of wls r) w w'"

lemma present_rule_settles:
  assumes ok: "prepared pg api stored issued wls rows gone (rule_of wls r) cid (Suc (Suc k)) w"
    and r: "r \<in> set rows" "Unmarshal_strings (rr_selectors r) \<noteq> None" "distinct (map rr_id rows)"
    and present: "rr_desired r = ''present''" "acceptable (rule_of wls r)" and own: "on_platform.owns stored (rule_of wls r) w"
  shows "\<exists>ch w' rows'. reconcileRule (platform_service out pg api) (rule_of wls r) cid w = (Inr ch, w')
    \<and> row_settles pg stored issued wls rows gone k r w w' rows'"
proof -
  let ?rule = "rule_of wls r" and ?held = "spire_entries stored"
  note sel = rule_of_sel[OF r(2)]
  from on_platform.reconcilePresent_settles[OF ok present(2) own] obtain ch w' i e where
    run: "reconcilePresent (platform_service out pg api) ?rule cid w = (Inr ch, w')"
    and e: "?held w' i = Some e" "entriesEquivalent e (wanted ?rule)" and frame: "\<forall>j. j \<noteq> i \<longrightarrow> ?held w' j = ?held w j"
    and old: "\<forall>e0. ?held w i = Some e0 \<longrightarrow> ownedByRule e0 (rr_id r)"
    and fin: "on_platform.finished out pg api stored issued wls rows gone ?rule cid k w' (Some i)"
    unfolding on_platform.settled_def sel by blast
  have o: "ownedByRule e (rr_id r)" "same_key e (wanted ?rule)"
    using e(2) by (auto simp: equivalent_iff ownedByRule_def ownerHintPrefix_def wanted_def sel)
  from finished_rows[OF fin r] e(1) o(1) obtain rows' where
    rows': "steady pg stored issued wls rows' gone k w'" "rows' = rows \<or> (\<exists>now. rows' = mark_rows (rr_id r) (Some i) now rows)"
    "\<forall>x \<in> set rows'. rr_id x = rr_id r \<longrightarrow> (x = r \<or> (\<exists>now. x = converged_row (Some i) now r)) \<and> rr_status x = ''converged'' \<and> rr_entry x = Some i"
    by auto
  have "settled_row stored wls w' x" if "x \<in> set rows'" "rr_id x = rr_id r" for x
    using rows'(3) that e present(1) rule_of_marked(1)[OF r(2)] by (auto simp: settled_row_def)
  moreover have "only_own stored ?rule w w'" unfolding only_own_def sel
    using frame old e(1) o by (metis option.inject)
  ultimately show ?thesis using run present(1) rows'(1,2)
    by (intro exI[of _ ch] exI[of _ w'] exI[of _ rows']) (auto simp: row_settles_def reconcileRule_def sel removed_def)
qed

lemma absent_rule_settles:
  assumes ok: "prepared pg api stored issued wls rows gone (rule_of wls r) cid (Suc (Suc k)) w"
    and r: "r \<in> set rows" "Unmarshal_strings (rr_selectors r) \<noteq> None" "distinct (map rr_id rows)"
    and absent: "rr_desired r = ''absent''" and own: "on_platform.owns stored (rule_of wls r) w"
  shows "\<exists>ch w' rows'. reconcileRule (platform_service out pg api) (rule_of wls r) cid w = (Inr ch, w')
    \<and> row_settles pg stored issued wls rows gone k r w w' rows'"
proof -
  let ?rule = "rule_of wls r" and ?held = "spire_entries stored"
  note sel = rule_of_sel[OF r(2)]
  from on_platform.reconcileAbsent_settles[OF ok own] obtain ch w' where
    run: "reconcileAbsent (platform_service out pg api) ?rule cid w = (Inr ch, w')"
    and fin: "on_platform.finished out pg api stored issued wls rows gone ?rule cid k w' None"
    and held: "?held w' = (case rr_entry r of None \<Rightarrow> ?held w | Some i \<Rightarrow> (?held w)(i := None))"
    unfolding sel by blast
  from finished_rows[OF fin r] obtain rows' where
    rows': "steady pg stored issued wls rows' gone k w'" "rows' = rows \<or> (\<exists>now. rows' = mark_rows (rr_id r) None now rows)"
    "\<forall>x \<in> set rows'. rr_id x = rr_id r \<longrightarrow> (x = r \<or> (\<exists>now. x = converged_row None now r)) \<and> rr_status x = ''converged'' \<and> rr_entry x = None"
    "\<forall>i. rr_entry r = Some i \<longrightarrow> i \<in> issued (pf_spire w')" by auto
  have "settled_row stored wls w' x" if "x \<in> set rows'" "rr_id x = rr_id r" for x
    using rows'(3) that absent by (auto simp: settled_row_def)
  moreover have "only_own stored ?rule w w'"
    using held ok r(1) by (auto simp: only_own_def sel prepared_def steady_def bound_own_def split: option.splits)
  moreover have "steady pg stored issued wls rows' (gone \<union> removed r) k w'"
    by (rule steady_gone[OF rows'(1)]) (use held rows'(4) in \<open>auto simp: removed_def\<close>)
  ultimately show ?thesis using run absent rows'(2)
    by (intro exI[of _ ch] exI[of _ w'] exI[of _ rows']) (auto simp: row_settles_def reconcileRule_def sel)
qed

lemma rule_settles:
  assumes works: "spire_works api stored issued" and cid: "text_ok cid" "cid \<noteq> []"
    and st: "steady pg stored issued wls rows gone (Suc (Suc k)) w" and r: "r \<in> set rows" "Unmarshal_strings (rr_selectors r) \<noteq> None"
    and acc: "rr_desired r = ''present'' \<Longrightarrow> acceptable (rule_of wls r)"
    and key: "\<And>i e. rr_desired r = ''present'' \<Longrightarrow> spire_entries stored w i = Some e \<Longrightarrow> same_key e (wanted (rule_of wls r)) \<Longrightarrow> ownedByRule e (rr_id r)"
  shows "\<exists>ch w' rows'. reconcileRule (platform_service out pg api) (rule_of wls r) cid w = (Inr ch, w')
    \<and> row_settles pg stored issued wls rows gone k r w w' rows'"
proof -
  have "schema_ok (tables (pf_db w))" "registration_rules (tables (pf_db w)) = rows" using st by (simp_all add: steady_def)
  then have t: "distinct (map rr_id rows)" "rr_desired r = ''present'' \<or> rr_desired r = ''absent''"
    using r(1) by (auto simp: schema_ok_def rule_uniques_def list_all_iff rule_checks_def)
  have ok: "prepared pg api stored issued wls rows gone (rule_of wls r) cid (Suc (Suc k)) w"
    using works cid st r(1) rule_of_sel(6)[OF r(2)] unfolding prepared_def by blast
  have own: "on_platform.owns stored (rule_of wls r) w" by (rule prepared_owns[OF ok r]) (rule key)
  from t(2) show ?thesis
  proof
    assume present: "rr_desired r = ''present''"
    show ?thesis by (rule present_rule_settles[OF ok r t(1) present acc[OF present] own])
  next
    assume absent: "rr_desired r = ''absent''"
    show ?thesis by (rule absent_rule_settles[OF ok r t(1) absent own])
  qed
qed

section \<open>The loop over the rules\<close>

definition keys_own :: "('sp \<Rightarrow> string \<Rightarrow> proto_entry option) \<Rightarrow> workload_row list \<Rightarrow> rule_row list \<Rightarrow> 'sp platform \<Rightarrow> bool" where
  "keys_own stored wls rows w \<longleftrightarrow> (\<forall>r \<in> set rows. rr_desired r = ''present'' \<longrightarrow> (\<forall>i e. spire_entries stored w i = Some e
     \<longrightarrow> same_key e (wanted (rule_of wls r)) \<longrightarrow> ownedByRule e (rr_id r)))"

definition marked :: "rule_row \<Rightarrow> rule_row \<Rightarrow> bool" where
  "marked r r' \<longleftrightarrow> r' = r \<or> (\<exists>b now. r' = converged_row b now r)"

definition marked_from :: "rule_row list \<Rightarrow> rule_row list \<Rightarrow> bool" where
  "marked_from rows rows' \<longleftrightarrow> list_all2 marked rows rows'"

definition decodable :: "rule_row \<Rightarrow> bool" where
  "decodable r \<longleftrightarrow> Unmarshal_strings (rr_selectors r) \<noteq> None"

lemma marked_trans: "marked a b \<Longrightarrow> marked b c \<Longrightarrow> marked a c"
  unfolding marked_def by (metis converged_row_twice)

lemma marked_from_refl [simp]: "marked_from rows rows"
  by (simp add: marked_from_def marked_def list_all2_same)

lemma marked_from_rows: "marked_from rows (mark_rows i b now rows)"
  by (auto simp: marked_from_def marked_def mark_rows_def update_rows_def list_all2_map2 list_all2_same)

lemma marked_from_trans: "marked_from a b \<Longrightarrow> marked_from b c \<Longrightarrow> marked_from a c"
  unfolding marked_from_def by (rule list_all2_trans[of marked marked marked]) (rule marked_trans)

lemma marked_from_mem: "marked_from rows rows' \<Longrightarrow> r' \<in> set rows' \<Longrightarrow> \<exists>r \<in> set rows. marked r r'"
  "marked_from rows rows' \<Longrightarrow> r \<in> set rows \<Longrightarrow> \<exists>r' \<in> set rows'. marked r r'"
  unfolding marked_from_def by (induction rows rows' rule: list_all2_induct) auto

lemma marked_from_decodable: "marked_from rows rows' \<Longrightarrow> list_all decodable rows \<Longrightarrow> list_all decodable rows'"
  by (auto simp: list_all_iff decodable_def marked_def dest!: marked_from_mem(1))

text \<open>What a run on one rule leaves as it was for the others.\<close>

lemma keys_own_step:
  assumes "keys_own stored wls todo w" "only_own stored (rule_of wls r) w w'"
    and "\<And>x. x \<in> set todo \<Longrightarrow> WorkloadSPIFFEID (rule_of wls x) \<noteq> WorkloadSPIFFEID (rule_of wls r)"
  shows "keys_own stored wls todo w'"
  unfolding keys_own_def
proof (intro ballI allI impI)
  fix x i e
  assume x: "x \<in> set todo" "rr_desired x = ''present''" "spire_entries stored w' i = Some e" "same_key e (wanted (rule_of wls x))"
  from assms(3)[OF x(1)] x(4) have "\<not> same_key e (wanted (rule_of wls r))" by (auto simp: same_key_def wanted_def)
  with assms(2) x(3) have "spire_entries stored w i = Some e" unfolding only_own_def by metis
  with assms(1) x show "ownedByRule e (rr_id x)" by (auto simp: keys_own_def)
qed

lemma settled_row_step:
  assumes "settled_row stored wls w x" "only_own stored rule w w'" "decodable x" "rr_id x \<noteq> RuleID rule"
  shows "settled_row stored wls w' x"
proof -
  have "spire_entries stored w' i = Some e"
    if e: "spire_entries stored w i = Some e" "entriesEquivalent e (wanted (rule_of wls x))" for i e
  proof -
    have "EntryHint e = ''wtp-rule:'' @ rr_id x"
      using e(2) assms(3) by (simp add: equivalent_iff) (simp add: wanted_def rule_of_sel decodable_def)
    then have "\<not> ownedByRule e (RuleID rule)" using assms(4) by (simp add: ownedByRule_def ownerHintPrefix_def)
    with assms(2) e(1) show ?thesis unfolding only_own_def by metis
  qed
  with assms(1) show ?thesis by (auto simp: settled_row_def split: if_splits)
qed

lemma others_kept:
  assumes "rows' = rows \<or> (\<exists>b now. rows' = mark_rows i b now rows)" "rr_id x \<noteq> i"
  shows "x \<in> set rows' \<longleftrightarrow> x \<in> set rows"
  using assms by (auto simp: mark_rows_mem)

lemma only_own_keeps:
  assumes "only_own stored rule w w'" "spire_entries stored w i = Some e" "\<not> ownedByRule e (RuleID rule)"
  shows "spire_entries stored w' i = Some e"
  using assms unfolding only_own_def by metis

text \<open>What holds in the loop: the rules to come are as they were listed, the other rows have settled.\<close>

definition remaining :: "('sp \<Rightarrow> string \<Rightarrow> proto_entry option) \<Rightarrow> workload_row list \<Rightarrow> rule_row list \<Rightarrow> rule_row list \<Rightarrow> 'sp platform \<Rightarrow> bool" where
  "remaining stored wls rows todo w \<longleftrightarrow> set todo \<subseteq> set rows \<and> distinct (map rr_id todo) \<and> list_all decodable rows
     \<and> inj_on (\<lambda>r. WorkloadSPIFFEID (rule_of wls r)) (set todo)
     \<and> (\<forall>r \<in> set todo. rr_desired r = ''present'' \<longrightarrow> acceptable (rule_of wls r)) \<and> keys_own stored wls todo w
     \<and> (\<forall>x \<in> set rows. x \<in> set todo \<or> settled_row stored wls w x)"

lemma remaining_step:
  assumes rem: "remaining stored wls rows (r # todo) w" and run: "row_settles pg stored issued wls rows gone k r w w1 rows1"
  shows "remaining stored wls rows1 todo w1" "marked_from rows rows1"
proof -
  have rows1: "rows1 = rows \<or> (\<exists>b now. rows1 = mark_rows (rr_id r) b now rows)"
    and here: "\<forall>x \<in> set rows1. rr_id x = rr_id r \<longrightarrow> settled_row stored wls w1 x" and only: "only_own stored (rule_of wls r) w w1"
    using run by (simp_all add: row_settles_def)
  note other = others_kept[OF rows1] and R = rem[unfolded remaining_def]
  have r: "r \<in> set rows" "decodable r" using R by (auto simp: list_all_iff)
  have id: "RuleID (rule_of wls r) = rr_id r" using rule_of_sel(1) r(2) by (simp add: decodable_def)
  have todo: "rr_id x \<noteq> rr_id r" if "x \<in> set todo" for x using R imageI[OF that, of rr_id] by auto
  show from1: "marked_from rows rows1" using rows1 marked_from_rows by auto
  have "keys_own stored wls todo w" using R by (simp add: keys_own_def)
  then have "keys_own stored wls todo w1"
    by (rule keys_own_step[OF _ only]) (use R in \<open>force simp: inj_on_def\<close>)
  moreover have "x \<in> set todo \<or> settled_row stored wls w1 x" if x: "x \<in> set rows1" for x
  proof (cases "rr_id x = rr_id r")
    case True
    with here x show ?thesis by simp
  next
    case False
    with other x have "x \<in> set rows" by simp
    with R False settled_row_step[OF _ only, of wls x] show ?thesis by (auto simp: list_all_iff id)
  qed
  moreover have "set todo \<subseteq> set rows1" using R todo other by auto
  ultimately show "remaining stored wls rows1 todo w1"
    using R marked_from_decodable[OF from1] by (auto simp: remaining_def)
qed

lemma remaining_run:
  assumes "spire_works api stored issued" "text_ok cid" "cid \<noteq> []" "remaining stored wls rows (r # todo) w"
    and "steady pg stored issued wls rows gone (Suc (Suc k)) w"
  shows "\<exists>ch w1 rows1. reconcileRule (platform_service out pg api) (rule_of wls r) cid w = (Inr ch, w1)
    \<and> row_settles pg stored issued wls rows gone k r w w1 rows1"
proof (rule rule_settles[OF assms(1-3,5)])
  show "r \<in> set rows" "Unmarshal_strings (rr_selectors r) \<noteq> None" "rr_desired r = ''present'' \<Longrightarrow> acceptable (rule_of wls r)"
    using assms(4) by (auto simp: remaining_def list_all_iff decodable_def)
  show "ownedByRule e (rr_id r)" if "rr_desired r = ''present''" "spire_entries stored w i = Some e" "same_key e (wanted (rule_of wls r))" for i e
    using assms(4) that by (auto simp: remaining_def keys_own_def)
qed

text \<open>The loop.\<close>

lemma rules_settle:
  assumes works: "spire_works api stored issued" and cid: "text_ok cid" "cid \<noteq> []"
  shows "remaining stored wls rows todo w \<Longrightarrow> steady pg stored issued wls rows gone (2 * length todo + k) w
    \<Longrightarrow> \<exists>n w' rows'. run_rules (platform_service out pg api) cid (map (rule_of wls) todo) (summary, errs) w
          = ((summary\<lparr>Converged := Converged summary + int (length todo), Changed := n\<rparr>, errs), w')
      \<and> steady pg stored issued wls rows' (gone \<union> \<Union> (removed ` set todo)) k w' \<and> marked_from rows rows'
      \<and> (\<forall>x \<in> set rows'. settled_row stored wls w' x)
      \<and> (\<forall>i e. spire_entries stored w i = Some e \<longrightarrow> (\<forall>r \<in> set todo. \<not> ownedByRule e (rr_id r)) \<longrightarrow> spire_entries stored w' i = Some e)"
proof (induction todo arbitrary: rows gone w summary)
  case Nil
  then show ?case by (intro exI[of _ "Changed summary"] exI[of _ w] exI[of _ rows]) (simp add: remaining_def)
next
  case (Cons r todo)
  let ?held = "spire_entries stored"
  have "steady pg stored issued wls rows gone (Suc (Suc (2 * length todo + k))) w" using Cons.prems(2) by simp
  from remaining_run[where out = out, OF works cid Cons.prems(1) this] obtain ch w1 rows1 where
    run: "reconcileRule (platform_service out pg api) (rule_of wls r) cid w = (Inr ch, w1)"
    and row: "row_settles pg stored issued wls rows gone (2 * length todo + k) r w w1 rows1" by blast
  note step = remaining_step[OF Cons.prems(1) row]
  have st1: "steady pg stored issued wls rows1 (gone \<union> removed r) (2 * length todo + k) w1" and only: "only_own stored (rule_of wls r) w w1"
    using row by (simp_all add: row_settles_def)
  from Cons.IH[OF step(1) st1, of "summary\<lparr>Converged := Converged summary + 1, Changed := Changed summary + (if ch then 1 else 0)\<rparr>"]
  obtain n w' rows' where
    rest: "run_rules (platform_service out pg api) cid (map (rule_of wls) todo) (summary\<lparr>Converged := Converged summary + 1,
       Changed := Changed summary + (if ch then 1 else 0)\<rparr>, errs) w1
          = ((summary\<lparr>Converged := Converged summary + 1 + int (length todo), Changed := n\<rparr>, errs), w')"
    and st': "steady pg stored issued wls rows' (gone \<union> removed r \<union> \<Union> (removed ` set todo)) k w'" "marked_from rows1 rows'"
      "\<forall>x \<in> set rows'. settled_row stored wls w' x"
    and frame: "\<forall>i e. ?held w1 i = Some e \<longrightarrow> (\<forall>r \<in> set todo. \<not> ownedByRule e (rr_id r)) \<longrightarrow> ?held w' i = Some e"
    by auto
  have "RuleID (rule_of wls r) = rr_id r" using Cons.prems(1) rule_of_sel(1) by (auto simp: remaining_def list_all_iff decodable_def)
  then have "?held w' i = Some e" if "?held w i = Some e" "\<forall>x \<in> set (r # todo). \<not> ownedByRule e (rr_id x)" for i e
    using frame only_own_keeps[OF only that(1)] that(2) by simp
  moreover have "run_rules (platform_service out pg api) cid (map (rule_of wls) (r # todo)) (summary, errs) w
     = ((summary\<lparr>Converged := Converged summary + int (length (r # todo)), Changed := n\<rparr>, errs), w')"
    using run rest by (simp add: add.assoc)
  moreover have "gone \<union> removed r \<union> \<Union> (removed ` set todo) = gone \<union> \<Union> (removed ` set (r # todo))" by auto
  ultimately show ?case using st' marked_from_trans[OF step(2) st'(2)]
    by (intro exI[of _ n] exI[of _ w'] exI[of _ rows']) simp
qed

section \<open>A pass with nothing to do\<close>

lemma rule_idle:
  assumes works: "spire_works api stored issued" and r: "settled_row stored wls w r" "decodable r"
    and acc: "rr_desired r = ''present'' \<Longrightarrow> acceptable (rule_of wls r)" and desired: "rr_desired r = ''present'' \<or> rr_desired r = ''absent''"
  shows "\<exists>x. reconcileRule (platform_service out pg api) (rule_of wls r) cid w = (Inr False, w\<lparr>pf_spire := x\<rparr>)
    \<and> stored x = stored (pf_spire w)"
proof -
  let ?rule = "rule_of wls r"
  note sel = rule_of_sel[OF r(2)[unfolded decodable_def]]
  show ?thesis
  proof (cases "rr_desired r = ''present''")
    case False
    then have "reconcileRule (platform_service out pg api) ?rule cid w = (Inr False, w\<lparr>pf_spire := pf_spire w\<rparr>)"
      using desired r(1) by (simp add: reconcileRule_def reconcileAbsent_def returns_def settled_row_def sel)
    then show ?thesis by blast
  next
    case True
    with r(1) obtain i e where e: "rr_entry r = Some i" "spire_entries stored w i = Some e" "entriesEquivalent e (wanted ?rule)"
      by (auto simp: settled_row_def)
    from client_get[OF works, of i w] obtain x where
      g: "grpc_GetEntry (lift_api api) i w = (Inr e, w\<lparr>pf_spire := x\<rparr>)" "stored x = stored (pf_spire w)" using e(2) by auto
    have "ownedByRule e (rr_id r)" "entriesEquivalent e ((wanted ?rule)\<lparr>EntryID := EntryID e\<rparr>)"
      using e(3) by (simp_all add: equivalent_iff) (simp add: ownedByRule_def ownerHintPrefix_def wanted_def sel)
    then have "reconcileRule (platform_service out pg api) ?rule cid w = (Inr False, w\<lparr>pf_spire := x\<rparr>)"
      using True r(1) e(1) acceptable_desired(1)[OF acc[OF True]]
      by (simp add: reconcileRule_def reconcilePresent_def returns_def settled_row_def sel
          on_result_run(2)[where m = "grpc_GetEntry (lift_api api) i", OF g(1)])
    with g(2) show ?thesis by blast
  qed
qed

lemma settled_row_spire: "stored x = stored (pf_spire w) \<Longrightarrow> settled_row stored wls (w\<lparr>pf_spire := x\<rparr>) r = settled_row stored wls w r"
  by (simp add: settled_row_def)

lemma rules_idle:
  assumes works: "spire_works api stored issued"
  shows "\<forall>r \<in> set todo. settled_row stored wls w r \<and> decodable r \<and> (rr_desired r = ''present'' \<longrightarrow> acceptable (rule_of wls r))
      \<and> (rr_desired r = ''present'' \<or> rr_desired r = ''absent'')
    \<Longrightarrow> \<exists>x. run_rules (platform_service out pg api) cid (map (rule_of wls) todo) (summary, errs) w
          = ((summary\<lparr>Converged := Converged summary + int (length todo)\<rparr>, errs), w\<lparr>pf_spire := x\<rparr>) \<and> stored x = stored (pf_spire w)"
proof (induction todo arbitrary: w summary)
  case Nil
  then show ?case by (intro exI[of _ "pf_spire w"]) simp
next
  case (Cons r todo)
  then obtain x where one: "reconcileRule (platform_service out pg api) (rule_of wls r) cid w = (Inr False, w\<lparr>pf_spire := x\<rparr>)"
    "stored x = stored (pf_spire w)"
    using rule_idle[OF works, of wls w r out pg cid] by auto
  from Cons.IH[of "w\<lparr>pf_spire := x\<rparr>" "summary\<lparr>Converged := Converged summary + 1\<rparr>"] Cons.prems settled_row_spire[where w = w, OF one(2)]
  obtain y where "run_rules (platform_service out pg api) cid (map (rule_of wls) todo) (summary\<lparr>Converged := Converged summary + 1\<rparr>, errs) (w\<lparr>pf_spire := x\<rparr>)
      = ((summary\<lparr>Converged := Converged summary + 1 + int (length todo)\<rparr>, errs), w\<lparr>pf_spire := y\<rparr>)" "stored y = stored x"
    by auto
  with one show ?case by (intro exI[of _ y]) (simp add: add.assoc)
qed

section \<open>The pass\<close>

text \<open>The rows in the order of the listing.\<close>

definition listing :: "rule_row list \<Rightarrow> rule_row list" where
  "listing rows = sort_key (\<lambda>r. (rr_org r, rr_id r)) rows"

lemma listing_simps [simp]: "set (listing rows) = set rows" "length (listing rows) = length rows"
  "distinct (map rr_id (listing rows)) = distinct (map rr_id rows)"
  by (simp_all add: listing_def distinct_map)

lemma reg_List_run:
  assumes "schema_ok (tables s)" "serves pg (Suc k) s" "list_all decodable (registration_rules (tables s))"
  shows "reg_List pg s = (Inr (map (rule_of (workloads (tables s))) (listing (registration_rules (tables s)))),
    s\<lparr>tick := Suc (tick s), started := pg_now pg (tick s)\<rparr>)"
proof -
  have all: "scan_rules (map (\<lambda>r. (r, f r)) rs) = Some (map (\<lambda>r. the (scan_rule (r, f r))) rs)" if "list_all decodable rs" for f and rs :: "rule_row list"
    using that by (induction rs) (auto simp: decodable_def scan_rule_def)
  have "list_all decodable (sort_key (\<lambda>r. (rr_org r, rr_id r)) (registration_rules (tables s)))"
    using assms(3) by (simp add: list_all_iff)
  from all[OF this] have "scan_rules (listed_rows (tables s)) = Some (map (rule_of (workloads (tables s))) (listing (registration_rules (tables s))))"
    by (simp add: listed_rows_def listing_def rule_of_def)
  with list_rules_run[OF assms(1), of pg] serves_now[OF assms(2)] show ?thesis
    by (simp add: reg_List_def action_defs)
qed

lemma pass_run:
  assumes "schema_ok (tables (pf_db w))" "serves pg (Suc k) (pf_db w)" "list_all decodable (registration_rules (tables (pf_db w)))"
    and random: "\<forall>n bytes. out_random out n = Inr bytes \<longrightarrow> bytes \<noteq> []"
  obtains cid w1 where "text_ok cid" "cid \<noteq> []" "pf_spire w1 = pf_spire w" "tables (pf_db w1) = tables (pf_db w)" "serves pg k (pf_db w1)"
    "reconcile_pass out pg api w = (case run_rules (platform_service out pg api) cid
        (map (rule_of (workloads (tables (pf_db w)))) (listing (registration_rules (tables (pf_db w)))))
        (empty_summary\<lparr>Total := int (length (registration_rules (tables (pf_db w))))\<rparr>, []) w1 of
       ((summary, errs), w') \<Rightarrow> (Inr (summary, if errs = [] then None else Some (RulesFailed errs)), w'))"
proof -
  let ?s = "pf_db w" and ?svc = "platform_service out pg api"
  let ?s1 = "?s\<lparr>tick := Suc (tick ?s), started := pg_now pg (tick ?s)\<rparr>"
  let ?w1 = "w\<lparr>pf_db := ?s1, pf_draws := Suc (pf_draws w)\<rparr>"
  have l: "store_List (svc_rules ?svc) w = (Inr (map (rule_of (workloads (tables ?s))) (listing (registration_rules (tables ?s)))), w\<lparr>pf_db := ?s1\<rparr>)"
    using reg_List_run[OF assms(1-3)] by (simp add: platform_service_def db_store_def on_db_def)
  obtain cid where c: "newCorrelationID ?svc (w\<lparr>pf_db := ?s1\<rparr>) = (cid, ?w1)" "text_ok cid" "cid \<noteq> []"
  proof (cases "out_random out (pf_draws w)")
    case (Inl u)
    have "text_ok ''reconcile-correlation-unavailable''" by code_simp
    with Inl that show ?thesis by (auto simp: newCorrelationID_def platform_service_def draw_def)
  next
    case (Inr bytes)
    have "bytes \<noteq> []" using random Inr by blast
    then have "hex_EncodeToString bytes \<noteq> []" by (cases bytes) (simp_all add: hex_EncodeToString_def)
    with Inr that text_ok_hex show ?thesis by (auto simp: newCorrelationID_def platform_service_def draw_def)
  qed
  have "serves pg k (pf_db ?w1)" by simp (rule serves_next[OF assms(2), where ids = "[]"], simp_all)
  with that[of cid ?w1] c l show ?thesis
    by (simp add: reconcile_pass_def reconciler_service_Inr[THEN iffD2, OF refl] Run_def split: prod.split)
qed

text \<open>The rules of the tables are for different workloads, so for different SPIFFE IDs.\<close>

lemma rule_spiffe_ids:
  assumes "schema_ok t" "distinct (map wl_spiffe_id (workloads t))" "list_all decodable (registration_rules t)"
  shows "inj_on (\<lambda>r. WorkloadSPIFFEID (rule_of (workloads t) r)) (set (registration_rules t))"
proof (rule inj_onI)
  fix x y
  assume x: "x \<in> set (registration_rules t)" and y: "y \<in> set (registration_rules t)"
    and eq: "WorkloadSPIFFEID (rule_of (workloads t) x) = WorkloadSPIFFEID (rule_of (workloads t) y)"
  from rule_joins[OF assms(1) x] obtain u where u: "find (\<lambda>w. wl_id w = rr_workload x) (workloads t) = Some u" "u \<in> set (workloads t)" "wl_id u = rr_workload x" .
  from rule_joins[OF assms(1) y] obtain v where v: "find (\<lambda>w. wl_id w = rr_workload y) (workloads t) = Some v" "v \<in> set (workloads t)" "wl_id v = rr_workload y" .
  have "Unmarshal_strings (rr_selectors x) \<noteq> None" "Unmarshal_strings (rr_selectors y) \<noteq> None"
    using assms(3) x y by (auto simp: decodable_def list_all_iff)
  with eq rule_of_workload[OF _ u(1)] rule_of_workload[OF _ v(1)] have "wl_spiffe_id u = wl_spiffe_id v" by simp
  with assms(2) u(2) v(2) have "u = v" by (simp add: distinct_map inj_on_def)
  with u(3) v(3) have "rr_workload x = rr_workload y" by simp
  with assms(1) x y show "x = y" by (simp add: schema_ok_def rule_uniques_def distinct_map inj_on_def)
qed

lemma rules_ok_decodable: "rules_ok t \<Longrightarrow> list_all decodable (registration_rules t)"
  by (auto simp: rules_ok_def rule_ok_def decodable_def list_all_iff)

lemma marked_from_acceptable:
  assumes "marked_from rows rows'" "list_all decodable rows"
    and "\<forall>r \<in> set rows. rr_desired r = ''present'' \<longrightarrow> acceptable (rule_of wls r)"
  shows "\<forall>r \<in> set rows'. rr_desired r = ''present'' \<longrightarrow> acceptable (rule_of wls r)"
proof (intro ballI impI)
  fix r' assume r': "r' \<in> set rows'" "rr_desired r' = ''present''"
  from marked_from_mem(1)[OF assms(1) r'(1)] obtain r where r: "r \<in> set rows" "marked r r'" by blast
  with assms(2) have "Unmarshal_strings (rr_selectors r) \<noteq> None" by (simp add: list_all_iff decodable_def)
  with assms(3) r r'(2) rule_of_marked(2) show "acceptable (rule_of wls r')" by (auto simp: marked_def)
qed

text \<open>The first pass, and a pass over rows that have converged.\<close>

lemma first_pass:
  assumes works: "spire_works api stored issued"
    and st: "steady pg stored issued wls rows {} (2 * length rows + 2) w" and dec: "list_all decodable rows"
    and ids: "inj_on (\<lambda>r. WorkloadSPIFFEID (rule_of wls r)) (set rows)"
    and acc: "\<forall>r \<in> set rows. rr_desired r = ''present'' \<longrightarrow> acceptable (rule_of wls r)" and keys: "keys_own stored wls rows w"
    and random: "\<forall>n bytes. out_random out n = Inr bytes \<longrightarrow> bytes \<noteq> []"
  shows "\<exists>n w' rows'. reconcile_pass out pg api w
      = (Inr (empty_summary\<lparr>Total := int (length rows), Converged := int (length rows), Changed := n\<rparr>, None), w')
    \<and> steady pg stored issued wls rows' (\<Union> (removed ` set rows)) 1 w' \<and> marked_from rows rows'
    \<and> (\<forall>x \<in> set rows'. settled_row stored wls w' x)
    \<and> (\<forall>i e. spire_entries stored w i = Some e \<longrightarrow> (\<forall>r \<in> set rows. \<not> ownedByRule e (rr_id r)) \<longrightarrow> spire_entries stored w' i = Some e)"
proof -
  have t: "schema_ok (tables (pf_db w))" "registration_rules (tables (pf_db w)) = rows" "workloads (tables (pf_db w)) = wls"
    "serves pg (Suc (2 * length rows + 1)) (pf_db w)" "distinct (map rr_id rows)"
    using st by (auto simp: steady_def schema_ok_def rule_uniques_def)
  have dec': "list_all decodable (registration_rules (tables (pf_db w)))" using dec t(2) by simp
  from pass_run[where api = api, OF t(1,4) dec' random, unfolded t(2,3)] obtain cid w1 where cid: "text_ok cid" "cid \<noteq> []"
    and w1: "pf_spire w1 = pf_spire w" "tables (pf_db w1) = tables (pf_db w)" "serves pg (2 * length rows + 1) (pf_db w1)"
    and run: "reconcile_pass out pg api w = (case run_rules (platform_service out pg api) cid (map (rule_of wls) (listing rows))
        (empty_summary\<lparr>Total := int (length rows)\<rparr>, []) w1 of
       ((summary, errs), w') \<Rightarrow> (Inr (summary, if errs = [] then None else Some (RulesFailed errs)), w'))" .
  have held: "spire_entries stored w1 = spire_entries stored w" using w1(1) by (simp add: spire_entries_def fun_eq_iff)
  have st1: "steady pg stored issued wls rows {} (2 * length (listing rows) + 1) w1"
    using st w1 held by (simp add: steady_def deleted_def bound_own_def)
  have "remaining stored wls rows (listing rows) w1"
    using dec ids acc keys t(5) held by (simp add: remaining_def keys_own_def)
  from rules_settle[where out = out, OF works cid this st1, of "empty_summary\<lparr>Total := int (length rows)\<rparr>" "[]"] obtain n w' rows' where
    "run_rules (platform_service out pg api) cid (map (rule_of wls) (listing rows)) (empty_summary\<lparr>Total := int (length rows)\<rparr>, []) w1
      = ((empty_summary\<lparr>Total := int (length rows), Converged := int (length rows), Changed := n\<rparr>, []), w')"
    "steady pg stored issued wls rows' (\<Union> (removed ` set rows)) 1 w'" "marked_from rows rows'" "\<forall>x \<in> set rows'. settled_row stored wls w' x"
    "\<forall>i e. spire_entries stored w i = Some e \<longrightarrow> (\<forall>r \<in> set rows. \<not> ownedByRule e (rr_id r)) \<longrightarrow> spire_entries stored w' i = Some e"
    using held by (auto simp: empty_summary_def)
  with run show ?thesis by (intro exI[of _ n] exI[of _ w'] exI[of _ rows']) simp
qed

lemma second_pass:
  assumes works: "spire_works api stored issued"
    and st: "steady pg stored issued wls rows gone 1 w" and dec: "list_all decodable rows"
    and acc: "\<forall>r \<in> set rows. rr_desired r = ''present'' \<longrightarrow> acceptable (rule_of wls r)" and all_settled: "\<forall>x \<in> set rows. settled_row stored wls w x"
    and random: "\<forall>n bytes. out_random out n = Inr bytes \<longrightarrow> bytes \<noteq> []"
  shows "\<exists>w'. reconcile_pass out pg api w
      = (Inr (empty_summary\<lparr>Total := int (length rows), Converged := int (length rows)\<rparr>, None), w')
    \<and> tables (pf_db w') = tables (pf_db w) \<and> stored (pf_spire w') = stored (pf_spire w)"
proof -
  have t: "schema_ok (tables (pf_db w))" "registration_rules (tables (pf_db w)) = rows" "workloads (tables (pf_db w)) = wls"
    "serves pg (Suc 0) (pf_db w)" and desired: "\<forall>r \<in> set rows. rr_desired r = ''present'' \<or> rr_desired r = ''absent''"
    using st by (auto simp: steady_def schema_ok_def list_all_iff rule_checks_def)
  have dec': "list_all decodable (registration_rules (tables (pf_db w)))" using dec t(2) by simp
  from pass_run[where api = api, OF t(1,4) dec' random, unfolded t(2,3)] obtain cid w1 where
    w1: "pf_spire w1 = pf_spire w" "tables (pf_db w1) = tables (pf_db w)"
    and run: "reconcile_pass out pg api w = (case run_rules (platform_service out pg api) cid (map (rule_of wls) (listing rows))
        (empty_summary\<lparr>Total := int (length rows)\<rparr>, []) w1 of
       ((summary, errs), w') \<Rightarrow> (Inr (summary, if errs = [] then None else Some (RulesFailed errs)), w'))" .
  have "settled_row stored wls w1 x = settled_row stored wls w x" for x using w1(1) by (simp add: settled_row_def spire_entries_def)
  with all_settled dec acc desired obtain x where "run_rules (platform_service out pg api) cid (map (rule_of wls) (listing rows))
      (empty_summary\<lparr>Total := int (length rows)\<rparr>, []) w1
      = ((empty_summary\<lparr>Total := int (length rows), Converged := int (length rows)\<rparr>, []), w1\<lparr>pf_spire := x\<rparr>)" "stored x = stored (pf_spire w1)"
    using rules_idle[where out = out and pg = pg and cid = cid, OF works, of "listing rows" wls w1 "empty_summary\<lparr>Total := int (length rows)\<rparr>" "[]"]
    by (auto simp: empty_summary_def list_all_iff)
  with run w1 show ?thesis by (intro exI[of _ "w1\<lparr>pf_spire := x\<rparr>"]) simp
qed

text \<open>Both passes together, from any state of the platform in which the bound entries and the keys are the rules' own.\<close>

lemma two_passes:
  assumes works: "spire_works api stored issued" and serves: "serves pg (2 * length rows + 2) (pf_db w)"
    and t: "good (tables (pf_db w))" "registration_rules (tables (pf_db w)) = rows" "workloads (tables (pf_db w)) = wls"
    and typed: "list_all typed rows" and ids: "distinct (map wl_spiffe_id wls)"
    and acc: "\<forall>r \<in> set rows. rr_desired r = ''present'' \<longrightarrow> acceptable (rule_of wls r)"
    and own: "bound_own stored issued rows w" "keys_own stored wls rows w"
    and random: "\<forall>n bytes. out_random out n = Inr bytes \<longrightarrow> bytes \<noteq> []"
  obtains n w' rows' w2 where
    "reconcile_pass out pg api w
      = (Inr (empty_summary\<lparr>Total := int (length rows), Converged := int (length rows), Changed := n\<rparr>, None), w')"
    "registration_rules (tables (pf_db w')) = rows'" "workloads (tables (pf_db w')) = wls" "marked_from rows rows'"
    "\<forall>x \<in> set rows'. settled_row stored wls w' x" "\<forall>r \<in> set rows. \<forall>i \<in> removed r. spire_entries stored w' i = None"
    "\<forall>i e. spire_entries stored w i = Some e \<longrightarrow> (\<forall>r \<in> set rows. \<not> ownedByRule e (rr_id r)) \<longrightarrow> spire_entries stored w' i = Some e"
    "reconcile_pass out pg api w'
      = (Inr (empty_summary\<lparr>Total := int (length rows), Converged := int (length rows)\<rparr>, None), w2)"
    "tables (pf_db w2) = tables (pf_db w')" "stored (pf_spire w2) = stored (pf_spire w')"
proof -
  have schema: "schema_ok (tables (pf_db w))" and dec: "list_all decodable (registration_rules (tables (pf_db w)))"
    using t(1) rules_ok_decodable by (simp_all add: good_def)
  have "steady pg stored issued wls rows {} (2 * length rows + 2) w"
    using serves typed own(1) schema t(2,3) by (simp add: steady_def deleted_def)
  from first_pass[where out = out, OF works this dec[unfolded t(2)] rule_spiffe_ids[OF schema _ dec, unfolded t(2,3), OF ids] acc own(2) random]
  obtain n w' rows' where
    run: "reconcile_pass out pg api w
      = (Inr (empty_summary\<lparr>Total := int (length rows), Converged := int (length rows), Changed := n\<rparr>, None), w')"
    and st: "steady pg stored issued wls rows' (\<Union> (removed ` set rows)) 1 w'"
    and rows': "marked_from rows rows'" "\<forall>x \<in> set rows'. settled_row stored wls w' x"
    and frame: "\<forall>i e. spire_entries stored w i = Some e \<longrightarrow> (\<forall>r \<in> set rows. \<not> ownedByRule e (rr_id r))
      \<longrightarrow> spire_entries stored w' i = Some e" by (elim exE conjE) (rule that)
  have t': "registration_rules (tables (pf_db w')) = rows'" "workloads (tables (pf_db w')) = wls" using st by (simp_all add: steady_def)
  have gone: "\<forall>r \<in> set rows. \<forall>i \<in> removed r. spire_entries stored w' i = None" using st by (auto simp: steady_def deleted_def)
  have "length rows' = length rows" using rows'(1) by (auto simp: marked_from_def list_all2_lengthD)
  with second_pass[where out = out, OF works st marked_from_decodable[OF rows'(1) dec[unfolded t(2)]] marked_from_acceptable[OF rows'(1) dec[unfolded t(2)] acc] rows'(2) random]
  obtain w2 where "reconcile_pass out pg api w' = (Inr (empty_summary\<lparr>Total := int (length rows), Converged := int (length rows)\<rparr>, None), w2)"
    "tables (pf_db w2) = tables (pf_db w')" "stored (pf_spire w2) = stored (pf_spire w')" by auto
  with run t' rows' gone frame that show thesis by blast
qed

section \<open>A concrete platform\<close>

text \<open>The database with one rule whose entry someone has deleted from SPIRE.\<close>

definition memory_platform :: "spire_memory platform" where
  "memory_platform = \<lparr>pf_db = rule_db, pf_spire = ([], [''e1'']), pf_draws = 0, pf_pools = 0, pf_clients = 0\<rparr>"

definition memory_outside :: "spire_memory outside" where
  "memory_outside = \<lparr>out_ParseConfig = out_ParseConfig example_outside, out_NewWithConfig = out_NewWithConfig example_outside,
     out_collation = out_collation example_outside, out_random = out_random example_outside,
     out_zone = out_zone example_outside, out_mux_answer = out_mux_answer example_outside,
     out_newClient = (\<lambda>_. Inr memory_api)\<rparr>"

lemma example_tables_sel: "registration_rules (tables (pf_db memory_platform)) = [example_rule]"
  "workloads (tables (pf_db memory_platform)) = [example_workload]"
  by (simp_all add: memory_platform_def rule_db_def example_tables_def)

lemma example_serves': "serves example_pg 4 (pf_db memory_platform)"
proof -
  have "distinct (map uuid_n [0..<4])" by code_simp
  then show ?thesis
    by (simp add: serves_def example_pg_def memory_platform_def rule_db_def example_db_def example_tables_def del: upt_Suc)
qed

lemma example_typed: "typed example_rule"
proof -
  have "uuid_in (uuid_n 80) = Some (uuid_n 80)" "uuid_in (uuid_n 90) = Some (uuid_n 90)" "text_ok ''e1''" "in_int64 1" by code_simp+
  then show ?thesis by (simp add: typed_def example_rule_def)
qed

lemma example_acceptable: "acceptable (rule_of [example_workload] example_rule)"
proof -
  have "validateDesiredFields ''present'' [''unix:uid:1000''] ''spiffe://td.example/agent'' 600 = None"
    "reg_validateSPIFFEID ''spiffe://td.example/api'' = None" by code_simp+
  then show ?thesis
    by (simp add: acceptable_def rule_of_def scan_rule_def example_rule_def example_workload_def string_array_def
        Unmarshal_JStr[of "[''unix:uid:1000'']", simplified])
qed

section \<open>Properties\<close>



end
