(* ===== verification/Concurrency.thy ===== *)
theory Concurrency
  imports Ownership Convergence
begin

text \<open>
  Everything at once: requests, any number of reconciler passes whose calls fall between each other and
  between the requests, and whatever else happens to SPIRE, over a database and a SPIRE server whose
  calls can fail. A reconciler's work on a rule is the rule as it was listed and the calls so far; its
  next call is what the code asks for (\<open>next_ask\<close>). The theorems say what survives all of this, and that
  once the services work one pass repairs the rest.
\<close>

section \<open>Steps\<close>

type_synonym job = "Rule \<times> string \<times> call list"

text \<open>
  What others may do to SPIRE's entries: delete any, add one under a new ID or change one in place, if
  it is not for a workload of the platform and keeps its hint. The random source and the clock move on.
\<close>

definition elsewhere :: "('sp \<Rightarrow> string \<Rightarrow> proto_entry option) \<Rightarrow> ('sp \<Rightarrow> string set) \<Rightarrow> 'sp platform \<Rightarrow> 'sp platform \<Rightarrow> bool" where
  "elsewhere stored issued w w' \<longleftrightarrow> view w' = view w \<and> issued (pf_spire w) \<subseteq> issued (pf_spire w')
     \<and> (\<forall>i e'. spire_entries stored w' i = Some e' \<longrightarrow> spire_entries stored w i = Some e'
         \<or> (\<forall>x \<in> set (workloads (view w)). EntrySPIFFEID e' \<noteq> wl_spiffe_id x)
           \<and> (i \<in> issued (pf_spire w) \<longrightarrow> (\<exists>e. spire_entries stored w i = Some e \<and> EntryHint e = EntryHint e')))"

text \<open>
  A request is one step, a listing starts the work on the rules it finds, a call of the work on a rule is
  one step. Work can stop at any point, as it does when its process ends.
\<close>

inductive concurrent_step :: "'sp outside \<Rightarrow> pg \<Rightarrow> StaticBearer \<Rightarrow> pg \<Rightarrow> 'sp entry_api \<Rightarrow> ('sp \<Rightarrow> string \<Rightarrow> proto_entry option)
    \<Rightarrow> ('sp \<Rightarrow> string set) \<Rightarrow> 'sp platform \<times> job list \<Rightarrow> 'sp platform \<times> job list \<Rightarrow> bool"
  for out pg bearer rpg api stored issued where
  request: "ServeHTTP (platform_server out pg bearer) req w = (resp, w') \<Longrightarrow>
     concurrent_step out pg bearer rpg api stored issued (w, jobs) (w', jobs)"
| listing: "store_List (svc_rules (platform_service out rpg api)) w = (r, w') \<Longrightarrow>
     new = (case r of Inl e \<Rightarrow> [] | Inr rules \<Rightarrow> map (\<lambda>x. (x, cid, [])) rules) \<Longrightarrow>
     concurrent_step out pg bearer rpg api stored issued (w, jobs) (w', jobs @ new)"
| call: "next_ask x cid h = Some q \<Longrightarrow> perform (platform_service out rpg api) q w = (c, w') \<Longrightarrow>
     concurrent_step out pg bearer rpg api stored issued (w, before @ (x, cid, h) # after) (w', before @ (x, cid, h @ [c]) # after)"
| other: "elsewhere stored issued w w' \<Longrightarrow> concurrent_step out pg bearer rpg api stored issued (w, jobs) (w', jobs)"

section \<open>What the work on a rule relies on\<close>

definition backed :: "('sp \<Rightarrow> string \<Rightarrow> proto_entry option) \<Rightarrow> ('sp \<Rightarrow> string set) \<Rightarrow> 'sp platform \<Rightarrow> job \<Rightarrow> bool" where
  "backed stored issued w j \<longleftrightarrow> (case j of (x, cid, h) \<Rightarrow> known x w
     \<and> (\<forall>c \<in> set h. \<forall>a. answered_entry c = Some a \<longrightarrow> ownedByRule a (RuleID x) \<longrightarrow> claims stored issued w (EntryID a) (RuleID x)))"

lemma backed_advances: "backed stored issued w j \<Longrightarrow> advances stored issued w w' \<Longrightarrow> backed stored issued w' j"
  by (cases j) (auto simp: backed_def intro: known_advances claims_advances)

lemma shown_claims:
  assumes "backed stored issued w (x, cid, h)" "shown_owned (RuleID x) i h"
  shows "claims stored issued w i (RuleID x)"
proof -
  from shown_ownedD[OF assms(2)] obtain c a where "c \<in> set h" "answered_entry c = Some a" "EntryID a = i"
    "EntryHint a = ''wtp-rule:'' @ RuleID x" by blast
  with assms(1) show ?thesis by (auto simp: backed_def ownedByRule_def ownerHintPrefix_def)
qed

text \<open>A call the code asks for advances the platform, and its answer can be relied on.\<close>

lemma perform_advances:
  assumes h: "spire_honest api stored issued" and q: "next_ask x cid h = Some q"
    and run: "perform (platform_service out rpg api) q w = (c, w')" and bk: "backed stored issued w (x, cid, h)"
  shows "advances stored issued w w'
    \<and> (\<forall>a. answered_entry c = Some a \<longrightarrow> spire_entries stored w' (EntryID a) = Some a)"
proof -
  have x: "known x w" using bk by (simp add: backed_def)
  note ok = next_ask_disciplined[OF q asked_perform[OF run]]
  show ?thesis
  proof (cases q)
    case (AskGet i)
    then obtain r where r: "grpc_GetEntry (lift_api api) i w = (r, w')" "c = Got i r" using run by (auto split: prod.splits)
    from get_advances[OF h r(1)] honest_get[OF h r(1)] honest_entry[OF h, of w'] show ?thesis by (cases r) (auto simp: r(2))
  next
    case (AskCreate e)
    then obtain r where r: "grpc_CreateEntry (lift_api api) e w = (r, w')" "c = Created e r" using run by (auto split: prod.splits)
    with ok create_advances[OF h r(1) x] show ?thesis by (cases r) auto
  next
    case (AskUpdate e)
    then obtain r where r: "grpc_UpdateEntry (lift_api api) e w = (r, w')" "c = Updated e r" using run by (auto split: prod.splits)
    with ok update_advances[OF h r(1) x] shown_claims[OF bk] show ?thesis by (cases r) auto
  next
    case (AskDelete i)
    then obtain r where r: "grpc_DeleteEntry (lift_api api) i w = (r, w')" "c = Deleted i r" using run by (auto split: prod.splits)
    with delete_advances[OF h r(1)] show ?thesis by auto
  next
    case (AskAudit ev)
    then obtain r where r: "on_db (Append (pool_queryer rpg) ev) w = (r, w')" "c = Audited ev r" using run by (auto split: prod.splits)
    with ok audit_advances show ?thesis by auto
  next
    case (AskMark i b)
    then obtain r where r: "on_db (reg_MarkConverged rpg i b) w = (r, w')" "c = MarkedConverged i b r" using run by (auto split: prod.splits)
    with ok mark_advances[OF _ x, of rpg b r w'] shown_claims[OF bk] show ?thesis by (auto split: option.splits)
  next
    case (AskError i code)
    then obtain r where r: "on_db (reg_MarkError rpg i code) w = (r, w')" "c = MarkedError i code r"
      using run by (auto simp: platform_service_def db_store_def split: prod.splits)
    with mark_error_advances[OF r(1)] show ?thesis by auto
  qed
qed

lemma list_all2_mem: "list_all2 P xs ys \<Longrightarrow> y \<in> set ys \<Longrightarrow> \<exists>x \<in> set xs. P x y"
  by (induction rule: list_all2_induct) auto

lemma list_known:
  assumes "store_List (svc_rules (platform_service out rpg api)) w = (r, w')"
  shows "view w' = view w" "pf_spire w' = pf_spire w" "\<And>rules x. r = Inr rules \<Longrightarrow> x \<in> set rules \<Longrightarrow> known x w"
proof -
  have db: "reg_List rpg (pf_db w) = (r, pf_db w')" and sp: "pf_spire w' = pf_spire w"
    using assms db_call by (auto simp: platform_service_def db_store_def)
  have "tables (snd (pool_stmt rpg sql_list_rules s)) = tables s" for s
    by (auto simp: pool_stmt_def sql_list_rules_def Let_def split: commit_outcome.split)
  then have "tables (snd (reg_List rpg (pf_db w))) = tables (pf_db w)"
    by (auto simp: reg_List_def action_defs split: prod.splits sum.splits option.splits) (metis snd_conv)+
  with db sp show "view w' = view w" "pf_spire w' = pf_spire w" by (simp_all add: view_def)
  fix rules x assume x: "r = Inr rules" "x \<in> set rules"
  from db x(1) obtain rows s' where rows: "pool_stmt rpg sql_list_rules (pf_db w) = (Inr rows, s')" "scan_rules rows = Some rules"
    by (auto simp: reg_List_def action_defs split: prod.splits sum.splits option.splits)
  from list_all2_mem[OF rows(2)[unfolded scan_rules_Some] x(2)] obtain row where row: "row \<in> set rows" "scan_rule row = Some x" by blast
  from rows(1) row(1) obtain y z where "y \<in> set (rules_of w)" "find (\<lambda>w. wl_id w = rr_workload y) (workloads (view w)) = Some z" "row = (y, wl_spiffe_id z)"
    by (auto simp: pool_stmt_Inr sql_list_rules_def List.map_filter_def view_def split: option.splits)
  note yz = this
  have "z \<in> set (workloads (view w))" "rr_workload y = wl_id z" using find_Some_mem[OF yz(2)] by auto
  moreover have "RuleID x = rr_id y" "WorkloadSPIFFEID x = wl_spiffe_id z" using row(2) yz(3) by (auto simp: scan_rule_def)
  ultimately show "known x w" unfolding known_def using yz(1) by metis
qed

lemma elsewhere_advances:
  assumes "elsewhere stored issued w w'"
  shows "advances stored issued w w'"
proof -
  from assms have v: "view w' = view w" and i: "issued (pf_spire w) \<subseteq> issued (pf_spire w')"
    and held: "\<And>i e'. spire_entries stored w' i = Some e' \<Longrightarrow> spire_entries stored w i = Some e'
         \<or> (\<forall>x \<in> set (workloads (view w)). EntrySPIFFEID e' \<noteq> wl_spiffe_id x)
           \<and> (i \<in> issued (pf_spire w) \<longrightarrow> (\<exists>e. spire_entries stored w i = Some e \<and> EntryHint e = EntryHint e'))"
    unfolding elsewhere_def by blast+
  have o: "owners_kept stored issued w w'" unfolding owners_kept_def using i held by blast
  have "entries_own stored w'" if "entries_own stored w" using that held unfolding entries_own_def v by blast
  then show ?thesis using o bound_own_kept[OF o] by (auto simp: advances_def v rules_kept_refl owned_state_def)
qed

section \<open>Runs\<close>

definition sound :: "('sp \<Rightarrow> string \<Rightarrow> proto_entry option) \<Rightarrow> ('sp \<Rightarrow> string set) \<Rightarrow> 'sp platform \<times> job list \<Rightarrow> bool" where
  "sound stored issued s \<longleftrightarrow> owned_state stored issued (fst s) \<and> list_all (backed stored issued (fst s)) (snd s)"

lemma sound_advances:
  assumes "sound stored issued (w, jobs)" "advances stored issued w w'" "list_all (backed stored issued w') new"
  shows "sound stored issued (w', jobs @ new)"
  using assms backed_advances[of stored issued w _ w'] by (auto simp: sound_def list_all_iff advances_def)

lemma step_sound:
  assumes "concurrent_step out pg bearer rpg api stored issued s s'"
    and h: "spire_honest api stored issued" and uu: "canonical_uuids pg" and ok: "sound stored issued s"
  shows "sound stored issued s' \<and> advances stored issued (fst s) (fst s')"
  using assms(1)
proof cases
  case (request req w resp w' jobs)
  with request_advances[OF uu request(3)] sound_advances[of stored issued w jobs w' "[]"] ok show ?thesis by simp
next
  case (listing w r w' new cid jobs)
  note known = list_known[OF listing(3)]
  have adv: "advances stored issued w w'" by (rule same_tables_advances) (use known in simp_all)
  have "list_all (backed stored issued w') new"
  proof (cases r)
    case (Inr rules)
    with listing(4) known(3)[OF Inr] known_advances[OF _ adv] show ?thesis by (auto simp: list_all_iff backed_def)
  qed (simp add: listing(4))
  with sound_advances[of stored issued w jobs w' new] adv ok listing(1,2) show ?thesis by simp
next
  case (call x cid h' q w c w' before after)
  have bk: "backed stored issued w (x, cid, h')" using ok call(1) by (simp add: sound_def)
  note step = perform_advances[OF h call(3,4) bk]
  have "backed stored issued w' (x, cid, h' @ [c])"
    using backed_advances[OF bk step[THEN conjunct1]] step claims_entry[OF h] by (auto simp: backed_def)
  moreover have "list_all (backed stored issued w') (before @ after)"
    using ok backed_advances[OF _ step[THEN conjunct1]] by (auto simp: call(1) sound_def list_all_iff)
  moreover have "owned_state stored issued w'" using step ok by (simp add: call(1) sound_def advances_def)
  ultimately show ?thesis using step call(1,2) by (simp add: sound_def)
next
  case (other w w' jobs)
  with elsewhere_advances[OF other(3)] sound_advances[of stored issued w jobs w' "[]"] ok show ?thesis by simp
qed

lemma run_sound:
  assumes "(concurrent_step out pg bearer rpg api stored issued)\<^sup>*\<^sup>* s s'"
    and "spire_honest api stored issued" "canonical_uuids pg" "sound stored issued s"
  shows "sound stored issued s' \<and> advances stored issued (fst s) (fst s')"
  using assms(1)
proof (induction rule: rtranclp_induct)
  case (step y z)
  from step_sound[OF step(2) assms(2,3)] step(3) show ?case by (auto intro: advances_trans)
qed (use assms(4) in simp)

text \<open>In such a state an entry that has the key of a rule's entry is the rule's own.\<close>

lemma owned_keys:
  assumes o: "owned_state stored issued w"
  shows "keys_own stored (workloads (view w)) (rules_of w) w"
  unfolding keys_own_def
proof (intro ballI impI allI)
  fix r i e
  assume r: "r \<in> set (rules_of w)" and e: "spire_entries stored w i = Some e" "same_key e (wanted (rule_of (workloads (view w)) r))"
  have ok: "schema_ok (view w)" "rules_ok (view w)" "plain_workloads (workloads (view w))" "entries_own stored w"
    using o by (simp_all add: owned_state_def good_def)
  from rule_joins[OF ok(1) r] obtain y where y: "find (\<lambda>w. wl_id w = rr_workload r) (workloads (view w)) = Some y"
    "y \<in> set (workloads (view w))" "wl_id y = rr_workload r" .
  have "Unmarshal_strings (rr_selectors r) \<noteq> None" using ok(2) r by (auto simp: rules_ok_def rule_ok_def)
  from rule_of_workload[OF this y(1)] e(2) have "EntrySPIFFEID e = wl_spiffe_id y" by (simp add: same_key_def wanted_def)
  with ok(4) e(1) y(2) obtain r' where r': "r' \<in> set (rules_of w)" "rr_workload r' = wl_id y" "ownedByRule e (rr_id r')"
    unfolding entries_own_def by blast
  have "r' = r" using ok(1) r r'(1,2) y(3) by (simp add: schema_ok_def rule_uniques_def distinct_map inj_on_def)
  with r'(3) show "ownedByRule e (rr_id r)" by simp
qed

section \<open>A pass of the reconciler is a run\<close>

lemma rule_steps_concurrent:
  "(rule_step (platform_service out rpg api) x cid)\<^sup>*\<^sup>* (w, h) (w', h')
     \<Longrightarrow> (concurrent_step out pg bearer rpg api stored issued)\<^sup>*\<^sup>* (w, before @ (x, cid, h) # after) (w', before @ (x, cid, h') # after)"
proof (induction rule: rtranclp_induct2)
  case (step w1 h1 w2 h2)
  from step(2) obtain q c where q: "next_ask x cid h1 = Some q" "perform (platform_service out rpg api) q w1 = (c, w2)" "h2 = h1 @ [c]"
    by (auto simp: rule_step_iff)
  then have "concurrent_step out pg bearer rpg api stored issued (w1, before @ (x, cid, h1) # after) (w2, before @ (x, cid, h2) # after)"
    by (simp add: concurrent_step.call)
  with step(3) show ?case by (simp add: rtranclp.rtrancl_into_rtrancl)
qed simp

lemma rules_concurrent:
  "run_rules (platform_service out rpg api) cid rules acc w = (acc', w')
     \<Longrightarrow> \<exists>jobs. (concurrent_step out pg bearer rpg api stored issued)\<^sup>*\<^sup>* (w, before @ map (\<lambda>x. (x, cid, [])) rules) (w', before @ jobs)"
proof (induction rules arbitrary: acc w before)
  case Nil
  then show ?case by (cases acc) (auto intro!: exI[of _ "[]"])
next
  case (Cons x rules)
  let ?svc = "platform_service out rpg api" and ?step = "concurrent_step out pg bearer rpg api stored issued"
  obtain r w1 where one: "reconcileRule ?svc x cid w = (r, w1)" by fastforce
  with Cons.prems obtain acc1 where rest: "run_rules ?svc cid rules acc1 w1 = (acc', w')"
    by (cases acc; cases r) auto
  obtain calls where "(rule_step ?svc x cid)\<^sup>*\<^sup>* (w, []) (w1, calls)" using reconcileRule_walks[OF one] by metis
  from rule_steps_concurrent[OF this, of pg bearer stored issued before "map (\<lambda>x. (x, cid, [])) rules"]
  have here: "?step\<^sup>*\<^sup>* (w, before @ (x, cid, []) # map (\<lambda>x. (x, cid, [])) rules)
      (w1, before @ (x, cid, calls) # map (\<lambda>x. (x, cid, [])) rules)" .
  from Cons.IH[OF rest, of "before @ [(x, cid, calls)]"] obtain jobs where
    "?step\<^sup>*\<^sup>* (w1, before @ (x, cid, calls) # map (\<lambda>x. (x, cid, [])) rules) (w', before @ (x, cid, calls) # jobs)" by auto
  with here have "?step\<^sup>*\<^sup>* (w, before @ (x, cid, []) # map (\<lambda>x. (x, cid, [])) rules) (w', before @ (x, cid, calls) # jobs)"
    by (rule rtranclp_trans)
  then show ?case by auto
qed

lemma pass_concurrent:
  assumes "reconcile_pass out rpg api w = (r, w')"
  shows "\<exists>jobs'. (concurrent_step out pg bearer rpg api stored issued)\<^sup>*\<^sup>* (w, jobs) (w', jobs')"
proof -
  let ?svc = "platform_service out rpg api" and ?step = "concurrent_step out pg bearer rpg api stored issued"
  obtain s where run: "Run ?svc w = (s, w')"
    using assms by (auto simp: reconcile_pass_def reconciler_service_Inr[THEN iffD2, OF refl] split: prod.splits)
  obtain l w1 where l: "store_List (svc_rules ?svc) w = (l, w1)" by fastforce
  note start = concurrent_step.listing[OF l refl, of pg bearer stored issued jobs]
  show ?thesis
  proof (cases l)
    case (Inl e)
    with run l start show ?thesis by (auto simp: Run_def)
  next
    case (Inr rules)
    obtain cid w2 where c: "newCorrelationID ?svc w1 = (cid, w2)" by fastforce
    obtain acc where rest: "run_rules ?svc cid rules (empty_summary\<lparr>Total := int (length rules)\<rparr>, []) w2 = (acc, w')"
      using run l Inr c by (auto simp: Run_def split: prod.splits)
    have "view w2 = view w1" "pf_spire w2 = pf_spire w1"
      using c by (auto simp: newCorrelationID_def platform_service_def draw_def view_def split: sum.splits)
    then have "elsewhere stored issued w1 w2" by (simp add: elsewhere_def spire_entries_def)
    then have "?step (w1, jobs @ map (\<lambda>x. (x, cid, [])) rules) (w2, jobs @ map (\<lambda>x. (x, cid, [])) rules)" by (rule concurrent_step.other)
    moreover have "?step (w, jobs) (w1, jobs @ map (\<lambda>x. (x, cid, [])) rules)" using start[of cid] Inr by simp
    ultimately show ?thesis
      using rules_concurrent[OF rest, of pg bearer stored issued jobs] by (meson converse_rtranclp_into_rtranclp)
  qed
qed

section \<open>The calls that change SPIRE\<close>

text \<open>
  The entry of SPIRE that a call removes or replaces. The code reads an entry, checks its hint and only
  then acts on its ID; between the two anything can happen.
\<close>

fun hits :: "ask \<Rightarrow> string option" where
  "hits (AskUpdate e) = Some (EntryID e)"
| "hits (AskDelete i) = Some i"
| "hits _ = None"

lemma hits_own:
  assumes "sound stored issued (w, jobs)" "(x, cid, h) \<in> set jobs" "next_ask x cid h = Some q" "hits q = Some i"
    and e: "spire_entries stored w i = Some e"
  shows "ownedByRule e (RuleID x)"
proof -
  have bk: "backed stored issued w (x, cid, h)" using assms(1,2) by (auto simp: sound_def list_all_iff)
  obtain c where c: "asked c = Some q" by (metis asked.simps(1-7) ask.exhaust)
  from next_ask_disciplined[OF assms(3) c] c assms(4) have "shown_owned (RuleID x) i h" by (cases c) auto
  with shown_claims[OF bk] e show ?thesis by (simp add: claims_def)
qed

section \<open>A run on the concrete platform\<close>

lemma memory_api_honest: "spire_honest memory_api memory_stored memory_issued"
  unfolding spire_honest_def
proof (intro conjI allI impI)
  fix s and p :: proto_entry
  assume p: "pe_Id p = []"
  show "case api_BatchCreateEntry memory_api [p] fullOutputMask s of (r, s') \<Rightarrow>
      (memory_stored s' = memory_stored s \<and> memory_issued s' = memory_issued s
        \<or> (\<exists>i. i \<notin> memory_issued s \<and> memory_stored s' = (memory_stored s)(i \<mapsto> p\<lparr>pe_Id := i\<rparr>) \<and> memory_issued s' = insert i (memory_issued s)))
      \<and> (\<forall>code q. code \<in> {codes_OK, codes_AlreadyExists} \<longrightarrow> r = Inr [\<lparr>er_Status = Some code, er_Entry = Some q\<rparr>]
           \<longrightarrow> memory_stored s' (pe_Id q) = Some q)"
  proof (cases "proper p \<and> \<not> (\<exists>i q. memory_stored s i = Some q \<and> same_registration q p)")
    case True
    with memory_create_new[of s p] memory_stored_new[of "p\<lparr>pe_Id := new_id (snd s)\<rparr>" s] new_id_new(1)[of "snd s"] show ?thesis
      by (auto simp: memory_api_def memory_issued_def)
  next
    case False
    show ?thesis
    proof (cases "proper p")
      case True
      with False obtain i q where "memory_stored s i = Some q" "same_registration q p" by blast
      from memory_create_found[OF this] obtain r where "memory_create p s = (\<lparr>er_Status = Some codes_AlreadyExists, er_Entry = Some r\<rparr>, s)"
        "memory_stored s (pe_Id r) = Some r" by blast
      with True show ?thesis by (auto simp: memory_api_def)
    qed (simp add: memory_api_def)
  qed
next
  fix s and p :: proto_entry
  show "case api_BatchUpdateEntry memory_api [p] update_input_mask fullOutputMask s of (r, s') \<Rightarrow>
      memory_issued s' = memory_issued s \<and> (memory_stored s' = memory_stored s
        \<or> memory_stored s (pe_Id p) \<noteq> None \<and> memory_stored s' = (memory_stored s)(pe_Id p \<mapsto> p))
      \<and> (\<forall>q. r = Inr [\<lparr>er_Status = Some codes_OK, er_Entry = Some q\<rparr>] \<longrightarrow> memory_stored s' (pe_Id q) = Some q)"
  proof (cases "proper p \<and> memory_stored s (pe_Id p) \<noteq> None")
    case True
    then have "memory_valid s p" by (auto simp: memory_valid_def dest!: memory_stored_Some)
    with True memory_stored_Cons[of s p] show ?thesis by (auto simp: memory_api_def memory_issued_def)
  qed (auto simp: memory_api_def codes_OK_def codes_NotFound_def)
next
  fix s i
  show "case api_BatchDeleteEntry memory_api [i] s of (r, s') \<Rightarrow> memory_issued s' = memory_issued s
      \<and> (memory_stored s' = memory_stored s \<or> memory_stored s' = (memory_stored s)(i := None))"
    by (auto simp: memory_api_def memory_issued_def memory_stored_filter)
qed (auto simp: memory_api_def memory_issued_def memory_valid_def dest!: memory_stored_Some split: option.splits)

text \<open>Where everything begins: no rule is stored, and SPIRE has no entry for a workload of the platform.\<close>

lemma fresh_owned:
  assumes "good (view w)" "plain_workloads (workloads (view w))" "rules_of w = []"
    and "\<And>i e x. spire_entries stored w i = Some e \<Longrightarrow> x \<in> set (workloads (view w)) \<Longrightarrow> EntrySPIFFEID e \<noteq> wl_spiffe_id x"
  shows "owned_state stored issued w"
  using assms by (auto simp: owned_state_def bound_own_def entries_own_def)

lemma memory_owned: "owned_state memory_stored memory_issued memory_platform"
proof -
  have "reg_validateSPIFFEID ''spiffe://td.example/api'' = None" "set ''%?'' \<inter> set ''spiffe://td.example/api'' = {}" by code_simp+
  moreover have "view memory_platform = tables (pf_db memory_platform)" by (simp add: view_def)
  moreover have "good (tables (pf_db memory_platform))" using example_good by (simp add: good_def memory_platform_def example_platform_def)
  moreover have "spire_entries memory_stored memory_platform i = None" for i
    by (simp add: spire_entries_def memory_platform_def memory_stored_def)
  moreover have "''e1'' \<in> memory_issued (pf_spire memory_platform)" by (simp add: memory_platform_def memory_issued_def)
  ultimately show ?thesis
    using example_typed by (simp add: owned_state_def plain_workloads_def entries_own_def bound_own_def example_tables_sel example_rule_def
        example_workload_def)
qed

text \<open>A reconciler lists the rule of the database and stops there.\<close>

lemma memory_listing:
  obtains w x where "concurrent_step memory_outside example_pg example_bearer example_pg memory_api memory_stored memory_issued
      (memory_platform, []) (w, [(x, ''c1'', [])])" "view w = view memory_platform" "pf_spire w = pf_spire memory_platform"
    "serves example_pg 4 (pf_db w)"
proof -
  have "distinct (map uuid_n [0..<5])" by code_simp
  then have five: "serves example_pg (Suc 4) (pf_db memory_platform)"
    by (simp add: serves_def example_pg_def memory_platform_def rule_db_def example_db_def example_tables_def del: upt_Suc)
  have "list_all decodable (registration_rules (tables (pf_db memory_platform)))" "schema_ok (tables (pf_db memory_platform))"
    using memory_owned rules_ok_decodable by (auto simp: owned_state_def good_def view_def)
  from reg_List_run[OF this(2) five this(1)] obtain x s where
    run: "reg_List example_pg (pf_db memory_platform) = (Inr [x], s)" "tables s = tables (pf_db memory_platform)" "tick s = Suc (tick (pf_db memory_platform))"
    by (auto simp: example_tables_sel listing_def)
  let ?w = "memory_platform\<lparr>pf_db := s\<rparr>"
  have "store_List (svc_rules (platform_service memory_outside example_pg memory_api)) memory_platform = (Inr [x], ?w)"
    using run(1) by (simp add: platform_service_def db_store_def on_db_def)
  from concurrent_step.listing[OF this refl, of example_pg example_bearer memory_stored memory_issued "[]" "''c1''"]
  have step: "concurrent_step memory_outside example_pg example_bearer example_pg memory_api memory_stored memory_issued
      (memory_platform, []) (?w, [(x, ''c1'', [])])" by simp
  have "serves example_pg 4 s" by (rule serves_next[OF five, where ids = "[]"]) (simp_all add: run)
  then show thesis using that[OF step] run(2) by (simp add: view_def)
qed

section \<open>Properties\<close>





end
