(* ===== verification/Confidentiality.thy ===== *)
theory Confidentiality
  imports Platform_Api
begin

text \<open>
  What a client without the permission for its request learns. Two control planes with the same
  credentials that draw the same request IDs, over databases and SPIRE servers that can differ in
  everything, are compared on one request: the responses are equal.
\<close>

section \<open>Requests that are refused\<close>

text \<open>The request carries the operator's token, and the operator's role has the permission of its endpoint.\<close>

definition cleared :: "authn \<Rightarrow> authz \<Rightarrow> Request \<Rightarrow> bool" where
  "cleared authenticate allowed req \<longleftrightarrow>
     (case (authenticate (rq_Authorization req),
            endpoint_permission (api_endpoint (rq_Method req) (segments (EscapedPath (rq_URL req))))) of
        (Some p, Some perm) \<Rightarrow> allowed p perm
      | _ \<Rightarrow> False)"

text \<open>\<open>GET /readyz\<close>, the request that needs no token and asks the database.\<close>

definition probe :: "Request \<Rightarrow> bool" where
  "probe req \<longleftrightarrow> rq_Method req = ''GET'' \<and> segments (EscapedPath (rq_URL req)) = [''readyz'']"

lemma front_probe: "front_endpoint (rq_Method req) (segments (EscapedPath (rq_URL req))) = Readiness
    \<Longrightarrow> rq_Method req = ''GET'' \<Longrightarrow> probe req"
  by (auto simp: front_endpoint_def probe_def split: list.splits if_splits)

section \<open>Two servers\<close>

text \<open>The servers check the same credentials, and the mux is the same.\<close>

definition alike :: "'w Server \<Rightarrow> 'w Server \<Rightarrow> bool" where
  "alike srv srv' \<longleftrightarrow> srv_authenticator srv = srv_authenticator srv' \<and> srv_authorizer srv = srv_authorizer srv'
     \<and> env_mux_answer (srv_env srv) = env_mux_answer (srv_env srv')"

text \<open>The responses are the same, and nothing is changed unless the request is a probe.\<close>

definition agree :: "bool \<Rightarrow> ('w \<Rightarrow> Response \<times> 'w) \<Rightarrow> 'w \<Rightarrow> ('w \<Rightarrow> Response \<times> 'w) \<Rightarrow> 'w \<Rightarrow> bool" where
  "agree probing m w m' w' \<longleftrightarrow> fst (m w) = fst (m' w') \<and> (\<not> probing \<longrightarrow> snd (m w) = w \<and> snd (m' w') = w')"

lemma agree_pure: "(\<And>w. m w = (resp, w)) \<Longrightarrow> (\<And>w. m' w = (resp, w)) \<Longrightarrow> agree probing m w m' w'"
  by (simp add: agree_def)

text \<open>The muxes route a request alike.\<close>

lemma front_segs: "route_segs (root_routes srv ! front_index f) = route_segs (root_routes srv' ! front_index f)"
  by (cases f) (simp_all add: root_routes_def front_index_def)

lemma root_redirect: "slash_redirect (root_routes srv) m p = slash_redirect (root_routes srv') m p"
  unfolding slash_redirect_def match_root by (simp add: exactMatch_def front_segs[of srv _ srv'])

lemma api_segs: "route_segs (api_routes srv ! endpoint_index ep) = route_segs (api_routes srv' ! endpoint_index ep)"
  by (cases ep) (simp_all add: api_routes_def endpoint_index_def)

lemma api_redirect: "slash_redirect (api_routes srv) m p = slash_redirect (api_routes srv') m p"
  unfolding slash_redirect_def match_api by (simp add: exactMatch_def api_segs[of srv _ srv'])

lemma serve_root:
  obtains b where "\<And>srv :: 'w Server. serve_mux srv (root_routes srv) cx h req vals =
    (if b then route_handler (root_routes srv ! front_index (front_endpoint (rq_Method req) (segments (EscapedPath (rq_URL req))))) cx h req []
     else (\<lambda>w. (env_mux_answer (srv_env srv) h req, w)))"
proof -
  fix srv0 :: "'w Server"
  let ?path = "EscapedPath (rq_URL req)"
  let ?b = "rq_RequestURI req \<noteq> ''*'' \<and> (rq_Method req = ''CONNECT'' \<or> cleanPath ?path = ?path) \<and> ?path \<noteq> []
    \<and> \<not> slash_redirect (root_routes srv0) (rq_Method req) ?path"
  show thesis
  proof (rule that[of ?b])
    fix srv :: "'w Server"
    show "serve_mux srv (root_routes srv) cx h req vals =
      (if ?b then route_handler (root_routes srv ! front_index (front_endpoint (rq_Method req) (segments ?path))) cx h req []
       else (\<lambda>w. (env_mux_answer (srv_env srv) h req, w)))"
      using root_redirect[of srv _ _ srv0] by (auto simp: fun_eq_iff serve_mux_def mux_route_def match_root Let_def)
  qed
qed

lemma serve_routes:
  obtains b where "\<And>srv :: 'w Server. serve_mux srv (api_routes srv) cx h req vals =
    (let ep = api_endpoint (rq_Method req) (segments (EscapedPath (rq_URL req))) in
     if b then endpoint_handler srv ep cx h req (endpoint_vals ep) else (\<lambda>w. (env_mux_answer (srv_env srv) h req, w)))"
proof -
  fix srv0 :: "'w Server"
  let ?path = "EscapedPath (rq_URL req)"
  let ?b = "rq_RequestURI req \<noteq> ''*'' \<and> (rq_Method req = ''CONNECT'' \<or> cleanPath ?path = ?path) \<and> ?path \<noteq> []
    \<and> \<not> slash_redirect (api_routes srv0) (rq_Method req) ?path"
  show thesis
  proof (rule that[of ?b])
    fix srv :: "'w Server"
    show "serve_mux srv (api_routes srv) cx h req vals =
      (let ep = api_endpoint (rq_Method req) (segments ?path) in
       if ?b then endpoint_handler srv ep cx h req (endpoint_vals ep) else (\<lambda>w. (env_mux_answer (srv_env srv) h req, w)))"
      using api_redirect[of srv _ _ srv0] by (auto simp: fun_eq_iff serve_mux_def mux_route_def match_api api_handler Let_def)
  qed
qed

section \<open>Every handler keeps its secrets\<close>

lemma agree_endpoint:
  assumes a: "alike srv srv'" and p: "srv_authenticator srv (rq_Authorization req) = Some p" "cx_Principal cx = Some p"
    and no: "\<not> cleared (srv_authenticator srv) (srv_authorizer srv) req"
  shows "agree probing (serve_mux srv (api_routes srv) cx h req vals) w (serve_mux srv' (api_routes srv') cx h req vals) w'"
proof -
  let ?ep = "api_endpoint (rq_Method req) (segments (EscapedPath (rq_URL req)))"
  obtain b where b: "\<And>srv :: 'a Server. serve_mux srv (api_routes srv) cx h req vals =
    (let ep = ?ep in if b then endpoint_handler srv ep cx h req (endpoint_vals ep) else (\<lambda>w. (env_mux_answer (srv_env srv) h req, w)))"
    using serve_routes by blast
  show ?thesis
  proof (cases "endpoint_permission ?ep")
    case None
    then have "?ep = NoRoute" by (cases ?ep) (simp_all add: endpoint_permission_def)
    with None a show ?thesis
      unfolding b Let_def by (simp add: agree_def alike_def endpoint_handler_def endpoint_service_def notFound_def)
  next
    case (Some perm)
    with p no have "\<not> srv_authorizer srv p perm" by (simp add: cleared_def)
    with Some p(2) a show ?thesis
      unfolding b Let_def by (simp add: agree_def alike_def endpoint_handler_def requirePermission_def operatorPrincipalFrom_def)
  qed
qed

lemma agree_operator:
  assumes "alike srv srv'" "\<not> cleared (srv_authenticator srv) (srv_authorizer srv) req"
  shows "agree probing (requireOperator srv (serve_mux srv (api_routes srv)) cx h req vals) w
    (requireOperator srv' (serve_mux srv' (api_routes srv')) cx h req vals) w'"
proof (cases "srv_authenticator srv (rq_Authorization req)")
  case None
  with assms(1) show ?thesis by (simp add: agree_def requireOperator_def alike_def)
next
  case (Some p)
  with assms(1) agree_endpoint[OF assms(1) Some _ assms(2), of "cx\<lparr>cx_Principal := Some p\<rparr>" probing h vals w w'] show ?thesis
    by (simp add: agree_def requireOperator_def alike_def)
qed

lemma agree_ready:
  assumes "probe req \<Longrightarrow> isl (fst (srv_readiness srv w)) = isl (fst (srv_readiness srv' w'))"
    and "rq_Method req = ''GET'' \<Longrightarrow> probe req"
  shows "agree (probe req) (getOnly (ready srv) cx h req vals) w (getOnly (ready srv') cx h req vals) w'"
proof (cases "rq_Method req = ''GET''")
  case True
  with assms show ?thesis
    by (auto simp: agree_def getOnly_def ready_def split: sum.splits prod.splits)
qed (simp add: agree_def getOnly_def)

lemma agree_front:
  assumes a: "alike srv srv'" and no: "\<not> cleared (srv_authenticator srv) (srv_authorizer srv) req"
    and r: "probe req \<Longrightarrow> isl (fst (srv_readiness srv w)) = isl (fst (srv_readiness srv' w'))"
  shows "agree (probe req) (serve_mux srv (root_routes srv) cx h req vals) w (serve_mux srv' (root_routes srv') cx h req vals) w'"
proof -
  let ?f = "front_endpoint (rq_Method req) (segments (EscapedPath (rq_URL req)))"
  obtain b where b: "\<And>srv :: 'a Server. serve_mux srv (root_routes srv) cx h req vals =
    (if b then route_handler (root_routes srv ! front_index ?f) cx h req [] else (\<lambda>w. (env_mux_answer (srv_env srv) h req, w)))"
    using serve_root by blast
  have "agree (probe req) (route_handler (root_routes srv ! front_index ?f) cx h req []) w
    (route_handler (root_routes srv' ! front_index ?f) cx h req []) w'"
  proof (cases ?f)
    case Readiness
    with agree_ready[OF r front_probe[OF Readiness], of cx h "[]"] show ?thesis by (simp add: root_handlers)
  next
    case (Api ep)
    with agree_operator[OF a no] show ?thesis by (simp add: root_handlers)
  qed (auto simp: root_handlers agree_def getOnly_def health_def notFound_def)
  with a show ?thesis unfolding b by (simp add: agree_def alike_def)
qed

lemma agree_served:
  assumes "alike srv srv'" "\<not> cleared (srv_authenticator srv) (srv_authorizer srv) req"
    and id: "newRequestID srv w = (rid, u)" "newRequestID srv' w' = (rid, u')"
    and "probe req \<Longrightarrow> isl (fst (srv_readiness srv u)) = isl (fst (srv_readiness srv' u'))"
  shows "agree (probe req) (\<lambda>_. ServeHTTP srv req w) u (\<lambda>_. ServeHTTP srv' req w') u'"
  using agree_front[OF assms(1,2,5)] id
  by (simp add: agree_def ServeHTTP_def securityHeaders_def requestIDMiddleware_def)

section \<open>Properties\<close>

text \<open>
  C8. A client learns nothing from a request it is not allowed to make. Let two control planes with the
  same configured operator draw the same random bytes, over platforms whose databases, SPIRE servers,
  failures and clocks can differ in everything. To a request of any method, path, body and header that does
  not carry the token of an operator whose role has the permission of its endpoint, both send the same
  response, header and body; and the platform is left as it was but for the draw of the request ID.
  The one exception is \<open>GET /readyz\<close>, which tells whether the database answers, and no more.
\<close>

theorem refusals_reveal_nothing:
  assumes "\<not> cleared (Authenticate bearer) RBAC_Allowed req" "pf_draws w = pf_draws w'"
    and "probe req \<longrightarrow> isl (fst (ping pg (pf_db w))) = isl (fst (ping pg' (pf_db w')))"
  shows "fst (ServeHTTP (platform_server out pg bearer) req w) = fst (ServeHTTP (platform_server out pg' bearer) req w')
    \<and> (\<not> probe req \<longrightarrow> snd (ServeHTTP (platform_server out pg bearer) req w) = w\<lparr>pf_draws := Suc (pf_draws w)\<rparr>)"
proof -
  let ?srv = "platform_server out pg bearer" and ?srv' = "platform_server out pg' bearer"
  let ?u = "w\<lparr>pf_draws := Suc (pf_draws w)\<rparr>" and ?u' = "w'\<lparr>pf_draws := Suc (pf_draws w')\<rparr>"
  obtain rid where id: "newRequestID ?srv w = (rid, ?u)" "newRequestID ?srv' w' = (rid, ?u')"
    using assms(2) by (cases "out_random out (pf_draws w)") (simp_all add: newRequestID_def platform_server_def http_surroundings_def draw_def)
  have "alike ?srv ?srv'" by (simp add: alike_def platform_server_def)
  moreover have "\<not> cleared (srv_authenticator ?srv) (srv_authorizer ?srv) req" using assms(1) by (simp add: platform_server_def)
  moreover have "isl (fst (srv_readiness ?srv ?u)) = isl (fst (srv_readiness ?srv' ?u'))" if "probe req"
    using assms(3) that by (auto simp: platform_server_def dependencies_def on_db_def split: prod.splits)
  ultimately have "agree (probe req) (\<lambda>_. ServeHTTP ?srv req w) ?u (\<lambda>_. ServeHTTP ?srv' req w') ?u'"
    using agree_served[of ?srv ?srv' req, OF _ _ id] by blast
  then show ?thesis by (simp add: agree_def)
qed

text \<open>The listing of the workloads without a token, from a database with a rule and from one without.\<close>

definition anonymous_listing :: Request where
  "anonymous_listing = (api_request ''GET'' ''/v1/workloads'' [])\<lparr>rq_Authorization := []\<rparr>"

theorem refusals_reveal_nothing_witness:
  "\<exists>w'. tables (pf_db w') \<noteq> tables (pf_db example_platform)
     \<and> fst (ServeHTTP (platform_server example_outside example_pg example_bearer) anonymous_listing example_platform)
       = fst (ServeHTTP (platform_server example_outside example_pg example_bearer) anonymous_listing w')"
proof -
  let ?w' = "example_platform\<lparr>pf_db := example_db\<rparr>"
  have "\<not> cleared (Authenticate example_bearer) RBAC_Allowed anonymous_listing"
    by (simp add: cleared_def anonymous_listing_def api_request_def Authenticate_def Cut_def)
  moreover have "\<not> probe anonymous_listing" by code_simp
  ultimately have "fst (ServeHTTP (platform_server example_outside example_pg example_bearer) anonymous_listing example_platform)
       = fst (ServeHTTP (platform_server example_outside example_pg example_bearer) anonymous_listing ?w')"
    using refusals_reveal_nothing[of example_bearer anonymous_listing example_platform ?w' example_pg example_pg example_outside]
    by simp
  moreover have "tables (pf_db ?w') \<noteq> tables (pf_db example_platform)"
    by (simp add: example_platform_def rule_db_def example_db_def example_tables_def)
  ultimately show ?thesis by blast
qed

end
