(* ===== verification/Listing.thy ===== *)
theory Listing
  imports Confidentiality
begin

text \<open>
  The listing of an organization's workloads from the request to the bytes of the response: the mux, the
  guards, the query and the encoding together.
\<close>

definition unwritable :: "(int \<Rightarrow> int) \<Rightarrow> Workload \<Rightarrow> bool" where
  "unwritable zone x \<longleftrightarrow> (\<exists>t \<in> {WorkloadCreatedAt x, UpdatedAt x} \<union> set_option (LastSeenAt x). MarshalTime zone t = None)"

lemma workload_json_None: "workload_json zone x = None \<longleftrightarrow> unwritable zone x"
  by (cases "LastSeenAt x") (auto simp: workload_json_def time_json_def unwritable_def split: option.splits)

definition listing_body :: "(int \<Rightarrow> int) \<Rightarrow> Workload list \<Rightarrow> string" where
  "listing_body zone items = (case those (map (workload_json zone) items) of
     None \<Rightarrow> [] | Some vs \<Rightarrow> Marshal (JObj [(''data'', JArr vs)]) @ [char_of (10::nat)])"

lemma listing_body_Nil: "listing_body zone items = [] \<longleftrightarrow> (\<exists>x \<in> set items. unwritable zone x)"
proof (cases "those (map (workload_json zone) items)")
  case None
  then have "\<exists>x \<in> set items. workload_json zone x = None" unfolding those_None by (metis (no_types, lifting) imageE set_map)
  with None show ?thesis by (simp add: listing_body_def workload_json_None)
next
  case (Some vs)
  then have "workload_json zone x \<noteq> None" if "x \<in> set items" for x
    using that those_None[of "map (workload_json zone) items"] by (metis image_eqI list.set_map option.distinct(1))
  with Some show ?thesis by (auto simp: listing_body_def workload_json_None)
qed

lemma serve_listing:
  assumes "rq_Method req = ''GET''" "servable req" "segments (EscapedPath (rq_URL req)) = [''v1'', ''workloads'']"
    and "cleared (srv_authenticator srv) (srv_authorizer srv) req" and "newRequestID srv w = (rid, w1)"
  obtains p where "ServeHTTP srv req w = listWorkloads srv \<lparr>cx_RequestID = rid, cx_Principal = Some p\<rparr> (base_header rid) req [] w1"
proof -
  have e: "api_endpoint (rq_Method req) (segments (EscapedPath (rq_URL req))) = Workloads"
    "front_endpoint (rq_Method req) (segments (EscapedPath (rq_URL req))) = Api Workloads"
    by (simp_all add: assms(3) api_endpoint_def front_endpoint_def)
  from assms(4) obtain p where "srv_authenticator srv (rq_Authorization req) = Some p" "srv_authorizer srv p PermissionWorkloadsRead"
    by (auto simp: cleared_def e endpoint_permission_def split: option.splits)
  then have "ServeHTTP srv req w = listWorkloads srv \<lparr>cx_RequestID = rid, cx_Principal = Some p\<rparr> (base_header rid) req [] w1"
    using assms(1,2,5) e
    by (simp add: serve_table answer_def api_answer_def endpoint_permission_def endpoint_service_def endpoint_vals_def getOnly_def)
  then show thesis by (rule that)
qed

section \<open>Properties\<close>

text \<open>
  C34. The listing is exact, from the request to the bytes. A permitted \<open>GET /v1/workloads\<close> changes no
  table. It is answered with 400 when the organization ID is not a UUID, with 500 when the database does
  not answer, and otherwise with 200 and one JSON array of exactly the workloads of that organization,
  each with its stored fields and its times in RFC 3339, ordered by environment, name and ID. If one of
  them has a time whose year does not have four digits, though, the response is 200 and its body is
  empty, and only then.
\<close>

theorem listing_is_exact:
  assumes "rq_Method req = ''GET''" "servable req" "segments (EscapedPath (rq_URL req)) = [''v1'', ''workloads'']"
    and "cleared (Authenticate bearer) RBAC_Allowed req" and "ServeHTTP (platform_server out pg bearer) req w = (resp, w')"
  shows "let i = Values_Get ''organization_id'' (URL_Query (rq_URL req));
      answers = (\<not> pg_fault pg (tick (pf_db w)) \<and> pg_commit pg (tick (pf_db w)) = Committed) in
    view w' = view w
    \<and> rs_Status resp = (if \<not> MatchString uuid_items i then 400 else if answers \<and> uuid_in i \<noteq> None then 200 else 500)
    \<and> (rs_Status resp = 200 \<longrightarrow> (\<exists>items. rs_Body resp = listing_body (out_zone out) items
        \<and> mset items = image_mset scan_workload (mset (filter (\<lambda>x. Some (wl_org x) = uuid_in i) (workloads (view w))))
        \<and> sorted (map (\<lambda>x. ((out_collation out (Environment x), Environment x), (out_collation out (WorkloadName x), WorkloadName x), WorkloadID x)) items)
        \<and> (rs_Body resp = [] \<longleftrightarrow> (\<exists>x \<in> set items. unwritable (out_zone out) x))))"
proof -
  let ?srv = "platform_server out pg bearer" and ?i = "Values_Get ''organization_id'' (URL_Query (rq_URL req))"
  let ?list = "ListByOrganization pg (out_collation out) ?i (pf_db w)"
  obtain rid where id: "newRequestID ?srv w = (rid, w\<lparr>pf_draws := Suc (pf_draws w)\<rparr>)"
    by (cases "out_random out (pf_draws w)") (simp_all add: newRequestID_def platform_server_def http_surroundings_def draw_def)
  have "cleared (srv_authenticator ?srv) (srv_authorizer ?srv) req" using assms(4) by (simp add: platform_server_def)
  from serve_listing[OF assms(1-3) this id] obtain p where
    "ServeHTTP ?srv req w = listWorkloads ?srv \<lparr>cx_RequestID = rid, cx_Principal = Some p\<rparr> (base_header rid) req [] (w\<lparr>pf_draws := Suc (pf_draws w)\<rparr>)" .
  note run = this[unfolded assms(5)]
  obtain r s where list: "?list = (r, s)" by fastforce
  have same: "tables s = tables (pf_db w)" by (rule ListByOrganization_reads[OF list])
  show ?thesis
  proof (cases "MatchString uuid_items ?i")
    case False
    with run show ?thesis by (simp add: listWorkloads_def view_def)
  next
    case True
    show ?thesis
    proof (cases r)
      case (Inl e)
      with run True list same show ?thesis
        using ListByOrganization_rows[of pg "out_collation out" ?i "pf_db w"]
        by (auto simp: listWorkloads_def platform_server_def dependencies_def on_db_def internal_error_def view_def)
    next
      case (Inr items)
      with list obtain org where org: "uuid_in ?i = Some org" "items = listed_workloads (out_collation out) org (workloads (tables (pf_db w)))"
        "\<not> pg_fault pg (tick (pf_db w))" "pg_commit pg (tick (pf_db w)) = Committed"
        by (auto simp: ListByOrganization_rows)
      have "resp = writeJSONStatus (base_header rid) 200 (map_option (\<lambda>vs. data_response (JArr vs)) (those (map (workload_json (out_zone out)) items)))"
        "w' = w\<lparr>pf_draws := Suc (pf_draws w), pf_db := s\<rparr>"
        using run True list Inr by (simp_all add: listWorkloads_def platform_server_def dependencies_def on_db_def http_surroundings_def)
      then have "rs_Status resp = 200" "rs_Body resp = listing_body (out_zone out) items" "view w' = view w"
        using same by (auto simp: writeJSONStatus_def listing_body_def data_response_def view_def split: option.split)
      with True org listed_workloads_mset[of "out_collation out" org "workloads (view w)"]
        listed_workloads_sorted[of "out_collation out" org "workloads (view w)"] listing_body_Nil[of "out_zone out" items]
      show ?thesis by (auto simp: Let_def view_def)
    qed
  qed
qed

text \<open>An organization whose one workload was created in the year 10000, to the microsecond.\<close>

definition late_db :: db where
  "late_db = example_db\<lparr>tables := example_tables\<lparr>workloads := [example_workload\<lparr>wl_created := 253402300800000000\<rparr>]\<rparr>\<rparr>"

definition listing_request :: Request where
  "listing_request = (api_request ''GET'' ''/v1/workloads'' [])
     \<lparr>rq_URL := empty_url\<lparr>u_path := ''/v1/workloads'', u_raw_query := ''organization_id='' @ uuid_n 90\<rparr>\<rparr>"

lemma listing_request:
  "rq_Method listing_request = ''GET''" "servable listing_request" "segments (EscapedPath (rq_URL listing_request)) = [''v1'', ''workloads'']"
  "Values_Get ''organization_id'' (URL_Query (rq_URL listing_request)) = uuid_n 90" "MatchString uuid_items (uuid_n 90)" "uuid_in (uuid_n 90) = Some (uuid_n 90)"
  "rq_Authorization listing_request = ''Bearer '' @ example_token"
  by code_simp+

theorem listing_is_exact_witness:
  "\<exists>resp w'. ServeHTTP (platform_server example_outside example_pg example_bearer) listing_request (example_platform\<lparr>pf_db := late_db\<rparr>) = (resp, w')
     \<and> rs_Status resp = 200 \<and> rs_Body resp = []"
proof -
  let ?w = "example_platform\<lparr>pf_db := late_db\<rparr>" and ?x = "example_workload\<lparr>wl_created := 253402300800000000\<rparr>"
  obtain resp w' where run: "ServeHTTP (platform_server example_outside example_pg example_bearer) listing_request ?w = (resp, w')" by fastforce
  have "cleared (Authenticate example_bearer) RBAC_Allowed listing_request"
    using example_authenticates listing_request
    by (simp add: cleared_def api_endpoint_def endpoint_permission_def RBAC_Allowed_def example_principal_def role_defs Role_Valid_def)
  note exact = listing_is_exact[OF listing_request(1-3) this run, unfolded Let_def listing_request(4)]
  have answers: "\<not> pg_fault example_pg n" "pg_commit example_pg n = Committed" for n by (simp_all add: example_pg_def)
  have ok: "rs_Status resp = 200" using exact answers listing_request(5,6) by simp
  with exact obtain items where items: "mset items = image_mset scan_workload (mset (filter (\<lambda>x. Some (wl_org x) = uuid_in (uuid_n 90)) (workloads (view ?w))))"
    "rs_Body resp = [] \<longleftrightarrow> (\<exists>x \<in> set items. unwritable (out_zone example_outside) x)" by blast
  have "mset items = {#scan_workload ?x#}" using items(1) listing_request(6)
    by (simp add: view_def late_db_def example_db_def example_tables_def example_workload_def)
  moreover have "unwritable (out_zone example_outside) (scan_workload ?x)"
  proof -
    have "MarshalTime (\<lambda>_. 0) 253402300800000000 = None" by code_simp
    then show ?thesis by (simp add: unwritable_def scan_workload_def example_outside_def)
  qed
  ultimately have "rs_Body resp = []" using items(2) by simp
  with run ok show ?thesis by blast
qed

end
