(* ===== verification/Spec2Isabelle.thy ===== *)
theory Spec2Isabelle
  imports Config Registration_Store Policy_Properties Reconcile_Bounds Reconcile_Liveness Workload Decoding
    System_Properties Programs Concurrency Listing
begin

text \<open>
  A verification development for the Workload Trust Platform: a control plane that serves a loopback
  management API over PostgreSQL, and a one-shot reconciler that brings SPIRE's registration entries
  in line with the rules operators stored. Source paths are relative to \<open>src/\<close>.

  \<^bold>\<open>The program.\<close> \<open>apps/control-plane/main.go\<close> reads its configuration (\<open>internal/config\<close>), builds a
  bearer authenticator (\<open>internal/operatorauth\<close>), opens the database (\<open>internal/database\<close>) and serves
  \<open>internal/httpapi\<close>. A request passes the mux and the middleware, is authenticated and authorized,
  and its handler calls one of three services: \<open>internal/workload\<close> (a listing), \<open>internal/registration\<close>
  (desired state of rules) and \<open>internal/policy\<close> (policies, versions, activation). A mutation is one
  transaction: it locks the row, compares the expected revision, writes, and appends its audit event
  (\<open>internal/audit\<close>). \<open>apps/reconciler/main.go\<close> runs one pass of \<open>internal/reconcile\<close>: it lists the rules,
  compares each with its entry in SPIRE through \<open>internal/spiremgmt\<close>, creates, updates or deletes the
  entry, records an audit event, and marks the rule. The two programs share nothing but the database.

  \<^bold>\<open>Conventions\<close> (\<open>Prelude\<close>). A Go call with an error is an action: a function from the state to a
  result (\<open>Inl\<close> an error of the component's own datatype, \<open>Inr\<close> a value) and the next state;
  \<open>and_then\<close>, \<open>wrap_err\<close> and \<open>on_result\<close> are the ways the code sequences calls and wraps errors. Go
  strings are byte strings (\<open>char list\<close>), nil pointers are \<open>None\<close>, \<open>int64\<close> and \<open>int32\<close> columns and JSON
  numbers keep their range as explicit checks, SHA-256 works on 32-bit words.

  \<^bold>\<open>The standard library the code relies on\<close>, written out because the decisions of the program depend on
  it: \<open>GoStrings\<close> and \<open>GoUnicode\<close> (strings, UTF-8, trimming, case folding, the two regular expressions),
  \<open>GoNet\<close> and \<open>GoUrl\<close> (addresses, \<open>url.Parse\<close>), \<open>GoJson\<close> and \<open>GoDecode\<close> (encoding/json: a lexer and a
  stack parser that consumes a token per step, so no fuel is needed; the strict decoder over a
  limited stream), \<open>GoTime\<close> (a time as encoding/json writes it, with the calendar proved to be the Gregorian
  one), \<open>GoHttp\<close> (headers, media types, the mux's patterns and redirects), \<open>Sha256\<close>.

  \<^bold>\<open>The components\<close>, in the order of the calls:
  \<^item> \<open>OperatorAuth\<close>, \<open>Config\<close>, \<open>SpiffeID\<close>: tokens, roles and the permission matrix; environment to
    configuration; the three SPIFFE ID checks and how they differ.
  \<^item> \<open>Database\<close>: the tables of \<open>db/migrations\<close> with their keys, checks and unique constraints
    (\<open>schema_ok\<close>), statements as functions on the tables, and the session: \<open>pg\<close> holds what
    PostgreSQL and the connection decide (generated UUIDs, the clock, faults, and for each commit whether
    it took effect and was acknowledged), \<open>with_tx\<close> is the begin/defer rollback/commit shape. \<open>AuditLog\<close>
    is the append, over the interface of a queryer, interpreted for a transaction and for the pool.
  \<^item> \<open>Registration\<close>, with \<open>Registration_Facts\<close> (the two mutations) and \<open>Registration_Store\<close> (what
    validation lets in, what the reconciler is given); \<open>Policy\<close>, with \<open>Policy_Facts\<close>, \<open>Policy_Laws\<close> and
    \<open>Policy_Properties\<close>; \<open>Workload\<close>.
  \<^item> \<open>SpireMgmt\<close> (the client over the generated gRPC stub, a parameter) and \<open>Reconcile\<close> over the three
    interfaces of the service. \<open>Reconcile_Calls\<close> records the calls of a run, \<open>Reconcile_Safety\<close> and
    \<open>Reconcile_Properties\<close> say what holds of them whatever is answered, \<open>Reconcile_Bounds\<close> that they are
    at most six for a rule, \<open>Reconcile_Settles\<close> and
    \<open>Reconcile_Liveness\<close> what happens when the services work, \<open>Reconcile_Frame\<close> what a pass cannot do.
    \<open>Reconcile_Steps\<close> is the same code one call at a time: its next call as a function of the answers so far, and the
    equality of a run with its steps.
  \<^item> \<open>HttpApi\<close>: both muxes, the middleware, the guards, the decoders and the handlers. \<open>Routing\<close> proves
    them equal to one table of endpoints, \<open>Decoding\<close> that the request bodies survive the wire, \<open>Api\<close>
    (over the interface \<open>services\<close>) what a request can do, \<open>Responses\<close> the shape of every answer.
  \<^item> \<open>Platform\<close>: the world of both programs (database, SPIRE, random source, open connections),
    \<open>database.Open\<close>, and the construction of both services; \<open>Programs\<close>: each program from start to exit.
    \<open>Platform_Api\<close> interprets \<open>services\<close> on the real services.
  \<^item> \<open>Intent\<close>: the abstract specification, five guarded events on rules and policies, with the abstraction
    \<open>intent_of\<close> of the tables and a simulation lemma per change; \<open>Audit_Trail\<close>: the record of an event;
    \<open>System\<close> and \<open>System_Properties\<close>: the interleaving of requests with the reconciler's work.
  \<^item> \<open>Convergence\<close>: the reconciler's pass end to end, from the listing to the marked rows, over SPIRE's entry
    API as documented (\<open>Spire_Works\<close>; \<open>Spire_Memory\<close> is a server that has these properties) and a database that
    serves the next statements (\<open>Platform_Works\<close>, with \<open>Json_Text\<close>: the JSON the program sends is text
    PostgreSQL accepts). A pass takes one statement for the listing and at most two for a rule, so the number of
    statements the hypothesis asks for is twice the rules plus two, for the pass and the one after it.
  \<^item> \<open>Ownership\<close>: whose entry is whose, as an invariant that every request, every single call of the reconciler and
    every failure keeps, over a SPIRE that may refuse, fail or lose answers but does not invent (\<open>spire_honest\<close>);
    \<open>Concurrency\<close>: requests, the calls of any number of reconcilers and changes made elsewhere in any order, the
    ownership that survives, and the recovery by one pass once the services work.
  \<^item> \<open>Confidentiality\<close>: two control planes over different platforms give the same response to a request that is not
    allowed. \<open>Listing\<close>: the listing of the workloads from the request to the bytes.

  \<^bold>\<open>The lemma groups.\<close> Per statement: what it does to the tables and that it keeps \<open>schema_ok\<close>. Per
  mutation: a relation that describes the whole change (\<open>rule_created\<close>, \<open>rule_replaced\<close>, \<open>policy_created\<close>,
  \<open>version_appended\<close>, \<open>version_activated\<close>), that success is this change, and that failure is
  no change or the change with a lost acknowledgement. From these relations follow atomicity, the optimistic
  concurrency control, the invariant of the policies, the audit trail and the refinement. For the
  reconciler: an ownership invariant over the recorded calls, and convergence when the services work.

  \<^bold>\<open>Interfaces\<close> are locales: the body of a transaction (\<open>tx_body\<close>), the queryer of the audit log
  (\<open>row_queryer\<close>), the permission check (\<open>authorizer\<close>), the API's services (\<open>services\<close>), the services of a
  reconciler that can finish its work (\<open>working_service\<close>), and relations that single calls keep
  (\<open>step_frame\<close>, extended by \<open>service_frame\<close> for the reconciler's services and by \<open>platform_frame\<close> for what
  SPIRE can move), each interpreted on the program's own definitions. \<open>services\<close> is interpreted twice, on what a
  request does to the tables and on what it does to SPIRE, which is nothing; \<open>service_frame\<close> also on a service that
  answers from a recorded history.

  \<^bold>\<open>Granularity.\<close> A transaction is one step, which is what its row lock and the unique constraints
  give the concurrent mutations of a row; a request is one step. In \<open>System\<close> the reconciler's listing and its work
  on each rule are steps of their own, so a rule it works on can be older than the stored one; in \<open>Concurrency\<close> every
  call of that work is, to SPIRE or to the database, so what it read can be out of date when it acts.

  Times are counts of microseconds, as PostgreSQL keeps them, without its two infinities.

  \<^bold>\<open>Not modelled.\<close> The mux's own answers (redirects, 405, CONNECT) and the routing of CONNECT to them are
  parameters; of pgx, gRPC, \<open>net/http\<close> and the operating system only what a call returns is visible, so contexts and
  timeouts appear as failing calls, and log lines and the closing of an oversized request's connection not at all.
  The constructors that only store their argument have no definition of their own. No statement of the program
  reaches \<open>trust_domains\<close>, \<open>security_events\<close> or the append-only triggers. Shell scripts, the lab
  and the tests are outside.
\<close>

end
